(* ===== verification/Prelude.thy ===== *)
theory Prelude
  imports Main "HOL-Library.Word" "HOL-Library.Signed_Division" "HOL-Library.Sublist"
begin

text \<open>
  What every theory of the development shares: Go's error values and their wrapping,
  64-bit and 32-bit integers, instants and durations, the string functions of the Go
  standard library that the sources call, and the collections of simplification rules
  the component proofs use.

  A Go \<^verbatim>\<open>string\<close> is its bytes, a \<^typ>\<open>string\<close> (one \<^typ>\<open>char\<close> per byte). A fallible
  call \<^verbatim>\<open>(T, error)\<close> is a value of \<open>goerr + 'a\<close>; a call that also reads or changes the
  outside world takes the world and returns it after the result.
\<close>

section \<open>Collections of rules\<close>

named_theorems go_int \<open>machine integers that stay in range\<close>
named_theorems keys \<open>separation of the key spaces kept in Redis\<close>
named_theorems wires \<open>unfolding of constructors and interface tables\<close>

section \<open>Error values\<close>

text \<open>
  The leaves are the sentinel errors the packages declare, the errors of the two clients
  that the code inspects (\<^verbatim>\<open>redis.Nil\<close>, \<^verbatim>\<open>pgx.ErrNoRows\<close>, \<^verbatim>\<open>*pgconn.PgError\<close> with its
  SQLSTATE) and every other error with its text. \<open>Wrapf\<close> is \<^verbatim>\<open>fmt.Errorf\<close> with the
  errors its \<^verbatim>\<open>%w\<close> verbs wrap.
\<close>

datatype errkind =
    RedisNil
  | ErrSessionNotFound
  | ErrSessionExpired
  | ErrResetTokenInvalid
  | ErrUsernameTaken
  | ErrUserNotFound
  | ErrInvalidTransfer
  | ErrAccountNotFound
  | ErrNotAccountOwner
  | ErrInsufficientFunds
  | ErrRetriesExhausted
  | ErrNoRows
  | PgError string
  | OtherErr string

datatype goerr = Leaf errkind | Wrapf string "goerr list"

type_synonym 'a res = "goerr + 'a"
type_synonym ('w, 'a) act = "'w \<Rightarrow> 'a res \<times> 'w"

text \<open>\<^verbatim>\<open>errors.Is\<close>: the error itself or anything it wraps is the sentinel.\<close>

fun errors_is :: "goerr \<Rightarrow> errkind \<Rightarrow> bool" where
  "errors_is (Leaf k') k = (k' = k)"
| "errors_is (Wrapf m es) k = list_ex (\<lambda>e. errors_is e k) es"

text \<open>\<^verbatim>\<open>errors.As\<close> with a \<^verbatim>\<open>*pgconn.PgError\<close> target: the first one of the tree, depth first.\<close>

fun errors_as_pg :: "goerr \<Rightarrow> string option"
  and errors_as_pg_list :: "goerr list \<Rightarrow> string option" where
  "errors_as_pg (Leaf k) = (case k of PgError c \<Rightarrow> Some c | _ \<Rightarrow> None)"
| "errors_as_pg (Wrapf m es) = errors_as_pg_list es"
| "errors_as_pg_list [] = None"
| "errors_as_pg_list (e # es) =
     (case errors_as_pg e of Some c \<Rightarrow> Some c | None \<Rightarrow> errors_as_pg_list es)"

lemma errors_is_Wrapf1 [simp]: "errors_is (Wrapf m [e]) k = errors_is e k"
  by simp

lemma errors_as_pg_Wrapf1 [simp]: "errors_as_pg (Wrapf m [e]) = errors_as_pg e"
  by (simp split: option.splits)

section \<open>Machine integers, durations and instants\<close>

text \<open>
  Go's \<^verbatim>\<open>int\<close>, \<^verbatim>\<open>int64\<close> and \<^verbatim>\<open>time.Duration\<close> (nanoseconds) are 64-bit two's complement;
  \<open>wrap64\<close> and \<open>wrap32\<close> are the values that fit after an operation or a conversion.
\<close>

definition wrap64 :: "int \<Rightarrow> int" where
  "wrap64 x = signed_take_bit 63 x"

definition wrap32 :: "int \<Rightarrow> int" where
  "wrap32 x = signed_take_bit 31 x"

definition is_int64 :: "int \<Rightarrow> bool" where
  "is_int64 x \<longleftrightarrow> - (2 ^ 63) \<le> x \<and> x < 2 ^ 63"

definition is_int32 :: "int \<Rightarrow> bool" where
  "is_int32 x \<longleftrightarrow> - (2 ^ 31) \<le> x \<and> x < 2 ^ 31"

lemma wrap64_id [go_int]: "is_int64 x \<Longrightarrow> wrap64 x = x"
  by (simp add: is_int64_def wrap64_def signed_take_bit_int_eq_self)

lemma wrap32_id [go_int]: "is_int32 x \<Longrightarrow> wrap32 x = x"
  by (simp add: is_int32_def wrap32_def signed_take_bit_int_eq_self)

lemma is_int64_wrap64 [simp]: "is_int64 (wrap64 x)"
  unfolding is_int64_def wrap64_def
  by (intro conjI signed_take_bit_int_greater_eq_minus_exp signed_take_bit_int_less_exp)

lemma is_int32_wrap32 [simp]: "is_int32 (wrap32 x)"
  unfolding is_int32_def wrap32_def
  by (intro conjI signed_take_bit_int_greater_eq_minus_exp signed_take_bit_int_less_exp)

lemma wrap64_over: "2 ^ 63 \<le> x \<Longrightarrow> x < 2 ^ 64 \<Longrightarrow> wrap64 x = x - 2 ^ 64"
proof -
  assume x: "2 ^ 63 \<le> x" "x < 2 ^ 64"
  have "wrap64 x = wrap64 (x - 2 ^ 64)"
    unfolding wrap64_def signed_take_bit_eq_iff_take_bit_eq
    by (simp add: take_bit_eq_mod mod_diff_right_eq [symmetric])
  also have "\<dots> = x - 2 ^ 64"
    using x by (intro wrap64_id) (simp add: is_int64_def)
  finally show ?thesis .
qed

type_synonym Duration = int

text \<open>An instant (\<^verbatim>\<open>time.Time\<close>) is its distance in nanoseconds from Go's zero time,
  1 January of the year 1, UTC.\<close>

type_synonym Time = int

abbreviation Millisecond :: Duration where "Millisecond \<equiv> 1000000"
abbreviation Second :: Duration where "Second \<equiv> 1000000000"

text \<open>\<^verbatim>\<open>Time.Sub\<close> saturates at the ends of the range of a duration.\<close>

definition time_Sub :: "Time \<Rightarrow> Time \<Rightarrow> Duration" where
  "time_Sub t u = max (- (2 ^ 63)) (min (2 ^ 63 - 1) (t - u))"

lemma time_Sub_id [go_int]: "is_int64 (t - u) \<Longrightarrow> time_Sub t u = t - u"
  by (auto simp: time_Sub_def is_int64_def)

lemma is_int64_time_Sub [simp]: "is_int64 (time_Sub t u)"
  by (auto simp: time_Sub_def is_int64_def)

text \<open>\<^verbatim>\<open>Time.Truncate\<close> rounds down to a multiple of the duration since the zero time.\<close>

definition time_Truncate :: "Time \<Rightarrow> Duration \<Rightarrow> Time" where
  "time_Truncate t d = (if d \<le> 0 then t else t - t mod d)"

text \<open>\<^verbatim>\<open>Time.Unix\<close>: whole seconds since 1970, which is 62135596800 seconds after the zero time.\<close>

definition time_Unix :: "Time \<Rightarrow> int" where
  "time_Unix t = t div Second - 62135596800"

text \<open>Integer division of Go truncates towards zero.\<close>

abbreviation go_quot :: "int \<Rightarrow> int \<Rightarrow> int" where
  "go_quot a b \<equiv> a sdiv b"

lemma go_quot_nonneg: "0 \<le> a \<Longrightarrow> 0 < b \<Longrightarrow> go_quot a b = a div b"
  by (simp add: signed_divide_int_def sgn_if)

lemma go_quot_neg: "a < 0 \<Longrightarrow> 0 < b \<Longrightarrow> go_quot a b \<le> 0"
  by (simp add: signed_divide_int_def sgn_if pos_imp_zdiv_nonneg_iff)

text \<open>
  The whole seconds of a positive duration, rounded up as \<^verbatim>\<open>(d + time.Second - 1) / time.Second\<close>:
  the sum overflows for the last second of the range of durations.
\<close>

definition ceil_seconds :: "Duration \<Rightarrow> int" where
  "ceil_seconds d = go_quot (wrap64 (wrap64 (d + Second) - 1)) Second"

lemma ceil_seconds_ok:
  assumes "0 < d" "d \<le> 2 ^ 63 - Second"
  shows "(ceil_seconds d - 1) * Second < d" and "d \<le> ceil_seconds d * Second" and "1 \<le> ceil_seconds d"
proof -
  have "wrap64 (wrap64 (d + Second) - 1) = d + Second - 1"
  proof (cases "d + Second < 2 ^ 63")
    case True
    then show ?thesis using assms by (simp add: wrap64_id is_int64_def)
  next
    case False
    then have d: "d + Second = 2 ^ 63" using assms(2) by simp
    have "wrap64 (2 ^ 63) = - (2 ^ 63)" using wrap64_over [of "2 ^ 63"] by simp
    moreover have "wrap64 (- (2 ^ 63) - 1) = 2 ^ 63 - 1"
      by (simp add: wrap64_def signed_take_bit_int_eq_self)
    ultimately show ?thesis using d by simp
  qed
  then have c: "ceil_seconds d = (d + Second - 1) div Second"
    using assms(1) by (simp add: ceil_seconds_def go_quot_nonneg)
  have r: "0 \<le> (d + Second - 1) mod Second" "(d + Second - 1) mod Second < Second"
    by simp_all
  have eq: "ceil_seconds d * Second + (d + Second - 1) mod Second = d + Second - 1"
    unfolding c by (rule div_mult_mod_eq)
  show "(ceil_seconds d - 1) * Second < d" using eq r(1) by (simp add: left_diff_distrib)
  show le: "d \<le> ceil_seconds d * Second" using eq r(2) by linarith
  show "1 \<le> ceil_seconds d" using le assms(1) by linarith
qed

lemma ceil_seconds_overflow:
  assumes "2 ^ 63 - Second < d" "d < 2 ^ 63"
  shows "ceil_seconds d \<le> 0"
proof -
  have 1: "wrap64 (d + Second) = d + Second - 2 ^ 64"
    using assms by (intro wrap64_over) simp_all
  have "wrap64 (d + Second - 2 ^ 64 - 1) = d + Second - 2 ^ 64 - 1"
    using assms by (intro wrap64_id) (simp add: is_int64_def)
  then show ?thesis
    using assms go_quot_neg [of "d + Second - 2 ^ 64 - 1" Second] by (simp add: ceil_seconds_def 1)
qed

section \<open>Strings\<close>

text \<open>
  \<^verbatim>\<open>strings.TrimSpace\<close> removes the code points that \<^verbatim>\<open>unicode.IsSpace\<close> accepts from both
  ends. On the bytes of a string they are the UTF-8 sequences below (tab, line feed, vertical
  tab, form feed, carriage return, space, U+0085, U+00A0, U+1680, U+2000 to U+200A, U+2028,
  U+2029, U+202F, U+205F, U+3000); UTF-8 is self-synchronising, so a leading or trailing
  sequence of bytes is one of them exactly when the first or last decoded code point is.
\<close>

definition space_seqs :: "string list" where
  "space_seqs =
     [[CHR 0x09], [CHR 0x0A], [CHR 0x0B], [CHR 0x0C], [CHR 0x0D], [CHR 0x20],
      [CHR 0xC2, CHR 0x85], [CHR 0xC2, CHR 0xA0], [CHR 0xE1, CHR 0x9A, CHR 0x80],
      [CHR 0xE2, CHR 0x80, CHR 0x80], [CHR 0xE2, CHR 0x80, CHR 0x81],
      [CHR 0xE2, CHR 0x80, CHR 0x82], [CHR 0xE2, CHR 0x80, CHR 0x83],
      [CHR 0xE2, CHR 0x80, CHR 0x84], [CHR 0xE2, CHR 0x80, CHR 0x85],
      [CHR 0xE2, CHR 0x80, CHR 0x86], [CHR 0xE2, CHR 0x80, CHR 0x87],
      [CHR 0xE2, CHR 0x80, CHR 0x88], [CHR 0xE2, CHR 0x80, CHR 0x89],
      [CHR 0xE2, CHR 0x80, CHR 0x8A], [CHR 0xE2, CHR 0x80, CHR 0xA8],
      [CHR 0xE2, CHR 0x80, CHR 0xA9], [CHR 0xE2, CHR 0x80, CHR 0xAF],
      [CHR 0xE2, CHR 0x81, CHR 0x9F], [CHR 0xE3, CHR 0x80, CHR 0x80]]"

function strip :: "string list \<Rightarrow> string \<Rightarrow> string" where
  "strip qs s =
     (case find (\<lambda>q. q \<noteq> [] \<and> prefix q s) qs of
        None \<Rightarrow> s
      | Some q \<Rightarrow> strip qs (drop (length q) s))"
  by pat_completeness auto
termination
proof (relation "measure (\<lambda>(qs, s). length s)")
  fix qs and s q :: string
  assume "find (\<lambda>q. q \<noteq> [] \<and> prefix q s) qs = Some q"
  then have "q \<noteq> []" "prefix q s"
    by (auto simp: find_Some_iff)
  then show "((qs, drop (length q) s), qs, s) \<in> measure (\<lambda>(qs, s). length s)"
    by (cases s) (auto simp: prefix_def)
qed simp

declare strip.simps [simp del]

definition TrimSpace :: "string \<Rightarrow> string" where
  "TrimSpace s = rev (strip (map rev space_seqs) (rev (strip space_seqs s)))"

text \<open>
  \<^verbatim>\<open>strings.ToLower\<close>. The sources only compare its result with ASCII words, so it is given on
  the bytes that can yield ASCII: the letters A to Z and the two code points outside ASCII
  whose lower case is ASCII, U+0130 (to \<^verbatim>\<open>i\<close>) and U+212A (to \<^verbatim>\<open>k\<close>). Every other
  byte outside ASCII stays outside ASCII, as it does in Go.
\<close>

definition lower_char :: "char \<Rightarrow> char" where
  "lower_char c = (let n = of_char c :: nat in if 65 \<le> n \<and> n \<le> 90 then char_of (n + 32) else c)"

fun ToLower :: "string \<Rightarrow> string" where
  "ToLower [] = []"
| "ToLower (c # cs) =
     (if c = CHR 0xC4 \<and> take 1 cs = [CHR 0xB0] then CHR ''i'' # ToLower (drop 1 cs)
      else if c = CHR 0xE2 \<and> take 2 cs = [CHR 0x84, CHR 0xAA] then CHR ''k'' # ToLower (drop 2 cs)
      else lower_char c # ToLower cs)"

text \<open>
  \<^verbatim>\<open>utf8.Valid\<close> on the bytes of a string: no overlong form, no surrogate, nothing above U+10FFFF.
\<close>

definition utf8_cont :: "nat \<Rightarrow> bool" where
  "utf8_cont b \<longleftrightarrow> 128 \<le> b \<and> b < 192"

fun valid_utf8 :: "nat list \<Rightarrow> bool" where
  "valid_utf8 [] = True"
| "valid_utf8 (a # cs) =
     (if a < 128 then valid_utf8 cs
      else if 194 \<le> a \<and> a < 224 then
        (case cs of b # ds \<Rightarrow> utf8_cont b \<and> valid_utf8 ds | _ \<Rightarrow> False)
      else if 224 \<le> a \<and> a < 240 then
        (case cs of
           b # c # ds \<Rightarrow> utf8_cont b \<and> utf8_cont c \<and> (a = 224 \<longrightarrow> 160 \<le> b) \<and> (a = 237 \<longrightarrow> b < 160) \<and>
             valid_utf8 ds
         | _ \<Rightarrow> False)
      else if 240 \<le> a \<and> a < 245 then
        (case cs of
           b # c # d # ds \<Rightarrow> utf8_cont b \<and> utf8_cont c \<and> utf8_cont d \<and> (a = 240 \<longrightarrow> 144 \<le> b) \<and>
             (a = 244 \<longrightarrow> b < 144) \<and> valid_utf8 ds
         | _ \<Rightarrow> False)
      else False)"

definition utf8_text :: "string \<Rightarrow> bool" where
  "utf8_text s = valid_utf8 (map of_char s)"

lemma utf8_text_ascii: "\<forall>c \<in> set s. (of_char c :: nat) < 128 \<Longrightarrow> utf8_text s"
  by (induction s) (auto simp: utf8_text_def)

text \<open>\<^verbatim>\<open>strings.Split(s, ",")\<close>: the pieces between the separators, at least one.\<close>

fun split_on :: "char \<Rightarrow> string \<Rightarrow> string list" where
  "split_on d [] = [[]]"
| "split_on d (c # cs) =
     (if c = d then [] # split_on d cs
      else (case split_on d cs of [] \<Rightarrow> [[c]] | p # ps \<Rightarrow> (c # p) # ps))"

lemma split_on_nonempty [simp]: "split_on d s \<noteq> []"
  by (induction s) (auto split: list.splits)

text \<open>\<^verbatim>\<open>strings.LastIndexByte\<close>, with \<open>None\<close> for -1.\<close>

fun last_index :: "char \<Rightarrow> string \<Rightarrow> nat option" where
  "last_index d [] = None"
| "last_index d (c # cs) =
     (case last_index d cs of
        Some i \<Rightarrow> Some (Suc i)
      | None \<Rightarrow> if c = d then Some 0 else None)"

lemma last_index_None [simp]: "last_index d s = None \<longleftrightarrow> d \<notin> set s"
  by (induction s) (auto split: option.splits)

lemma last_index_append: "d \<notin> set q \<Longrightarrow> last_index d (p @ d # q) = Some (length p)"
  by (induction p) (auto simp: last_index_None [THEN iffD2])

text \<open>Decimal rendering, as the verb \<^verbatim>\<open>%d\<close> prints it.\<close>

fun show_nat :: "nat \<Rightarrow> string" where
  "show_nat n = (if n < 10 then [char_of (48 + n)]
                 else show_nat (n div 10) @ [char_of (48 + n mod 10)])"

declare show_nat.simps [simp del]

definition show_int :: "int \<Rightarrow> string" where
  "show_int i = (if i < 0 then CHR ''-'' # show_nat (nat (- i)) else show_nat (nat i))"

lemma set_show_nat: "set (show_nat n) \<subseteq> char_of ` {48..<58::nat}"
proof (induction n rule: show_nat.induct)
  case (1 n)
  then show ?case
    by (subst show_nat.simps) auto
qed

lemma set_show_int: "set (show_int i) \<subseteq> insert CHR ''-'' (char_of ` {48..<58::nat})"
  using set_show_nat by (auto simp: show_int_def)

lemma colon_show_int [simp]: "CHR '':'' \<notin> set (show_int i)"
proof
  assume "CHR '':'' \<in> set (show_int i)"
  then obtain n :: nat where n: "n < 58" "CHR '':'' = char_of n"
    using set_show_int [of i] by (auto dest!: subsetD)
  then have "(of_char CHR '':'' :: nat) = of_char (char_of n :: char)"
    by simp
  with n(1) show False by simp
qed

lemma minus_show_nat: "CHR ''-'' \<notin> set (show_nat n)"
proof
  assume "CHR ''-'' \<in> set (show_nat n)"
  then obtain m :: nat where m: "48 \<le> m" "m < 58" "CHR ''-'' = char_of m"
    using set_show_nat [of n] by (auto dest!: subsetD)
  then have "(of_char CHR ''-'' :: nat) = of_char (char_of m :: char)"
    by simp
  with m(1,2) show False by simp
qed

definition read_nat :: "string \<Rightarrow> nat" where
  "read_nat s = foldl (\<lambda>a c. 10 * a + (of_char c - 48)) 0 s"

lemma read_show_nat: "read_nat (show_nat n) = n"
proof (induction n rule: show_nat.induct)
  case (1 n)
  show ?case
  proof (cases "n < 10")
    case True
    then show ?thesis by (subst show_nat.simps) (simp add: read_nat_def)
  next
    case False
    have "n mod 10 < 10" by simp
    with 1 False show ?thesis by (subst show_nat.simps) (simp add: read_nat_def)
  qed
qed

lemma show_nat_inject [simp]: "show_nat m = show_nat n \<longleftrightarrow> m = n"
  using read_show_nat by metis

lemma show_int_inject [simp]: "show_int i = show_int j \<longleftrightarrow> i = j"
proof
  assume eq: "show_int i = show_int j"
  have "i < 0 \<longleftrightarrow> j < 0"
    using eq minus_show_nat by (auto simp: show_int_def split: if_splits) (metis list.set_intros(1))+
  with eq show "i = j"
    by (auto simp: show_int_def split: if_splits)
qed simp

end
