(* ===== verification/GoNet.thy ===== *)
theory GoNet
  imports Prelude
begin

text \<open>
  The part of Go's \<^verbatim>\<open>net\<close> and \<^verbatim>\<open>net/netip\<close> packages that the proxy handling, the configuration and
  the health check call: addresses and prefixes with their textual form, and the splitting of
  \<^verbatim>\<open>host:port\<close>. The functions follow the standard library's own loops; the text of an error is not
  read by any caller, so a parser returns an \<open>option\<close>.
\<close>

section \<open>Addresses\<close>

text \<open>\<^verbatim>\<open>netip.Addr\<close>: the zero value, an IPv4 address, or an IPv6 address with its zone.\<close>

datatype Addr = NoAddr | V4 "32 word" | V6 "128 word" string

definition Addr_IsValid :: "Addr \<Rightarrow> bool" where
  "Addr_IsValid a \<longleftrightarrow> a \<noteq> NoAddr"

definition is_digit :: "char \<Rightarrow> bool" where
  "is_digit c \<longleftrightarrow> (let n = of_char c :: int in 48 \<le> n \<and> n \<le> 57)"

definition hex_val :: "char \<Rightarrow> int option" where
  "hex_val c = (let n = of_char c in
     if 48 \<le> n \<and> n \<le> 57 then Some (n - 48)
     else if 97 \<le> n \<and> n \<le> 102 then Some (n - 87)
     else if 65 \<le> n \<and> n \<le> 70 then Some (n - 55) else None)"

text \<open>
  \<^verbatim>\<open>parseIPv4Fields\<close>: \<open>sep\<close> tells that the previous character was a dot or there was none, \<open>fs\<close>
  holds the fields that are complete, last first.
\<close>

fun parseIPv4Fields :: "bool \<Rightarrow> string \<Rightarrow> int \<Rightarrow> nat \<Rightarrow> int list \<Rightarrow> int list option" where
  "parseIPv4Fields sep [] val digLen fs = (if length fs < 3 then None else Some (rev (val # fs)))"
| "parseIPv4Fields sep (c # cs) val digLen fs =
     (if is_digit c
      then (if digLen = 1 \<and> val = 0 then None
            else (let val' = val * 10 + (of_char c - 48)
                  in if val' > 255 then None else parseIPv4Fields False cs val' (digLen + 1) fs))
      else if c = CHR ''.''
      then (if sep \<or> cs = [] then None
            else if length fs = 3 then None
            else parseIPv4Fields True cs 0 0 (val # fs))
      else None)"

definition parseIPv4 :: "string \<Rightarrow> Addr option" where
  "parseIPv4 s = map_option (\<lambda>fs. V4 (of_int (foldl (\<lambda>a f. a * 256 + f) 0 fs))) (parseIPv4Fields True s 0 0 [])"

text \<open>
  The loop of \<^verbatim>\<open>parseIPv6\<close>: the first argument is the number of 16-bit groups that still fit, \<open>gs\<close>
  the groups read so far and \<open>ell\<close> the number of groups before the ellipsis. The result is the rest
  of the text, the groups and the ellipsis.
\<close>

fun parseIPv6_loop :: "nat \<Rightarrow> string \<Rightarrow> int list \<Rightarrow> nat option \<Rightarrow> (string \<times> int list \<times> nat option) option" where
  "parseIPv6_loop 0 s gs ell = Some (s, gs, ell)"
| "parseIPv6_loop (Suc n) s gs ell =
     (let ds = takeWhile (\<lambda>c. hex_val c \<noteq> None) s;
          rest = dropWhile (\<lambda>c. hex_val c \<noteq> None) s;
          acc = foldl (\<lambda>a c. a * 16 + the (hex_val c)) 0 ds
      in if 4 < length ds \<or> ds = [] then None
         else if take 1 rest = ''.''
         then (if ell = None \<and> length gs \<noteq> 6 then None
               else if 8 < length gs + 2 then None
               else (case parseIPv4Fields True s 0 0 [] of
                       Some [a, b, c, d] \<Rightarrow> Some ([], gs @ [a * 256 + b, c * 256 + d], ell)
                     | _ \<Rightarrow> None))
         else (case rest of
                 [] \<Rightarrow> Some ([], gs @ [acc], ell)
               | [c] \<Rightarrow> None
               | c # c' # s' \<Rightarrow>
                   (if c \<noteq> CHR '':'' then None
                    else if c' = CHR '':''
                    then (if ell \<noteq> None then None
                          else if s' = [] then Some ([], gs @ [acc], Some (length gs + 1))
                          else parseIPv6_loop n s' (gs @ [acc]) (Some (length gs + 1)))
                    else parseIPv6_loop n (c' # s') (gs @ [acc]) ell)))"

definition addrFromGroups :: "int list \<Rightarrow> string \<Rightarrow> Addr" where
  "addrFromGroups gs zone = V6 (of_int (foldl (\<lambda>a g. a * 65536 + g) 0 gs)) zone"

definition parseIPv6 :: "string \<Rightarrow> Addr option" where
  "parseIPv6 txt' =
     (let s = takeWhile (\<lambda>c. c \<noteq> CHR ''%'') txt';
          tail = dropWhile (\<lambda>c. c \<noteq> CHR ''%'') txt';
          zone = drop 1 tail
      in if length tail = 1 then None
         else (let lead = (take 2 s = ''::'');
                   s' = (if lead then drop 2 s else s)
               in if lead \<and> s' = [] then Some (V6 0 zone)
                  else (case parseIPv6_loop 8 s' [] (if lead then Some 0 else None) of
                          None \<Rightarrow> None
                        | Some (rest, gs, ell) \<Rightarrow>
                            (if rest \<noteq> [] then None
                             else if length gs < 8
                             then (case ell of
                                     None \<Rightarrow> None
                                   | Some e \<Rightarrow>
                                       Some (addrFromGroups (take e gs @ replicate (8 - length gs) 0 @ drop e gs) zone))
                             else if ell \<noteq> None then None
                             else Some (addrFromGroups gs zone)))))"

text \<open>\<^verbatim>\<open>netip.ParseAddr\<close>: the first dot, colon or percent sign decides.\<close>

definition ParseAddr :: "string \<Rightarrow> Addr option" where
  "ParseAddr s =
     (case find (\<lambda>c. c = CHR ''.'' \<or> c = CHR '':'' \<or> c = CHR ''%'') s of
        None \<Rightarrow> None
      | Some c \<Rightarrow> if c = CHR ''.'' then parseIPv4 s else if c = CHR '':'' then parseIPv6 s else None)"

text \<open>\<^verbatim>\<open>Addr.Unmap\<close> and \<^verbatim>\<open>Addr.WithZone("")\<close>.\<close>

definition Is4In6 :: "128 word \<Rightarrow> bool" where
  "Is4In6 a \<longleftrightarrow> drop_bit 32 a = 0xFFFF"

fun Unmap :: "Addr \<Rightarrow> Addr" where
  "Unmap (V6 a zone) = (if Is4In6 a then V4 (ucast a) else V6 a zone)"
| "Unmap a = a"

fun WithoutZone :: "Addr \<Rightarrow> Addr" where
  "WithoutZone (V6 a zone) = V6 a []"
| "WithoutZone a = a"

section \<open>Prefixes\<close>

record Prefix =
  p_ip :: Addr
  p_bits :: nat

text \<open>\<^verbatim>\<open>Prefix.Contains\<close>: never across families, never for an address with a zone.\<close>

definition Contains :: "Prefix \<Rightarrow> Addr \<Rightarrow> bool" where
  "Contains p ip =
     (case (p_ip p, ip) of
        (V4 n, V4 a) \<Rightarrow> p_bits p \<le> 32 \<and> drop_bit (32 - p_bits p) a = drop_bit (32 - p_bits p) n
      | (V6 n z, V6 a z') \<Rightarrow> z' = [] \<and> p_bits p \<le> 128 \<and> drop_bit (128 - p_bits p) a = drop_bit (128 - p_bits p) n
      | _ \<Rightarrow> False)"

text \<open>
  \<^verbatim>\<open>netip.ParsePrefix\<close>. The length is \<^verbatim>\<open>strconv.Atoi\<close> of a text that either has one character or
  starts with a non-zero digit, so it is a number exactly when it is made of digits.
\<close>

definition ParsePrefix :: "string \<Rightarrow> Prefix option" where
  "ParsePrefix s =
     (case last_index (CHR ''/'') s of
        None \<Rightarrow> None
      | Some i \<Rightarrow>
          (case ParseAddr (take i s) of
             None \<Rightarrow> None
           | Some ip \<Rightarrow>
               (let bitsStr = drop (i + 1) s;
                    maxBits = (case ip of V6 _ _ \<Rightarrow> 128 | _ \<Rightarrow> 32)
                in if (case ip of V6 _ zone \<Rightarrow> zone \<noteq> [] | _ \<Rightarrow> False) then None
                   else if bitsStr = [] \<or> \<not> list_all is_digit bitsStr then None
                   else if 1 < length bitsStr \<and> hd bitsStr = CHR ''0'' then None
                   else if 3 < length bitsStr \<or> maxBits < read_nat bitsStr then None
                   else Some \<lparr>p_ip = ip, p_bits = read_nat bitsStr\<rparr>)))"

section \<open>Printing\<close>

text \<open>\<^verbatim>\<open>Addr.String\<close> of an IPv4 address.\<close>

definition string4 :: "32 word \<Rightarrow> string" where
  "string4 a = show_int (uint (drop_bit 24 a)) @ ''.'' @ show_int (uint (take_bit 8 (drop_bit 16 a))) @ ''.'' @
     show_int (uint (take_bit 8 (drop_bit 8 a))) @ ''.'' @ show_int (uint (take_bit 8 a))"

definition hex_char :: "int \<Rightarrow> char" where
  "hex_char d = ''0123456789abcdef'' ! nat d"

text \<open>\<^verbatim>\<open>appendHex\<close>: a 16-bit group without leading zeros.\<close>

definition appendHex :: "int \<Rightarrow> string" where
  "appendHex x = (if 0x1000 \<le> x then [hex_char (x div 4096)] else []) @
     (if 0x100 \<le> x then [hex_char (x div 256 mod 16)] else []) @
     (if 0x10 \<le> x then [hex_char (x div 16 mod 16)] else []) @ [hex_char (x mod 16)]"

definition v6u16 :: "128 word \<Rightarrow> int list" where
  "v6u16 a = map (\<lambda>i. uint (take_bit 16 (drop_bit (16 * (7 - i)) a))) [0..<8]"

text \<open>The longest run of at least two zero groups, the first one of that length.\<close>

definition zero_run :: "int list \<Rightarrow> nat \<times> nat" where
  "zero_run gs = foldl (\<lambda>(s, e) i.
     (let j = i + length (takeWhile (\<lambda>g. g = 0) (drop i gs))
      in if 2 \<le> j - i \<and> e - s < j - i then (i, j) else (s, e))) (255, 255) [0..<8]"

definition join_groups :: "int list \<Rightarrow> string" where
  "join_groups gs = concat (map (\<lambda>(i, g). (if 0 < i then '':'' else []) @ appendHex g) (enumerate 0 gs))"

definition string6 :: "128 word \<Rightarrow> string \<Rightarrow> string" where
  "string6 a zone =
     (let gs = v6u16 a; (zs, ze) = zero_run gs
      in (if 8 \<le> zs then join_groups gs else join_groups (take zs gs) @ ''::'' @ join_groups (drop ze gs)) @
         (if zone = [] then [] else CHR ''%'' # zone))"

fun Addr_String :: "Addr \<Rightarrow> string" where
  "Addr_String NoAddr = ''invalid IP''"
| "Addr_String (V4 a) = string4 a"
| "Addr_String (V6 a zone) =
     (if Is4In6 a then ''::ffff:'' @ string4 (ucast a) @ (if zone = [] then [] else CHR ''%'' # zone)
      else string6 a zone)"

section \<open>Host and port\<close>

text \<open>\<^verbatim>\<open>net.SplitHostPort\<close> and \<^verbatim>\<open>net.JoinHostPort\<close>.\<close>

definition SplitHostPort :: "string \<Rightarrow> (string \<times> string) option" where
  "SplitHostPort hostport =
     (case last_index (CHR '':'') hostport of
        None \<Rightarrow> None
      | Some i \<Rightarrow>
          (let port = drop (i + 1) hostport
           in if take 1 hostport = ''[''
              then (let pre = takeWhile (\<lambda>c. c \<noteq> CHR '']'') hostport;
                        j = length pre
                    in if j = length hostport then None
                       else if j + 1 \<noteq> i then None
                       else if CHR ''['' \<in> set (drop 1 hostport) then None
                       else if CHR '']'' \<in> set (drop (j + 1) hostport) then None
                       else Some (drop 1 pre, port))
              else (let host = take i hostport
                    in if CHR '':'' \<in> set host then None
                       else if CHR ''['' \<in> set hostport then None
                       else if CHR '']'' \<in> set hostport then None
                       else Some (host, port))))"

definition JoinHostPort :: "string \<Rightarrow> string \<Rightarrow> string" where
  "JoinHostPort host port =
     (if CHR '':'' \<in> set host then ''['' @ host @ '']:'' @ port else host @ '':'' @ port)"

lemma Split_JoinHostPort:
  assumes "CHR ''['' \<notin> set host" "CHR '']'' \<notin> set host"
    and "CHR '':'' \<notin> set port" "CHR ''['' \<notin> set port" "CHR '']'' \<notin> set port"
  shows "SplitHostPort (JoinHostPort host port) = Some (host, port)"
proof (cases "CHR '':'' \<in> set host")
  case True
  let ?h = "CHR ''['' # host @ [CHR '']'']"
  have j: "JoinHostPort host port = ?h @ CHR '':'' # port" using True by (simp add: JoinHostPort_def)
  have tw: "takeWhile (\<lambda>c. c \<noteq> CHR '']'') (host @ CHR '']'' # xs) = host" for xs
    using assms(2) by (auto simp: takeWhile_append)
  have "last_index (CHR '':'') (?h @ CHR '':'' # port) = Some (length ?h)"
    using assms(3) by (rule last_index_append)
  then show ?thesis using assms by (simp add: SplitHostPort_def j tw Let_def)
next
  case False
  then have j: "JoinHostPort host port = host @ CHR '':'' # port" by (simp add: JoinHostPort_def)
  have "last_index (CHR '':'') (host @ CHR '':'' # port) = Some (length host)"
    using assms(3) by (rule last_index_append)
  moreover have "take 1 (host @ CHR '':'' # port) \<noteq> ''[''" using assms(1) by (cases host) auto
  ultimately show ?thesis using assms False by (simp add: SplitHostPort_def j Let_def)
qed

section \<open>Facts about addresses\<close>

text \<open>A decimal field, read back by the loop of the IPv4 parser.\<close>

lemma digit_value [simp]: "d < 10 \<Longrightarrow> (of_char (char_of (48 + d :: nat)) :: int) = 48 + int d"
proof -
  assume "d < 10"
  have "(of_char (char_of (48 + d)) :: int) = int (of_char (char_of (48 + d) :: char))"
    by (simp only: of_nat_of_char)
  also have "\<dots> = int ((48 + d) mod 256)" by (simp only: of_char_of)
  finally show ?thesis using \<open>d < 10\<close> by simp
qed

lemma is_digit_char [simp]: "d < 10 \<Longrightarrow> is_digit (char_of (48 + d :: nat))"
  by (simp add: is_digit_def)

lemma parse_field:
  assumes "n < 256"
  shows "parseIPv4Fields sep (show_nat n @ cs) 0 0 fs = parseIPv4Fields False cs (int n) (length (show_nat n)) fs"
proof -
  have last: "int (m div 10) * 10 + int (m mod 10) = int m" for m by presburger
  consider "n < 10" | "10 \<le> n" "n < 100" | "100 \<le> n" by linarith
  then show ?thesis
  proof cases
    case 1
    then show ?thesis by (simp add: show_nat.simps [of n])
  next
    case 2
    then have "n div 10 < 10" "0 < n div 10" by auto
    with 2 assms show ?thesis
      by (simp add: show_nat.simps [of n] show_nat.simps [of "n div 10"] Let_def last del: of_nat_div of_nat_mod)
  next
    case 3
    with assms have "n div 10 div 10 < 10" "0 < n div 10 div 10" "10 \<le> n div 10" "n div 10 < 256" by auto
    with 3 assms show ?thesis
      by (simp add: show_nat.simps [of n] show_nat.simps [of "n div 10"] show_nat.simps [of "n div 10 div 10"]
        Let_def last del: of_nat_div of_nat_mod div_mult2_eq)
  qed
qed

lemma show_nat_nonempty: "show_nat n \<noteq> []"
  by (subst show_nat.simps) simp

text \<open>What \<^verbatim>\<open>Addr.String\<close> prints for an IPv4 address, \<^verbatim>\<open>ParseAddr\<close> reads back.\<close>

lemma parse_string4_fields:
  assumes "a < 256" "b < 256" "c < 256" "d < 256"
  shows "parseIPv4Fields True (show_nat a @ CHR ''.'' # show_nat b @ CHR ''.'' # show_nat c @ CHR ''.'' # show_nat d) 0 0 [] =
    Some [int a, int b, int c, int d]"
proof -
  have dot: "\<not> is_digit CHR ''.''" by code_simp
  have d: "parseIPv4Fields sep (show_nat d) 0 0 fs = parseIPv4Fields False [] (int d) (length (show_nat d)) fs" for sep fs
    using parse_field [OF assms(4), of sep "[]" fs] by simp
  show ?thesis by (simp add: parse_field assms d dot show_nat_nonempty)
qed

lemma find_first: "(\<And>x. x \<in> set xs \<Longrightarrow> \<not> P x) \<Longrightarrow> P y \<Longrightarrow> find P (xs @ y # r) = Some y"
  by (induction xs) auto

lemma digits_are_digits:
  assumes "c \<in> set (show_nat n)"
  shows "is_digit c"
proof -
  obtain k where k: "c = char_of k" "48 \<le> k" "k < (58 :: nat)"
    using assms set_show_nat [of n] by (meson atLeastLessThan_iff image_iff subsetD)
  then have "k = 48 + (k - 48)" "k - 48 < 10" by auto
  with k(1) show ?thesis by (metis is_digit_char)
qed

lemma byte_fields: "((x div 256 div 256 div 256 * 256 + x div 256 div 256 mod 256) * 256 + x div 256 mod 256) * 256 + x mod 256 = (x :: int)"
  by (simp only: div_mult_mod_eq)

lemma bytes_of_word:
  fixes a :: "32 word"
  shows "of_int (((uint (drop_bit 24 a) * 256 + uint (take_bit 8 (drop_bit 16 a))) * 256 +
    uint (take_bit 8 (drop_bit 8 a))) * 256 + uint (take_bit 8 a)) = a"
proof -
  have d: "uint (drop_bit 24 a) = uint a div 256 div 256 div 256" "uint (drop_bit 16 a) = uint a div 256 div 256"
      "uint (drop_bit 8 a) = uint a div 256"
    by (simp_all add: drop_bit_eq_div uint_div_distrib zdiv_zmult2_eq [symmetric])
  have m: "uint (take_bit 8 b) = uint b mod 256" for b :: "32 word"
    by (simp add: take_bit_eq_mod uint_mod_distrib)
  show ?thesis unfolding d m byte_fields by simp
qed

lemma Parse_string4: "ParseAddr (string4 a) = Some (V4 a)"
proof -
  let ?f = "\<lambda>i. unat (take_bit 8 (drop_bit i a))"
  have s: "show_int (uint (x :: 32 word)) = show_nat (unat x)" for x
    by (simp add: show_int_def)
  have bound: "?f i < 256" for i
    by (simp add: take_bit_eq_mod unat_mod_distrib)
  have top: "drop_bit 24 a = take_bit 8 (drop_bit 24 a)"
    by (rule bit_word_eqI) (auto simp: bit_simps dest: bit_imp_le_length)
  have str: "string4 a = show_nat (?f 24) @ CHR ''.'' # show_nat (?f 16) @ CHR ''.'' # show_nat (?f 8) @
      CHR ''.'' # show_nat (?f 0)"
    by (simp add: string4_def s top [symmetric])
  have "find (\<lambda>c. c = CHR ''.'' \<or> c = CHR '':'' \<or> c = CHR ''%'') (string4 a) = Some (CHR ''.'')"
  proof -
    have "\<not> is_digit CHR ''.''" "\<not> is_digit CHR '':''" "\<not> is_digit CHR ''%''" by code_simp+
    then have "find (\<lambda>c. c = CHR ''.'' \<or> c = CHR '':'' \<or> c = CHR ''%'') (show_nat n @ CHR ''.'' # r) = Some (CHR ''.'')" for n r
      using digits_are_digits [of _ n] by (intro find_first) auto
    then show ?thesis by (simp add: str)
  qed
  then have "ParseAddr (string4 a) = parseIPv4 (string4 a)" by (simp add: ParseAddr_def)
  also have "\<dots> = Some (V4 (of_int (((int (?f 24) * 256 + int (?f 16)) * 256 + int (?f 8)) * 256 + int (?f 0))))"
    unfolding parseIPv4_def str parse_string4_fields [OF bound bound bound bound] by simp
  also have "\<dots> = Some (V4 a)" using bytes_of_word [of a] by (simp add: top [symmetric])
  finally show ?thesis .
qed

end
