(* ===== verification/Cache.thy ===== *)
theory Cache
  imports Prelude
begin

text \<open>
  \<^verbatim>\<open>internal/cache/redis.go\<close>: the methods of \<^verbatim>\<open>cache.Client\<close> over a go-redis client.

  Redis and go-redis are not part of the repository: they are the parameter \<open>R\<close> of type
  \<open>'w redis\<close>, a server that executes commands on a world \<open>'w\<close> and a connection over which an
  atomic server-side program (one command, a script, a transaction) is run and its reply
  delivered, or fails. The locale \<open>redis_service\<close> states what the code relies on: the
  documented effect of each command on the keyspace, and that a failed round trip left the
  program either not run or run once. The commands of one operation are instantaneous on the
  clock; time passes between operations (\<open>elapses\<close>).
\<close>

section \<open>The Redis client as a parameter\<close>

datatype rcmd =
    GET string
  | SET string string Duration
  | DEL string
  | GETDEL string
  | INCR string
  | PEXPIRE string int
  | PExpire string Duration
  | TTL string
  | SADD string string
  | SMEMBERS string

datatype reply = RStr string | RInt int | RArr "string list" | ROk | RNilReply | RErr string

record 'w redis =
  rd_serve :: "rcmd \<Rightarrow> 'w \<Rightarrow> reply \<times> 'w"
  rd_call :: "('w \<Rightarrow> reply \<times> 'w) \<Rightarrow> 'w \<Rightarrow> reply res \<times> 'w"

text \<open>The typed results of go-redis: a nil reply is \<^verbatim>\<open>redis.Nil\<close>, an error reply an error.\<close>

fun reply_string :: "reply res \<Rightarrow> string res" where
  "reply_string (Inl e) = Inl e"
| "reply_string (Inr (RStr v)) = Inr v"
| "reply_string (Inr RNilReply) = Inl (Leaf RedisNil)"
| "reply_string (Inr (RErr m)) = Inl (Leaf (OtherErr m))"
| "reply_string (Inr r) = Inl (Leaf (OtherErr ''redis: unexpected reply''))"

fun reply_int :: "reply res \<Rightarrow> int res" where
  "reply_int (Inl e) = Inl e"
| "reply_int (Inr (RInt n)) = Inr n"
| "reply_int (Inr (RErr m)) = Inl (Leaf (OtherErr m))"
| "reply_int (Inr r) = Inl (Leaf (OtherErr ''redis: unexpected reply''))"

fun reply_strings :: "reply res \<Rightarrow> string list res" where
  "reply_strings (Inl e) = Inl e"
| "reply_strings (Inr (RArr vs)) = Inr vs"
| "reply_strings (Inr (RErr m)) = Inl (Leaf (OtherErr m))"
| "reply_strings (Inr r) = Inl (Leaf (OtherErr ''redis: unexpected reply''))"

fun reply_err :: "reply res \<Rightarrow> unit res" where
  "reply_err (Inl e) = Inl e"
| "reply_err (Inr (RErr m)) = Inl (Leaf (OtherErr m))"
| "reply_err (Inr r) = Inr ()"

definition rdb_do :: "'w redis \<Rightarrow> rcmd \<Rightarrow> 'w \<Rightarrow> reply res \<times> 'w" where
  "rdb_do R c w = rd_call R (rd_serve R c) w"

section \<open>The methods of cache.Client\<close>

definition IsMiss :: "goerr \<Rightarrow> bool" where
  "IsMiss err = errors_is err RedisNil"

definition Client_Set :: "'w redis \<Rightarrow> string \<Rightarrow> string \<Rightarrow> Duration \<Rightarrow> ('w, unit) act" where
  "Client_Set R key value ttl w =
     (case rdb_do R (SET key value ttl) w of (x, w1) \<Rightarrow>
       (case reply_err x of
          Inl err \<Rightarrow> (Inl (Wrapf ''cache: set %q: %w'' [err]), w1)
        | Inr _ \<Rightarrow> (Inr (), w1)))"

definition Client_Get :: "'w redis \<Rightarrow> string \<Rightarrow> ('w, string) act" where
  "Client_Get R key w =
     (case rdb_do R (GET key) w of (x, w1) \<Rightarrow>
       (case reply_string x of
          Inl err \<Rightarrow> (if IsMiss err then (Inl err, w1)
                      else (Inl (Wrapf ''cache: get %q: %w'' [err]), w1))
        | Inr v \<Rightarrow> (Inr v, w1)))"

definition Client_Del :: "'w redis \<Rightarrow> string \<Rightarrow> ('w, unit) act" where
  "Client_Del R key w =
     (case rdb_do R (DEL key) w of (x, w1) \<Rightarrow>
       (case reply_err x of
          Inl err \<Rightarrow> (Inl (Wrapf ''cache: del %q: %w'' [err]), w1)
        | Inr _ \<Rightarrow> (Inr (), w1)))"

definition Client_GetDel :: "'w redis \<Rightarrow> string \<Rightarrow> ('w, string) act" where
  "Client_GetDel R key w =
     (case rdb_do R (GETDEL key) w of (x, w1) \<Rightarrow>
       (case reply_string x of
          Inl err \<Rightarrow> (if IsMiss err then (Inl err, w1)
                      else (Inl (Wrapf ''cache: getdel %q: %w'' [err]), w1))
        | Inr v \<Rightarrow> (Inr v, w1)))"

text \<open>
  The Lua script: both calls run inside the server, with nothing in between; an error of
  \<^verbatim>\<open>redis.call\<close> ends the script with that error.
\<close>

definition incrWindowScript :: "'w redis \<Rightarrow> string \<Rightarrow> int \<Rightarrow> 'w \<Rightarrow> reply \<times> 'w" where
  "incrWindowScript R key ms w =
     (case rd_serve R (INCR key) w of
        (RErr m, w1) \<Rightarrow> (RErr m, w1)
      | (v, w1) \<Rightarrow>
          (if v = RInt 1
           then (case rd_serve R (PEXPIRE key ms) w1 of
                   (RErr m, w2) \<Rightarrow> (RErr m, w2)
                 | (_, w2) \<Rightarrow> (v, w2))
           else (v, w1)))"

definition duration_Milliseconds :: "Duration \<Rightarrow> int" where
  "duration_Milliseconds d = go_quot d Millisecond"

definition Client_Incr :: "'w redis \<Rightarrow> string \<Rightarrow> Duration \<Rightarrow> ('w, int) act" where
  "Client_Incr R key ttl w =
     (if ttl \<le> 0
      then (case rdb_do R (INCR key) w of (x, w1) \<Rightarrow>
             (case reply_int x of
                Inl err \<Rightarrow> (Inl (Wrapf ''cache: incr %q: %w'' [err]), w1)
              | Inr n \<Rightarrow> (Inr n, w1)))
      else (case rd_call R (incrWindowScript R key (duration_Milliseconds ttl)) w of (x, w1) \<Rightarrow>
             (case reply_int x of
                Inl err \<Rightarrow> (Inl (Wrapf ''cache: incr %q: %w'' [err]), w1)
              | Inr n \<Rightarrow> (Inr n, w1))))"

definition Client_TTL :: "'w redis \<Rightarrow> string \<Rightarrow> ('w, Duration) act" where
  "Client_TTL R key w =
     (case rdb_do R (TTL key) w of (x, w1) \<Rightarrow>
       (case reply_int x of
          Inl err \<Rightarrow> (Inl (Wrapf ''cache: ttl %q: %w'' [err]), w1)
        | Inr d \<Rightarrow> (if d < 0 then (Inr 0, w1) else (Inr d, w1))))"

text \<open>
  \<^verbatim>\<open>TxPipelined\<close> sends the queued commands as one \<^verbatim>\<open>MULTI\<close>/\<^verbatim>\<open>EXEC\<close> transaction; its error is
  that of the first command that failed.
\<close>

definition sadd_tx :: "'w redis \<Rightarrow> string \<Rightarrow> string \<Rightarrow> Duration \<Rightarrow> 'w \<Rightarrow> reply \<times> 'w" where
  "sadd_tx R key member ttl w =
     (case rd_serve R (SADD key member) w of (r1, w1) \<Rightarrow>
       (if ttl > 0
        then (case rd_serve R (PExpire key ttl) w1 of (r2, w2) \<Rightarrow>
               (case r1 of RErr m \<Rightarrow> (r1, w2) | _ \<Rightarrow> (r2, w2)))
        else (r1, w1)))"

definition Client_SAdd :: "'w redis \<Rightarrow> string \<Rightarrow> string \<Rightarrow> Duration \<Rightarrow> ('w, unit) act" where
  "Client_SAdd R key member ttl w =
     (case rd_call R (sadd_tx R key member ttl) w of (x, w1) \<Rightarrow>
       (case reply_err x of
          Inl err \<Rightarrow> (Inl (Wrapf ''cache: sadd %q: %w'' [err]), w1)
        | Inr _ \<Rightarrow> (Inr (), w1)))"

definition Client_SMembers :: "'w redis \<Rightarrow> string \<Rightarrow> ('w, string list) act" where
  "Client_SMembers R key w =
     (case rdb_do R (SMEMBERS key) w of (x, w1) \<Rightarrow>
       (case reply_strings x of
          Inl err \<Rightarrow> (Inl (Wrapf ''cache: smembers %q: %w'' [err]), w1)
        | Inr ms \<Rightarrow> (Inr ms, w1)))"

section \<open>What Redis documents\<close>

text \<open>
  A keyspace maps each live key to its value and its deadline, if it has one. \<open>VCtr\<close> is an
  integer-encoded string, as \<^verbatim>\<open>INCR\<close> leaves it.
\<close>

datatype rval = VStr string | VCtr int | VSet "string list"

type_synonym rentry = "rval \<times> Time option"
type_synonym keyspace = "string \<Rightarrow> rentry option"

text \<open>go-redis sends an expiry in whole milliseconds, and a shorter positive one as 1 ms.\<close>

definition px :: "Duration \<Rightarrow> Duration" where
  "px d = (if d < Millisecond then Millisecond else d - d mod Millisecond)"

lemma px_pos: "0 < d \<Longrightarrow> 0 < px d"
  by (auto simp: px_def)

lemma px_le: "Millisecond \<le> d \<Longrightarrow> px d \<le> d"
  by (simp add: px_def)

lemma px_less: "0 < d \<Longrightarrow> px d < d + Millisecond"
  by (auto simp: px_def)

lemma px_ms:
  assumes "0 < d"
  shows "px d div Millisecond * Millisecond = px d" and "0 < px d div Millisecond"
proof -
  show "px d div Millisecond * Millisecond = px d"
    by (simp add: px_def minus_mod_eq_div_mult)
  with px_pos [OF assms] show "0 < px d div Millisecond"
    by (simp add: zero_less_mult_iff [of _ Millisecond, symmetric] del: zero_less_mult_iff)
qed

lemma px_whole: "0 < d \<Longrightarrow> Millisecond dvd d \<Longrightarrow> px d = d"
  by (auto simp: px_def dest: zdvd_imp_le)

definition expire_at :: "Time \<Rightarrow> int \<Rightarrow> string \<Rightarrow> keyspace \<Rightarrow> keyspace" where
  "expire_at t ms k ks =
     (case ks k of
        None \<Rightarrow> ks
      | Some (v, _) \<Rightarrow>
          if ms \<le> 0 then ks(k := None) else ks(k \<mapsto> (v, Some (t + ms * Millisecond))))"

lemma expire_at_other [simp]: "k' \<noteq> k \<Longrightarrow> expire_at t ms k ks k' = ks k'"
  by (simp add: expire_at_def split: option.splits)

text \<open>
  \<open>redis_doc c t ks r ks'\<close>: executed at instant \<open>t\<close> on the keyspace \<open>ks\<close>, the command may
  reply \<open>r\<close> and leave \<open>ks'\<close>. An error reply leaves the keyspace as it was. The order of
  \<^verbatim>\<open>SMEMBERS\<close> and the rounding of \<^verbatim>\<open>TTL\<close> are left open.
\<close>

fun redis_ok :: "rcmd \<Rightarrow> Time \<Rightarrow> keyspace \<Rightarrow> reply \<Rightarrow> keyspace \<Rightarrow> bool" where
  "redis_ok (GET k) t ks r ks' =
     (ks' = ks \<and> (case ks k of
        None \<Rightarrow> r = RNilReply
      | Some (VStr v, _) \<Rightarrow> r = RStr v
      | Some (VCtr n, _) \<Rightarrow> r = RStr (show_int n)
      | Some (VSet _, _) \<Rightarrow> False))"
| "redis_ok (SET k v d) t ks r ks' =
     (r = ROk \<and> (\<forall>k'. k' \<noteq> k \<longrightarrow> ks' k' = ks k') \<and>
      (0 < d \<longrightarrow> ks' k = Some (VStr v, Some (t + px d))))"
| "redis_ok (DEL k) t ks r ks' = ((\<exists>n. r = RInt n) \<and> ks' = ks(k := None))"
| "redis_ok (GETDEL k) t ks r ks' =
     (ks' = ks(k := None) \<and> (case ks k of
        None \<Rightarrow> r = RNilReply
      | Some (VStr v, _) \<Rightarrow> r = RStr v
      | Some (VCtr n, _) \<Rightarrow> r = RStr (show_int n)
      | Some (VSet _, _) \<Rightarrow> False))"
| "redis_ok (INCR k) t ks r ks' =
     ((\<exists>n. r = RInt n) \<and> (\<forall>k'. k' \<noteq> k \<longrightarrow> ks' k' = ks k') \<and>
      (case ks k of
        None \<Rightarrow> r = RInt 1 \<and> ks' k = Some (VCtr 1, None)
      | Some (VCtr n, d) \<Rightarrow> n + 1 < 2 ^ 63 \<and> r = RInt (n + 1) \<and> ks' k = Some (VCtr (n + 1), d)
      | Some (VStr _, _) \<Rightarrow> True
      | Some (VSet _, _) \<Rightarrow> False))"
| "redis_ok (PEXPIRE k ms) t ks r ks' = ((\<exists>n. r = RInt n) \<and> ks' = expire_at t ms k ks)"
| "redis_ok (PExpire k d) t ks r ks' =
     ((\<exists>n. r = RInt n) \<and> (0 < d \<longrightarrow> ks' = expire_at t (px d div Millisecond) k ks) \<and>
      (\<forall>k'. k' \<noteq> k \<longrightarrow> ks' k' = ks k'))"
| "redis_ok (TTL k) t ks r ks' =
     (ks' = ks \<and> (\<exists>d. r = RInt d \<and> (case ks k of
        None \<Rightarrow> d = -2
      | Some (_, None) \<Rightarrow> d = -1
      | Some (_, Some dl) \<Rightarrow> 0 \<le> d \<and> d \<le> dl - t + Second)))"
| "redis_ok (SADD k m) t ks r ks' =
     ((\<exists>n. r = RInt n) \<and> (case ks k of
        None \<Rightarrow> ks' = ks(k \<mapsto> (VSet [m], None))
      | Some (VSet ms, d) \<Rightarrow> ks' = ks(k \<mapsto> (VSet (List.insert m ms), d))
      | Some _ \<Rightarrow> False))"
| "redis_ok (SMEMBERS k) t ks r ks' =
     (ks' = ks \<and> (\<exists>vs. r = RArr vs \<and> (case ks k of
        None \<Rightarrow> vs = []
      | Some (VSet ms, _) \<Rightarrow> set vs = set ms
      | Some _ \<Rightarrow> False)))"

definition redis_doc :: "rcmd \<Rightarrow> Time \<Rightarrow> keyspace \<Rightarrow> reply \<Rightarrow> keyspace \<Rightarrow> bool" where
  "redis_doc c t ks r ks' \<longleftrightarrow>
     (case r of RErr m \<Rightarrow> ks' = ks | _ \<Rightarrow> redis_ok c t ks r ks')"

text \<open>Every command touches the one key it names.\<close>

fun rcmd_key :: "rcmd \<Rightarrow> string" where
  "rcmd_key (GET k) = k"
| "rcmd_key (SET k v d) = k"
| "rcmd_key (DEL k) = k"
| "rcmd_key (GETDEL k) = k"
| "rcmd_key (INCR k) = k"
| "rcmd_key (PEXPIRE k ms) = k"
| "rcmd_key (PExpire k d) = k"
| "rcmd_key (TTL k) = k"
| "rcmd_key (SADD k m) = k"
| "rcmd_key (SMEMBERS k) = k"

lemma redis_ok_other:
  assumes "redis_ok c t ks r ks'" "k' \<noteq> rcmd_key c"
  shows "ks' k' = ks k'"
proof (cases c)
  case (SADD k m)
  consider "ks k = None" | v d where "ks k = Some (v, d)" by fastforce
  then show ?thesis
  proof cases
    case (2 v d)
    with SADD assms show ?thesis by (cases v) auto
  qed (use SADD assms in auto)
qed (use assms in \<open>auto simp: expire_at_def split: option.splits\<close>)

lemma redis_doc_cases: "redis_doc c t ks r ks' \<Longrightarrow> ks' = ks \<or> redis_ok c t ks r ks'"
  by (cases r) (auto simp: redis_doc_def)

locale redis_service =
  fixes R :: "'w redis" and now :: "'w \<Rightarrow> Time" and kv :: "'w \<Rightarrow> keyspace"
  assumes serve_now: "rd_serve R c w = (r, w') \<Longrightarrow> now w' = now w"
    and serve_doc: "rd_serve R c w = (r, w') \<Longrightarrow> redis_doc c (now w) (kv w) r (kv w')"
    and call_ok: "rd_call R f w = (Inr r, w') \<Longrightarrow>
        \<exists>w1. f w = (r, w1) \<and> now w' = now w1 \<and> kv w' = kv w1"
    and call_err: "rd_call R f w = (Inl e, w') \<Longrightarrow> \<not> errors_is e RedisNil \<and>
        (now w' = now w \<and> kv w' = kv w \<or>
         (\<exists>r w1. f w = (r, w1) \<and> now w' = now w1 \<and> kv w' = kv w1))"
    and live: "kv w k = Some (v, Some d) \<Longrightarrow> now w < d"
begin

lemma serve_ok:
  "rd_serve R c w = (r, w') \<Longrightarrow> \<forall>m. r \<noteq> RErr m \<Longrightarrow> redis_ok c (now w) (kv w) r (kv w')"
  using serve_doc [of c w r w'] by (cases r) (auto simp: redis_doc_def)

lemma serve_RErr: "rd_serve R c w = (RErr m, w') \<Longrightarrow> kv w' = kv w"
  using serve_doc [of c w "RErr m" w'] by (simp add: redis_doc_def)

lemma do_ok:
  "rdb_do R c w = (Inr r, w') \<Longrightarrow> now w' = now w \<and> redis_doc c (now w) (kv w) r (kv w')"
  using call_ok serve_now serve_doc unfolding rdb_do_def by metis

lemma do_err:
  "rdb_do R c w = (Inl e, w') \<Longrightarrow> now w' = now w \<and> \<not> errors_is e RedisNil \<and>
     (kv w' = kv w \<or> (\<exists>r. redis_doc c (now w) (kv w) r (kv w')))"
  using call_err serve_now serve_doc unfolding rdb_do_def by metis

text \<open>What a command leaves when its result is an error, and what when it is a value.\<close>

lemma do_reply:
  assumes "rdb_do R c w = (x, w')"
  shows "now w' = now w"
    and "x = Inr r \<Longrightarrow> \<forall>m. r \<noteq> RErr m \<Longrightarrow> redis_ok c (now w) (kv w) r (kv w')"
    and "x = Inr (RErr m) \<Longrightarrow> kv w' = kv w"
    and "x = Inl e \<Longrightarrow> \<not> errors_is e RedisNil"
    and "x = Inl e \<Longrightarrow> kv w' = kv w \<or> (\<exists>r. redis_ok c (now w) (kv w) r (kv w'))"
proof -
  show "now w' = now w"
    using assms do_ok do_err by (cases x) blast+
  show "redis_ok c (now w) (kv w) r (kv w')" if "x = Inr r" "\<forall>m. r \<noteq> RErr m"
    using do_ok [OF assms [unfolded that(1)]] that(2) by (cases r) (auto simp: redis_doc_def)
  show "kv w' = kv w" if "x = Inr (RErr m)"
    using do_ok [OF assms [unfolded that(1)]] by (simp add: redis_doc_def)
  show "\<not> errors_is e RedisNil" if "x = Inl e"
    using do_err [OF assms [unfolded that(1)]] by blast
  show "kv w' = kv w \<or> (\<exists>r. redis_ok c (now w) (kv w) r (kv w'))" if "x = Inl e"
    using do_err [OF assms [unfolded that(1)]] redis_doc_cases by blast
qed

lemma do_effect:
  "rdb_do R c w = (x, w') \<Longrightarrow> kv w' = kv w \<or> (\<exists>r. redis_ok c (now w) (kv w) r (kv w'))"
  using do_ok [of c w _ w'] do_err [of c w _ w'] redis_doc_cases by (cases x) blast+

lemma do_readonly:
  "rdb_do R (GET k) w = (x, w') \<Longrightarrow> now w' = now w \<and> kv w' = kv w"
  "rdb_do R (TTL k) w = (x, w') \<Longrightarrow> now w' = now w \<and> kv w' = kv w"
  "rdb_do R (SMEMBERS k) w = (x, w') \<Longrightarrow> now w' = now w \<and> kv w' = kv w"
  using do_reply(1) do_effect by fastforce+

lemma serve_other:
  "rd_serve R c w = (r, w') \<Longrightarrow> k' \<noteq> rcmd_key c \<Longrightarrow> kv w' k' = kv w k'"
  using redis_doc_cases [OF serve_doc] redis_ok_other by metis

lemma do_other:
  "rdb_do R c w = (x, w') \<Longrightarrow> k' \<noteq> rcmd_key c \<Longrightarrow> kv w' k' = kv w k'"
  using do_effect redis_ok_other by metis

lemma Client_Set_now: "Client_Set R k v ttl w = (x, w') \<Longrightarrow> now w' = now w"
  by (auto simp: Client_Set_def split: prod.splits sum.splits dest: do_reply)

lemma Client_Set_ok:
  assumes "Client_Set R k v ttl w = (Inr u, w')" "0 < ttl"
  shows "kv w' = (kv w)(k \<mapsto> (VStr v, Some (now w + px ttl)))"
proof -
  obtain r where r: "rdb_do R (SET k v ttl) w = (Inr r, w')" "\<forall>m. r \<noteq> RErr m"
    using assms(1) by (auto simp: Client_Set_def split: prod.splits sum.splits elim!: reply_err.elims)
  show ?thesis
    using do_reply(2) [OF r(1) refl r(2)] assms(2) by (auto simp: fun_eq_iff)
qed

lemma Client_Set_err:
  assumes "Client_Set R k v ttl w = (Inl e, w')" "0 < ttl"
  shows "kv w' = kv w \<or> kv w' = (kv w)(k \<mapsto> (VStr v, Some (now w + px ttl)))"
  using assms by (auto simp: Client_Set_def fun_eq_iff split: prod.splits sum.splits dest!: do_effect)

lemma Client_Get_frame: "Client_Get R k w = (x, w') \<Longrightarrow> now w' = now w \<and> kv w' = kv w"
  by (auto simp: Client_Get_def split: prod.splits sum.splits if_splits dest: do_readonly)

lemma Client_Get_ok:
  assumes "Client_Get R k w = (Inr v, w')"
  shows "\<exists>c d. kv w k = Some (c, d) \<and> (c = VStr v \<or> (\<exists>n. c = VCtr n \<and> v = show_int n))"
proof -
  have r: "rdb_do R (GET k) w = (Inr (RStr v), w')"
    using assms by (auto simp: Client_Get_def split: prod.splits sum.splits if_splits
        elim!: reply_string.elims)
  show ?thesis
    using do_reply(2) [OF r refl] by (auto split: option.splits prod.splits rval.splits)
qed

lemma Client_Get_miss:
  assumes "Client_Get R k w = (Inl e, w')" "IsMiss e"
  shows "kv w k = None"
proof -
  have r: "rdb_do R (GET k) w = (Inr RNilReply, w')"
    using assms do_reply(4) by (auto simp: Client_Get_def IsMiss_def
        split: prod.splits sum.splits if_splits elim!: reply_string.elims)
  show ?thesis
    using do_reply(2) [OF r refl] by (auto split: option.splits prod.splits rval.splits)
qed

lemma Client_Del_now: "Client_Del R k w = (x, w') \<Longrightarrow> now w' = now w"
  by (auto simp: Client_Del_def split: prod.splits sum.splits dest: do_reply)

lemma Client_Del_ok:
  assumes "Client_Del R k w = (Inr u, w')"
  shows "kv w' = (kv w)(k := None)"
proof -
  obtain r where r: "rdb_do R (DEL k) w = (Inr r, w')" "\<forall>m. r \<noteq> RErr m"
    using assms by (auto simp: Client_Del_def split: prod.splits sum.splits elim!: reply_err.elims)
  show ?thesis using do_reply(2) [OF r(1) refl r(2)] by simp
qed

lemma Client_Del_err:
  "Client_Del R k w = (Inl e, w') \<Longrightarrow> kv w' = kv w \<or> kv w' = (kv w)(k := None)"
  by (auto simp: Client_Del_def split: prod.splits sum.splits dest!: do_effect)

lemma Client_GetDel_ok:
  assumes "Client_GetDel R k w = (Inr v, w')"
  shows "\<exists>c d. kv w k = Some (c, d) \<and> (c = VStr v \<or> (\<exists>n. c = VCtr n \<and> v = show_int n))"
    and "kv w' = (kv w)(k := None)"
proof -
  have r: "rdb_do R (GETDEL k) w = (Inr (RStr v), w')"
    using assms by (auto simp: Client_GetDel_def split: prod.splits sum.splits if_splits
        elim!: reply_string.elims)
  show "\<exists>c d. kv w k = Some (c, d) \<and> (c = VStr v \<or> (\<exists>n. c = VCtr n \<and> v = show_int n))"
    and "kv w' = (kv w)(k := None)"
    using do_reply(2) [OF r refl] by (auto split: option.splits prod.splits rval.splits)
qed

lemma Client_GetDel_err:
  assumes "Client_GetDel R k w = (Inl e, w')"
  shows "kv w' = kv w \<or> kv w' = (kv w)(k := None)"
    and "IsMiss e \<Longrightarrow> kv w k = None \<and> kv w' = kv w"
proof -
  obtain x where x: "rdb_do R (GETDEL k) w = (x, w')"
    using assms by (auto simp: Client_GetDel_def split: prod.splits sum.splits if_splits)
  show "kv w' = kv w \<or> kv w' = (kv w)(k := None)"
    using do_effect [OF x] by auto
  show "kv w k = None \<and> kv w' = kv w" if "IsMiss e"
  proof -
    have "x = Inr RNilReply"
      using assms x that do_reply(4) [OF x]
      by (auto simp: Client_GetDel_def IsMiss_def split: sum.splits if_splits elim!: reply_string.elims)
    then show ?thesis
      using do_reply(2) [OF x] by (auto split: option.splits prod.splits rval.splits)
  qed
qed

lemma Client_GetDel_now: "Client_GetDel R k w = (x, w') \<Longrightarrow> now w' = now w"
  by (auto simp: Client_GetDel_def split: prod.splits sum.splits if_splits dest: do_reply)

lemma Client_TTL_frame: "Client_TTL R k w = (x, w') \<Longrightarrow> now w' = now w \<and> kv w' = kv w"
  by (auto simp: Client_TTL_def split: prod.splits sum.splits if_splits dest: do_readonly)

lemma Client_TTL_ok:
  assumes "Client_TTL R k w = (Inr d, w')"
  shows "0 \<le> d" and "kv w k = Some (v, Some dl) \<Longrightarrow> d \<le> dl - now w + Second"
proof -
  obtain i where i: "rdb_do R (TTL k) w = (Inr (RInt i), w')" "d = (if i < 0 then 0 else i)"
    using assms by (auto simp: Client_TTL_def split: prod.splits sum.splits if_splits
        elim!: reply_int.elims)
  show "0 \<le> d" using i(2) by simp
  show "d \<le> dl - now w + Second" if "kv w k = Some (v, Some dl)"
    using do_reply(2) [OF i(1) refl] i(2) that live [OF that] by auto
qed

lemma Client_SMembers_frame: "Client_SMembers R k w = (x, w') \<Longrightarrow> now w' = now w \<and> kv w' = kv w"
  by (auto simp: Client_SMembers_def split: prod.splits sum.splits if_splits dest: do_readonly)

lemma Client_SMembers_ok:
  assumes "Client_SMembers R k w = (Inr vs, w')"
  shows "kv w k = Some (VSet ms, d) \<Longrightarrow> set vs = set ms" and "kv w k = None \<Longrightarrow> vs = []"
proof -
  have r: "rdb_do R (SMEMBERS k) w = (Inr (RArr vs), w')"
    using assms by (auto simp: Client_SMembers_def split: prod.splits sum.splits
        elim!: reply_strings.elims)
  show "set vs = set ms" if "kv w k = Some (VSet ms, d)"
    using do_reply(2) [OF r refl] that by auto
  show "vs = []" if "kv w k = None"
    using do_reply(2) [OF r refl] that by auto
qed

text \<open>The programs run inside the server: the window script and the indexing transaction.\<close>

lemma call_effect:
  "rd_call R f w = (x, w') \<Longrightarrow> now w' = now w \<and> kv w' = kv w \<or>
     (\<exists>r w1. f w = (r, w1) \<and> now w' = now w1 \<and> kv w' = kv w1)"
  using call_ok [of f w _ w'] call_err [of f w _ w'] by (cases x) blast+

lemma incrWindowScript_frame:
  assumes "incrWindowScript R k ms w = (r, w')"
  shows "now w' = now w" and "k' \<noteq> k \<Longrightarrow> kv w' k' = kv w k'"
proof -
  obtain v w1 where v: "rd_serve R (INCR k) w = (v, w1)" by fastforce
  obtain u w2 where u: "rd_serve R (PEXPIRE k ms) w1 = (u, w2)" by fastforce
  have w': "w' = w1 \<or> w' = w2"
    using assms v u by (auto simp: incrWindowScript_def split: prod.splits reply.splits if_splits)
  show "now w' = now w"
    using w' serve_now [OF v] serve_now [OF u] by auto
  show "kv w' k' = kv w k'" if "k' \<noteq> k"
    using w' serve_other [OF v] serve_other [OF u] that by auto
qed

lemma incrWindowScript_fresh:
  assumes "incrWindowScript R k ms w = (RInt n, w')" "kv w k = None"
  shows "n = 1"
    and "kv w' k = (if ms \<le> 0 then None else Some (VCtr 1, Some (now w + ms * Millisecond)))"
proof -
  obtain v w1 where v: "rd_serve R (INCR k) w = (v, w1)" by fastforce
  have nv: "\<forall>m. v \<noteq> RErr m"
    using assms(1) v by (auto simp: incrWindowScript_def)
  then have v1: "v = RInt 1" and w1: "kv w1 k = Some (VCtr 1, None)"
    using serve_ok [OF v nv] assms(2) by auto
  obtain u w2 where u: "rd_serve R (PEXPIRE k ms) w1 = (u, w2)" by fastforce
  have nu: "\<forall>m. u \<noteq> RErr m" and w': "w' = w2" and "n = 1"
    using assms(1) v v1 u by (auto simp: incrWindowScript_def split: reply.splits)
  then show "n = 1" by simp
  show "kv w' k = (if ms \<le> 0 then None else Some (VCtr 1, Some (now w + ms * Millisecond)))"
    using serve_ok [OF u nu] w1 serve_now [OF v] w' by (auto simp: expire_at_def)
qed

lemma incrWindowScript_next:
  assumes "incrWindowScript R k ms w = (RInt n, w')" "kv w k = Some (VCtr m, d)" "1 \<le> m"
  shows "n = m + 1" and "kv w' k = Some (VCtr (m + 1), d)"
proof -
  obtain v w1 where v: "rd_serve R (INCR k) w = (v, w1)" by fastforce
  have nv: "\<forall>m. v \<noteq> RErr m"
    using assms(1) v by (auto simp: incrWindowScript_def)
  then have "v = RInt (m + 1)" and "kv w1 k = Some (VCtr (m + 1), d)"
    using serve_ok [OF v nv] assms(2) by auto
  then show "n = m + 1" and "kv w' k = Some (VCtr (m + 1), d)"
    using assms(1,3) v by (auto simp: incrWindowScript_def)
qed

lemma Client_Incr_frame:
  assumes "Client_Incr R k ttl w = (x, w')"
  shows "now w' = now w" and "k' \<noteq> k \<Longrightarrow> kv w' k' = kv w k'"
proof -
  obtain y where y: "(if ttl \<le> 0 then rdb_do R (INCR k) w
      else rd_call R (incrWindowScript R k (duration_Milliseconds ttl)) w) = (y, w')"
    using assms by (auto simp: Client_Incr_def split: prod.splits sum.splits if_splits)
  show "now w' = now w"
    using y call_effect [of _ w y w'] incrWindowScript_frame(1) do_reply(1)
    by (metis (full_types))
  show "kv w' k' = kv w k'" if "k' \<noteq> k"
    using y call_effect [of _ w y w'] incrWindowScript_frame(2) [OF _ that] that
      do_other [of "INCR k" w y w' k'] by (auto split: if_splits) metis+
qed

lemma Client_Incr_call:
  assumes "Client_Incr R k ttl w = (Inr n, w')" "0 < ttl"
  obtains w1 where "incrWindowScript R k (duration_Milliseconds ttl) w = (RInt n, w1)"
    and "kv w' = kv w1"
proof -
  have "rd_call R (incrWindowScript R k (duration_Milliseconds ttl)) w = (Inr (RInt n), w')"
    using assms by (auto simp: Client_Incr_def split: prod.splits sum.splits elim!: reply_int.elims)
  then show ?thesis using call_ok that by metis
qed

lemma Client_Incr_fresh:
  assumes "Client_Incr R k ttl w = (Inr n, w')" "0 < ttl" "kv w k = None"
  shows "n = 1" and "Millisecond \<le> ttl \<Longrightarrow> kv w' k = Some (VCtr 1, Some (now w + px ttl))"
    and "ttl < Millisecond \<Longrightarrow> kv w' k = None"
proof -
  obtain w1 where w1: "incrWindowScript R k (duration_Milliseconds ttl) w = (RInt n, w1)"
      "kv w' = kv w1"
    using Client_Incr_call [OF assms(1,2)] .
  have ms: "duration_Milliseconds ttl = ttl div Millisecond"
    using assms(2) by (simp add: duration_Milliseconds_def go_quot_nonneg)
  note fresh = incrWindowScript_fresh [OF w1(1) assms(3)]
  show "n = 1" by (rule fresh)
  show "kv w' k = Some (VCtr 1, Some (now w + px ttl))" if "Millisecond \<le> ttl"
  proof -
    have "ttl div Millisecond * Millisecond = px ttl"
      using that by (simp add: px_def minus_mod_eq_div_mult [symmetric])
    moreover have "\<not> ttl div Millisecond \<le> 0"
      using that by (simp add: pos_imp_zdiv_pos_iff not_le)
    ultimately show ?thesis using fresh(2) ms w1(2) by simp
  qed
  show "kv w' k = None" if "ttl < Millisecond"
    using fresh(2) ms w1(2) that assms(2) by simp
qed

lemma Client_Incr_next:
  assumes "Client_Incr R k ttl w = (Inr n, w')" "0 < ttl" "kv w k = Some (VCtr m, d)" "1 \<le> m"
  shows "n = m + 1" and "kv w' k = Some (VCtr (m + 1), d)"
  using Client_Incr_call [OF assms(1,2)] incrWindowScript_next [OF _ assms(3,4)] by metis+

lemma sadd_tx_frame:
  assumes "sadd_tx R k m ttl w = (r, w')"
  shows "now w' = now w" and "k' \<noteq> k \<Longrightarrow> kv w' k' = kv w k'"
proof -
  obtain v w1 where v: "rd_serve R (SADD k m) w = (v, w1)" by fastforce
  obtain u w2 where u: "rd_serve R (PExpire k ttl) w1 = (u, w2)" by fastforce
  have w': "w' = w1 \<or> w' = w2"
    using assms v u by (auto simp: sadd_tx_def split: reply.splits if_splits)
  show "now w' = now w"
    using w' serve_now [OF v] serve_now [OF u] by auto
  show "kv w' k' = kv w k'" if "k' \<noteq> k"
    using w' serve_other [OF v] serve_other [OF u] that by auto
qed

lemma sadd_tx_grows:
  assumes "sadd_tx R k m ttl w = (r, w')" "0 < ttl"
    and "kv w k = None \<and> ms = [] \<or> kv w k = Some (VSet ms, d)"
  shows "kv w' k = kv w k \<or> (\<exists>ms' d'. kv w' k = Some (VSet ms', d') \<and> set ms \<subseteq> set ms' \<and>
      set ms' \<subseteq> insert m (set ms) \<and>
      (kv w k = Some (VSet ms, d) \<longrightarrow> d' = d \<or> d' = Some (now w + px ttl)))"
proof -
  obtain v w1 where v: "rd_serve R (SADD k m) w = (v, w1)" by fastforce
  obtain u w2 where u: "rd_serve R (PExpire k ttl) w1 = (u, w2)" by fastforce
  have w': "w' = w2"
    using assms v u by (auto simp: sadd_tx_def split: reply.splits)
  note 1 = redis_doc_cases [OF serve_doc [OF v]]
  note 2 = redis_doc_cases [OF serve_doc [OF u]]
  note ms = px_ms [OF assms(2)]
  show ?thesis
    using 1 2 assms(2,3) w' ms serve_now [OF v]
    by (auto simp: expire_at_def) (metis List.set_insert order_refl subset_insertI)+
qed

lemma sadd_tx_ok:
  assumes "sadd_tx R k m ttl w = (r, w')" "0 < ttl" "\<forall>e. r \<noteq> RErr e"
    and "kv w k = None \<and> ms = [] \<or> kv w k = Some (VSet ms, d)"
  shows "kv w' k = Some (VSet (List.insert m ms), Some (now w + px ttl))"
proof -
  obtain v w1 where v: "rd_serve R (SADD k m) w = (v, w1)" by fastforce
  obtain u w2 where u: "rd_serve R (PExpire k ttl) w1 = (u, w2)" by fastforce
  have w': "w' = w2" and nv: "\<forall>e. v \<noteq> RErr e" and nu: "\<forall>e. u \<noteq> RErr e"
    using assms(1-3) v u by (auto simp: sadd_tx_def split: reply.splits)
  have 1: "\<exists>d. kv w1 k = Some (VSet (List.insert m ms), d)"
    using serve_ok [OF v nv] assms(4) by auto
  note ms = px_ms [OF assms(2)]
  show ?thesis
    using serve_ok [OF u nu] 1 assms(2) w' ms serve_now [OF v] by (auto simp: expire_at_def)
qed

lemma Client_SAdd_call:
  "Client_SAdd R k m ttl w = (x, w') \<Longrightarrow> \<exists>y. rd_call R (sadd_tx R k m ttl) w = (y, w')"
  by (auto simp: Client_SAdd_def split: prod.splits sum.splits)

lemma Client_SAdd_frame:
  assumes "Client_SAdd R k m ttl w = (x, w')"
  shows "now w' = now w" and "k' \<noteq> k \<Longrightarrow> kv w' k' = kv w k'"
  using Client_SAdd_call [OF assms] call_effect [of _ w _ w'] sadd_tx_frame by metis+

lemma Client_SAdd_grows:
  assumes "Client_SAdd R k m ttl w = (x, w')" "0 < ttl"
    and "kv w k = None \<and> ms = [] \<or> kv w k = Some (VSet ms, d)"
  shows "kv w' k = kv w k \<or> (\<exists>ms' d'. kv w' k = Some (VSet ms', d') \<and> set ms \<subseteq> set ms' \<and>
      set ms' \<subseteq> insert m (set ms) \<and>
      (kv w k = Some (VSet ms, d) \<longrightarrow> d' = d \<or> d' = Some (now w + px ttl)))"
proof -
  obtain y where "rd_call R (sadd_tx R k m ttl) w = (y, w')"
    using Client_SAdd_call [OF assms(1)] by blast
  then consider "kv w' = kv w" | r w1 where "sadd_tx R k m ttl w = (r, w1)" "kv w' = kv w1"
    using call_effect by blast
  then show ?thesis
  proof cases
    case 2
    with sadd_tx_grows [OF 2(1) assms(2,3)] show ?thesis by simp
  qed simp
qed

lemma Client_SAdd_ok:
  assumes "Client_SAdd R k m ttl w = (Inr u, w')" "0 < ttl"
    and "kv w k = None \<and> ms = [] \<or> kv w k = Some (VSet ms, d)"
  shows "kv w' k = Some (VSet (List.insert m ms), Some (now w + px ttl))"
proof -
  obtain r where r: "rd_call R (sadd_tx R k m ttl) w = (Inr r, w')" "\<forall>e. r \<noteq> RErr e"
    using assms(1) by (auto simp: Client_SAdd_def split: prod.splits sum.splits elim!: reply_err.elims)
  obtain w1 where w1: "sadd_tx R k m ttl w = (r, w1)" "kv w' = kv w1"
    using call_ok [OF r(1)] by blast
  show ?thesis using sadd_tx_ok [OF w1(1) assms(2) r(2) assms(3)] w1(2) by simp
qed

end

section \<open>Time\<close>

text \<open>Between operations the clock moves on and the keys whose deadline it reaches are gone.\<close>

definition live_at :: "Time \<Rightarrow> keyspace \<Rightarrow> keyspace" where
  "live_at t ks k =
     (case ks k of
        Some (v, Some d) \<Rightarrow> if d \<le> t then None else Some (v, Some d)
      | e \<Rightarrow> e)"

definition elapses :: "('w \<Rightarrow> Time) \<Rightarrow> ('w \<Rightarrow> keyspace) \<Rightarrow> 'w \<Rightarrow> 'w \<Rightarrow> bool" where
  "elapses now kv w w' \<longleftrightarrow> now w \<le> now w' \<and> kv w' = live_at (now w') (kv w)"

lemma live_at_Some: "live_at t ks k = Some (v, d) \<longleftrightarrow> ks k = Some (v, d) \<and> (\<forall>dl. d = Some dl \<longrightarrow> t < dl)"
  by (auto simp: live_at_def split: option.splits if_splits)

lemma live_at_None: "ks k = None \<Longrightarrow> live_at t ks k = None"
  by (simp add: live_at_def)

section \<open>A server in memory\<close>

text \<open>
  The smallest server that satisfies the laws: a clock and a keyspace, each command executed
  as documented, no failing round trip. It shows that the hypotheses of the properties about
  Redis hold together, and it is what their witnesses run on.
\<close>

record mem =
  mem_now :: Time
  mem_keys :: keyspace

definition mem_kv :: "'a mem_scheme \<Rightarrow> keyspace" where
  "mem_kv w = live_at (mem_now w) (mem_keys w)"

fun mem_exec :: "rcmd \<Rightarrow> Time \<Rightarrow> keyspace \<Rightarrow> reply \<times> keyspace" where
  "mem_exec (GET k) t ks =
     (case ks k of
        None \<Rightarrow> (RNilReply, ks)
      | Some (VStr v, _) \<Rightarrow> (RStr v, ks)
      | Some (VCtr n, _) \<Rightarrow> (RStr (show_int n), ks)
      | Some (VSet _, _) \<Rightarrow> (RErr ''WRONGTYPE'', ks))"
| "mem_exec (SET k v d) t ks =
     (ROk, ks(k \<mapsto> (VStr v, if 0 < d then Some (t + px d) else None)))"
| "mem_exec (DEL k) t ks = (RInt (if ks k = None then 0 else 1), ks(k := None))"
| "mem_exec (GETDEL k) t ks =
     (case ks k of
        None \<Rightarrow> (RNilReply, ks(k := None))
      | Some (VStr v, _) \<Rightarrow> (RStr v, ks(k := None))
      | Some (VCtr n, _) \<Rightarrow> (RStr (show_int n), ks(k := None))
      | Some (VSet _, _) \<Rightarrow> (RErr ''WRONGTYPE'', ks))"
| "mem_exec (INCR k) t ks =
     (case ks k of
        None \<Rightarrow> (RInt 1, ks(k \<mapsto> (VCtr 1, None)))
      | Some (VCtr n, d) \<Rightarrow>
          if n + 1 < 2 ^ 63 then (RInt (n + 1), ks(k \<mapsto> (VCtr (n + 1), d)))
          else (RErr ''ERR increment or decrement would overflow'', ks)
      | Some _ \<Rightarrow> (RErr ''ERR value is not an integer or out of range'', ks))"
| "mem_exec (PEXPIRE k ms) t ks = (RInt (if ks k = None then 0 else 1), expire_at t ms k ks)"
| "mem_exec (PExpire k d) t ks =
     (RInt (if ks k = None then 0 else 1), expire_at t (px d div Millisecond) k ks)"
| "mem_exec (TTL k) t ks =
     (case ks k of
        None \<Rightarrow> (RInt (-2), ks)
      | Some (_, None) \<Rightarrow> (RInt (-1), ks)
      | Some (_, Some d) \<Rightarrow> (RInt (d - t), ks))"
| "mem_exec (SADD k m) t ks =
     (case ks k of
        None \<Rightarrow> (RInt 1, ks(k \<mapsto> (VSet [m], None)))
      | Some (VSet ms, d) \<Rightarrow>
          (RInt (if m \<in> set ms then 0 else 1), ks(k \<mapsto> (VSet (List.insert m ms), d)))
      | Some _ \<Rightarrow> (RErr ''WRONGTYPE'', ks))"
| "mem_exec (SMEMBERS k) t ks =
     (case ks k of
        None \<Rightarrow> (RArr [], ks)
      | Some (VSet ms, _) \<Rightarrow> (RArr ms, ks)
      | Some _ \<Rightarrow> (RErr ''WRONGTYPE'', ks))"

definition mem_redis :: "'a mem_scheme redis" where
  "mem_redis =
     \<lparr>rd_serve = (\<lambda>c w. case mem_exec c (mem_now w) (mem_kv w) of (r, ks) \<Rightarrow> (r, w\<lparr>mem_keys := ks\<rparr>)),
      rd_call = (\<lambda>f w. case f w of (r, w1) \<Rightarrow> (Inr r, w1))\<rparr>"

definition all_live :: "Time \<Rightarrow> keyspace \<Rightarrow> bool" where
  "all_live t ks \<longleftrightarrow> live_at t ks = ks"

lemma all_live_mem_kv: "all_live (mem_now w) (mem_kv w)"
  by (auto simp: all_live_def mem_kv_def live_at_def fun_eq_iff split: option.splits if_splits)

lemma all_live_upd:
  "all_live t ks \<Longrightarrow> (case e of Some (v, Some d) \<Rightarrow> t < d | _ \<Rightarrow> True) \<Longrightarrow> all_live t (ks(k := e))"
  by (auto simp: all_live_def live_at_def fun_eq_iff split: option.splits if_splits)

lemma all_live_Some: "all_live t ks \<Longrightarrow> ks k = Some (v, Some d) \<Longrightarrow> t < d"
  unfolding all_live_def by (metis live_at_Some)

lemma all_live_expire: "all_live t ks \<Longrightarrow> all_live t (expire_at t ms k ks)"
  by (auto simp: expire_at_def intro!: all_live_upd split: option.splits)

lemma mem_exec_live: "all_live t ks \<Longrightarrow> all_live t (snd (mem_exec c t ks))"
  by (cases c) (auto intro!: all_live_upd all_live_expire intro: px_pos all_live_Some
      split: option.splits prod.splits rval.splits)

lemma mem_exec_doc: "all_live t ks \<Longrightarrow> redis_doc c t ks (fst (mem_exec c t ks)) (snd (mem_exec c t ks))"
  by (cases c) (auto simp: redis_doc_def dest: all_live_Some
      split: option.splits prod.splits rval.splits reply.splits)

interpretation mem: redis_service mem_redis mem_now mem_kv
proof
  fix c :: rcmd and w w' :: "'a mem_scheme" and r
  assume s: "rd_serve mem_redis c w = (r, w')"
  then show "mem_now w' = mem_now w"
    by (auto simp: mem_redis_def split: prod.splits)
  have "mem_kv w' = snd (mem_exec c (mem_now w) (mem_kv w))"
    using s mem_exec_live [OF all_live_mem_kv, of w c]
    by (auto simp: mem_redis_def mem_kv_def all_live_def split: prod.splits)
  moreover have "r = fst (mem_exec c (mem_now w) (mem_kv w))"
    using s by (auto simp: mem_redis_def split: prod.splits)
  ultimately show "redis_doc c (mem_now w) (mem_kv w) r (mem_kv w')"
    using mem_exec_doc [OF all_live_mem_kv] by simp
next
  fix w :: "'a mem_scheme" and k v d
  assume "mem_kv w k = Some (v, Some d)"
  then show "mem_now w < d" by (rule all_live_Some [OF all_live_mem_kv])
qed (auto simp: mem_redis_def split: prod.splits)

section \<open>A server that answers\<close>

text \<open>
  The errors that Redis documents for these commands are a key that holds a value of another
  type and a counter out of range. \<open>answers\<close> excludes both; the locale states that such a
  command is answered with a value and that no round trip fails. Properties about what a
  sequence of requests achieves, rather than about what it can never do, rest on it.
\<close>

fun answers :: "rcmd \<Rightarrow> keyspace \<Rightarrow> bool" where
  "answers (GET k) ks = (case ks k of Some (VSet _, _) \<Rightarrow> False | _ \<Rightarrow> True)"
| "answers (GETDEL k) ks = (case ks k of Some (VSet _, _) \<Rightarrow> False | _ \<Rightarrow> True)"
| "answers (INCR k) ks =
     (case ks k of None \<Rightarrow> True | Some (VCtr n, _) \<Rightarrow> n + 1 < 2 ^ 63 | _ \<Rightarrow> False)"
| "answers (SADD k m) ks = (case ks k of None \<Rightarrow> True | Some (VSet _, _) \<Rightarrow> True | _ \<Rightarrow> False)"
| "answers (SMEMBERS k) ks = (case ks k of None \<Rightarrow> True | Some (VSet _, _) \<Rightarrow> True | _ \<Rightarrow> False)"
| "answers c ks = True"

locale reliable_redis = redis_service +
  assumes serve_answers: "answers c (kv w) \<Longrightarrow> rd_serve R c w = (RErr m, w') \<Longrightarrow> False"
    and call_total: "fst (rd_call R f w) = Inr (fst (f w))"
begin

lemma do_total:
  assumes "answers c (kv w)"
  obtains r w' where "rdb_do R c w = (Inr r, w')" "\<forall>m. r \<noteq> RErr m" "redis_ok c (now w) (kv w) r (kv w')"
proof -
  obtain r w1 where s: "rd_serve R c w = (r, w1)" by fastforce
  obtain x w' where c: "rdb_do R c w = (x, w')" by fastforce
  have x: "x = Inr r" using call_total [of "rd_serve R c" w] s c by (simp add: rdb_do_def)
  have r: "\<forall>m. r \<noteq> RErr m" using serve_answers [OF assms] s by blast
  show thesis using that [OF c [unfolded x] r] do_reply(2) [OF c x r] by simp
qed

lemma Client_Set_total: "fst (Client_Set R k v ttl w) = Inr ()"
proof -
  obtain r w' where r: "rdb_do R (SET k v ttl) w = (Inr r, w')" "\<forall>m. r \<noteq> RErr m"
    by (rule do_total [of "SET k v ttl" w]) auto
  then show ?thesis by (cases r) (auto simp: Client_Set_def)
qed

lemma Client_Del_total: "fst (Client_Del R k w) = Inr ()"
proof -
  obtain r w' where r: "rdb_do R (DEL k) w = (Inr r, w')" "\<forall>m. r \<noteq> RErr m"
    by (rule do_total [of "DEL k" w]) auto
  then show ?thesis by (cases r) (auto simp: Client_Del_def)
qed

lemma Client_Get_total:
  "kv w k = None \<Longrightarrow> fst (Client_Get R k w) = Inl (Leaf RedisNil)"
  "kv w k = Some (VStr v, d) \<Longrightarrow> fst (Client_Get R k w) = Inr v"
  by (rule do_total [of "GET k" w]; simp add: Client_Get_def IsMiss_def)+

lemma Client_GetDel_total:
  "kv w k = None \<Longrightarrow> fst (Client_GetDel R k w) = Inl (Leaf RedisNil)"
  "kv w k = Some (VStr v, d) \<Longrightarrow> fst (Client_GetDel R k w) = Inr v"
  by (rule do_total [of "GETDEL k" w]; simp add: Client_GetDel_def IsMiss_def)+

lemma Client_TTL_total: "\<exists>d. fst (Client_TTL R k w) = Inr d"
  by (rule do_total [of "TTL k" w]) (auto simp: Client_TTL_def)

lemma Client_Incr_total:
  assumes "kv w k = None \<or> (\<exists>n d. kv w k = Some (VCtr n, d) \<and> n + 1 < 2 ^ 63)" "0 < ttl"
  shows "\<exists>n. fst (Client_Incr R k ttl w) = Inr n"
proof -
  obtain v w1 where v: "rd_serve R (INCR k) w = (v, w1)" by fastforce
  obtain u w2 where u: "rd_serve R (PEXPIRE k (duration_Milliseconds ttl)) w1 = (u, w2)" by fastforce
  have "answers (INCR k) (kv w)" using assms(1) by auto
  then have nv: "\<forall>m. v \<noteq> RErr m" using serve_answers v by blast
  have nu: "\<forall>m. u \<noteq> RErr m" using serve_answers [of "PEXPIRE k (duration_Milliseconds ttl)" w1] u by auto
  obtain n where n: "v = RInt n" using serve_ok [OF v nv] by auto
  have "fst (incrWindowScript R k (duration_Milliseconds ttl) w) = RInt n"
    using v u nu n by (cases u) (auto simp: incrWindowScript_def)
  then have "fst (rd_call R (incrWindowScript R k (duration_Milliseconds ttl)) w) = Inr (RInt n)"
    using call_total by simp
  then show ?thesis using assms(2) by (auto simp: Client_Incr_def split: prod.splits)
qed

lemma Client_SAdd_total:
  assumes "answers (SADD k m) (kv w)" "0 < ttl"
  shows "fst (Client_SAdd R k m ttl w) = Inr ()"
proof -
  obtain v w1 where v: "rd_serve R (SADD k m) w = (v, w1)" by fastforce
  obtain u w2 where u: "rd_serve R (PExpire k ttl) w1 = (u, w2)" by fastforce
  have nv: "\<forall>e. v \<noteq> RErr e" using serve_answers [OF assms(1)] v by blast
  have nu: "\<forall>e. u \<noteq> RErr e" using serve_answers [of "PExpire k ttl" w1] u by auto
  have "fst (sadd_tx R k m ttl w) = u"
    using v u nv assms(2) by (cases v) (auto simp: sadd_tx_def)
  then have "fst (rd_call R (sadd_tx R k m ttl) w) = Inr u" using call_total by simp
  then show ?thesis using nu by (cases u) (auto simp: Client_SAdd_def split: prod.splits)
qed

lemma Client_SMembers_total:
  assumes "answers (SMEMBERS k) (kv w)"
  shows "\<exists>ms. fst (Client_SMembers R k w) = Inr ms"
  by (rule do_total [OF assms]) (auto simp: Client_SMembers_def)

end

lemma mem_exec_answers: "answers c ks \<Longrightarrow> fst (mem_exec c t ks) \<noteq> RErr m"
  by (cases c) (auto split: option.splits prod.splits rval.splits)

interpretation mem: reliable_redis mem_redis mem_now mem_kv
proof
  fix c and w w' :: "'a mem_scheme" and m
  assume "answers c (mem_kv w)" "rd_serve mem_redis c w = (RErr m, w')"
  then show False
    using mem_exec_answers [of c "mem_kv w" "mem_now w" m]
    by (auto simp: mem_redis_def split: prod.splits)
qed (auto simp: mem_redis_def split: prod.splits)

end
