(* ===== verification/Auth_Session.thy ===== *)
theory Auth_Session
  imports Cache
begin

text \<open>
  \<^verbatim>\<open>internal/auth/auth.go\<close>: server-side sessions in a TTL store, the CSRF comparison, the random
  tokens and the password hashing wrappers.

  The packages outside the repository are the record \<open>'w env\<close>: the random source, the JSON
  codec of a session and bcrypt. The locale \<open>auth_env\<close> states what is documented of them. The
  interface \<^verbatim>\<open>SessionStore\<close> is the locale \<open>session_store\<close>; \<open>redis_service\<close> provides it through
  the methods of \<^verbatim>\<open>cache.Client\<close>.
\<close>

section \<open>Data\<close>

record Identity =
  i_UserID :: string
  i_Username :: string
  i_Role :: string

record Session =
  s_ID :: string
  s_UserID :: string
  s_Username :: string
  s_Role :: string
  s_CSRFToken :: string
  s_CreatedAt :: Time
  s_LastSeenAt :: Time

record 'w env =
  rand_Read :: "nat \<Rightarrow> ('w, 8 word list) act"
  json_Marshal :: "Session \<Rightarrow> string res"
  json_Unmarshal :: "string \<Rightarrow> Session res"
  bcrypt_Generate :: "string \<Rightarrow> int \<Rightarrow> ('w, string) act"
  bcrypt_Compare :: "string \<Rightarrow> string \<Rightarrow> unit res"

record 'w SessionStore =
  ss_Set :: "string \<Rightarrow> string \<Rightarrow> Duration \<Rightarrow> ('w, unit) act"
  ss_Get :: "string \<Rightarrow> ('w, string) act"
  ss_Del :: "string \<Rightarrow> ('w, unit) act"
  ss_SAdd :: "string \<Rightarrow> string \<Rightarrow> Duration \<Rightarrow> ('w, unit) act"
  ss_SMembers :: "string \<Rightarrow> ('w, string list) act"

record 'w Manager =
  m_store :: "'w SessionStore"
  m_isMiss :: "goerr \<Rightarrow> bool"
  m_idleTTL :: Duration
  m_absoluteTTL :: Duration
  m_now :: "'w \<Rightarrow> Time"

definition sessionKeyPrefix :: string where
  "sessionKeyPrefix = ''session:v1:''"

definition userSessionsKeyPrefix :: string where
  "userSessionsKeyPrefix = ''user-sessions:v1:''"

definition tokenBytes :: nat where
  "tokenBytes = 32"

definition sessionKey :: "string \<Rightarrow> string" where
  "sessionKey sid = sessionKeyPrefix @ sid"

definition userSessionsKey :: "string \<Rightarrow> string" where
  "userSessionsKey userID = userSessionsKeyPrefix @ userID"

definition NewManager ::
    "'w SessionStore \<Rightarrow> (goerr \<Rightarrow> bool) \<Rightarrow> Duration \<Rightarrow> Duration \<Rightarrow> ('w \<Rightarrow> Time) \<Rightarrow> 'w Manager" where
  "NewManager store isMiss idleTTL absoluteTTL now =
     \<lparr>m_store = store, m_isMiss = isMiss, m_idleTTL = idleTTL, m_absoluteTTL = absoluteTTL,
      m_now = now\<rparr>"

section \<open>Tokens, CSRF and passwords\<close>

text \<open>\<^verbatim>\<open>base64.RawURLEncoding\<close>: the URL-safe alphabet, no padding.\<close>

definition base64url_alphabet :: string where
  "base64url_alphabet = ''ABCDEFGHIJKLMNOPQRSTUVWXYZabcdefghijklmnopqrstuvwxyz0123456789-_''"

fun base64url :: "nat list \<Rightarrow> string" where
  "base64url [] = []"
| "base64url [a] = [base64url_alphabet ! (a div 4), base64url_alphabet ! (a mod 4 * 16)]"
| "base64url [a, b] =
     [base64url_alphabet ! (a div 4), base64url_alphabet ! (a mod 4 * 16 + b div 16),
      base64url_alphabet ! (b mod 16 * 4)]"
| "base64url (a # b # c # rest) =
     base64url_alphabet ! (a div 4) # base64url_alphabet ! (a mod 4 * 16 + b div 16) #
     base64url_alphabet ! (b mod 16 * 4 + c div 64) # base64url_alphabet ! (c mod 64) #
     base64url rest"

definition token_of :: "8 word list \<Rightarrow> string" where
  "token_of b = base64url (map unat b)"

definition randomToken :: "'w env \<Rightarrow> ('w, string) act" where
  "randomToken E w =
     (case rand_Read E tokenBytes w of
        (Inl err, w1) \<Rightarrow> (Inl (Wrapf ''auth: read random: %w'' [err]), w1)
      | (Inr b, w1) \<Rightarrow> (Inr (token_of b), w1))"

text \<open>
  \<^verbatim>\<open>subtle.ConstantTimeCompare\<close>: 0 on different lengths, else whether the bytes' differences
  accumulated with OR are zero.
\<close>

unbundle bit_operations_syntax

definition byte_of :: "char \<Rightarrow> 8 word" where
  "byte_of c = word_of_nat (of_char c)"

definition ConstantTimeCompare :: "string \<Rightarrow> string \<Rightarrow> int" where
  "ConstantTimeCompare x y =
     (if length x \<noteq> length y then 0
      else if fold (\<lambda>(a, b) v. v OR (byte_of a XOR byte_of b)) (zip x y) 0 = 0 then 1 else 0)"

definition ValidCSRFToken :: "string \<Rightarrow> string \<Rightarrow> bool" where
  "ValidCSRFToken expected provided =
     (if expected = '''' \<or> provided = '''' then False
      else ConstantTimeCompare expected provided = 1)"

definition HashPassword :: "'w env \<Rightarrow> string \<Rightarrow> int \<Rightarrow> ('w, string) act" where
  "HashPassword E password cost w =
     (case bcrypt_Generate E password cost w of
        (Inl err, w1) \<Rightarrow> (Inl (Wrapf ''auth: hash password: %w'' [err]), w1)
      | (Inr hash, w1) \<Rightarrow> (Inr hash, w1))"

definition CheckPassword :: "'w env \<Rightarrow> string \<Rightarrow> string \<Rightarrow> bool" where
  "CheckPassword E hash password = (case bcrypt_Compare E hash password of Inr _ \<Rightarrow> True | Inl _ \<Rightarrow> False)"

section \<open>The session manager\<close>

definition save :: "'w env \<Rightarrow> 'w Manager \<Rightarrow> Session \<Rightarrow> Duration \<Rightarrow> ('w, unit) act" where
  "save E m sess ttl w =
     (case json_Marshal E sess of
        Inl err \<Rightarrow> (Inl (Wrapf ''auth: marshal session: %w'' [err]), w)
      | Inr data \<Rightarrow>
          (case ss_Set (m_store m) (sessionKey (s_ID sess)) data ttl w of
             (Inl err, w1) \<Rightarrow> (Inl (Wrapf ''auth: store session: %w'' [err]), w1)
           | (Inr _, w1) \<Rightarrow> (Inr (), w1)))"

definition CreateSession :: "'w env \<Rightarrow> 'w Manager \<Rightarrow> Identity \<Rightarrow> ('w, Session) act" where
  "CreateSession E m ident w =
     (case randomToken E w of
        (Inl err, w1) \<Rightarrow> (Inl err, w1)
      | (Inr sid, w1) \<Rightarrow>
     (case randomToken E w1 of
        (Inl err, w2) \<Rightarrow> (Inl err, w2)
      | (Inr csrf, w2) \<Rightarrow>
     (let now = m_now m w2;
          sess = \<lparr>s_ID = sid, s_UserID = i_UserID ident, s_Username = i_Username ident,
                  s_Role = i_Role ident, s_CSRFToken = csrf, s_CreatedAt = now, s_LastSeenAt = now\<rparr>
      in case save E m sess (m_idleTTL m) w2 of
           (Inl err, w3) \<Rightarrow> (Inl err, w3)
         | (Inr _, w3) \<Rightarrow>
             (case ss_SAdd (m_store m) (userSessionsKey (i_UserID ident)) sid (m_absoluteTTL m) w3 of
                (Inl err, w4) \<Rightarrow> (Inl (Wrapf ''auth: index session: %w'' [err]), w4)
              | (Inr _, w4) \<Rightarrow> (Inr sess, w4)))))"

definition DeleteSession :: "'w Manager \<Rightarrow> string \<Rightarrow> ('w, unit) act" where
  "DeleteSession m sid w =
     (case ss_Del (m_store m) (sessionKey sid) w of
        (Inl err, w1) \<Rightarrow> (Inl (Wrapf ''auth: delete session: %w'' [err]), w1)
      | (Inr _, w1) \<Rightarrow> (Inr (), w1))"

definition GetSession :: "'w env \<Rightarrow> 'w Manager \<Rightarrow> string \<Rightarrow> ('w, Session) act" where
  "GetSession E m sid w =
     (case ss_Get (m_store m) (sessionKey sid) w of
        (Inl err, w1) \<Rightarrow>
          (if m_isMiss m err then (Inl (Leaf ErrSessionNotFound), w1)
           else (Inl (Wrapf ''auth: get session: %w'' [err]), w1))
      | (Inr raw, w1) \<Rightarrow>
          (case json_Unmarshal E raw of
             Inl err \<Rightarrow> (Inl (Wrapf ''auth: unmarshal session: %w'' [err]), w1)
           | Inr sess \<Rightarrow>
               (let sess = sess\<lparr>s_ID := sid\<rparr>
                in if time_Sub (m_now m w1) (s_CreatedAt sess) > m_absoluteTTL m
                   then (case DeleteSession m sid w1 of (_, w2) \<Rightarrow> (Inl (Leaf ErrSessionExpired), w2))
                   else (Inr sess, w1))))"

definition remainingTTL :: "'w Manager \<Rightarrow> Time \<Rightarrow> Time \<Rightarrow> Duration" where
  "remainingTTL m createdAt now =
     (let absRemaining = wrap64 (m_absoluteTTL m - time_Sub now createdAt)
      in if absRemaining < m_idleTTL m then absRemaining else m_idleTTL m)"

definition TouchSession :: "'w env \<Rightarrow> 'w Manager \<Rightarrow> Session \<Rightarrow> ('w, unit) act" where
  "TouchSession E m sess w =
     (let now = m_now m w;
          ttl = remainingTTL m (s_CreatedAt sess) now
      in if ttl \<le> 0
         then (case DeleteSession m (s_ID sess) w of (_, w1) \<Rightarrow> (Inl (Leaf ErrSessionExpired), w1))
         else save E m (sess\<lparr>s_LastSeenAt := now\<rparr>) ttl w)"

fun revoke_loop :: "'w Manager \<Rightarrow> string \<Rightarrow> string list \<Rightarrow> ('w, unit) act" where
  "revoke_loop m exceptID [] w = (Inr (), w)"
| "revoke_loop m exceptID (sid # ids) w =
     (if sid = exceptID then revoke_loop m exceptID ids w
      else (case DeleteSession m sid w of
              (Inl err, w1) \<Rightarrow> (Inl err, w1)
            | (Inr _, w1) \<Rightarrow> revoke_loop m exceptID ids w1))"

definition RevokeUserSessions :: "'w Manager \<Rightarrow> string \<Rightarrow> string \<Rightarrow> ('w, unit) act" where
  "RevokeUserSessions m userID exceptID w =
     (let key = userSessionsKey userID
      in case ss_SMembers (m_store m) key w of
           (Inl err, w1) \<Rightarrow> (Inl (Wrapf ''auth: list user sessions: %w'' [err]), w1)
         | (Inr ids, w1) \<Rightarrow>
             (case revoke_loop m exceptID ids w1 of
                (Inl err, w2) \<Rightarrow> (Inl err, w2)
              | (Inr _, w2) \<Rightarrow>
                  (if exceptID = ''''
                   then (case ss_Del (m_store m) key w2 of
                           (Inl err, w3) \<Rightarrow> (Inl (Wrapf ''auth: clear user session index: %w'' [err]), w3)
                         | (Inr _, w3) \<Rightarrow> (Inr (), w3))
                   else (Inr (), w2))))"

section \<open>The key spaces are disjoint\<close>

lemma sessionKey_inject [simp]: "sessionKey a = sessionKey b \<longleftrightarrow> a = b"
  by (simp add: sessionKey_def)

lemma userSessionsKey_inject [simp]: "userSessionsKey a = userSessionsKey b \<longleftrightarrow> a = b"
  by (simp add: userSessionsKey_def)

lemma sessionKey_neq_user [simp, keys]: "sessionKey a \<noteq> userSessionsKey b"
  by (simp add: sessionKey_def userSessionsKey_def sessionKeyPrefix_def userSessionsKeyPrefix_def)

lemmas user_neq_sessionKey [simp, keys] = sessionKey_neq_user [symmetric]

section \<open>Constant-time comparison\<close>

lemma byte_of_inject [simp]: "byte_of a = byte_of b \<longleftrightarrow> a = b"
proof
  assume "byte_of a = byte_of b"
  then have "unat (byte_of a) = unat (byte_of b)" by simp
  then show "a = b" by (simp add: byte_of_def unat_of_nat take_bit_nat_eq_self)
qed simp

lemma word_xor_eq_0_iff: "(a XOR b = 0) \<longleftrightarrow> a = (b :: 'a::len word)"
  by (metis xor.right_neutral xor_self_eq bit.xor_left_self)

lemma fold_diff_zero:
  "fold (\<lambda>(a, b) v. v OR (byte_of a XOR byte_of b)) ps v = 0 \<longleftrightarrow>
     v = 0 \<and> (\<forall>p \<in> set ps. fst p = snd p)"
  by (induction ps arbitrary: v) (auto simp: word_xor_eq_0_iff or_eq_0_iff split: prod.splits)

lemma ConstantTimeCompare_eq: "ConstantTimeCompare x y = 1 \<longleftrightarrow> x = y"
proof
  assume "ConstantTimeCompare x y = 1"
  then have "length x = length y" "\<forall>p \<in> set (zip x y). fst p = snd p"
    by (auto simp: ConstantTimeCompare_def fold_diff_zero split: if_splits)
  then show "x = y"
    by (induction x y rule: list_induct2) auto
next
  assume "x = y"
  then show "ConstantTimeCompare x y = 1"
    by (auto simp: ConstantTimeCompare_def fold_diff_zero in_set_zip)
qed

section \<open>The store interface\<close>

locale session_store =
  fixes S :: "'w SessionStore" and isMiss :: "goerr \<Rightarrow> bool"
    and now :: "'w \<Rightarrow> Time" and kv :: "'w \<Rightarrow> keyspace"
  assumes Set_now: "ss_Set S k v ttl w = (x, w') \<Longrightarrow> now w' = now w"
    and Set_ok: "ss_Set S k v ttl w = (Inr u, w') \<Longrightarrow> 0 < ttl \<Longrightarrow>
        kv w' = (kv w)(k \<mapsto> (VStr v, Some (now w + px ttl)))"
    and Set_err: "ss_Set S k v ttl w = (Inl e, w') \<Longrightarrow> 0 < ttl \<Longrightarrow>
        kv w' = kv w \<or> kv w' = (kv w)(k \<mapsto> (VStr v, Some (now w + px ttl)))"
    and Get_frame: "ss_Get S k w = (y, w') \<Longrightarrow> now w' = now w \<and> kv w' = kv w"
    and Get_ok: "ss_Get S k w = (Inr v, w') \<Longrightarrow>
        \<exists>c d. kv w k = Some (c, d) \<and> (c = VStr v \<or> (\<exists>n. c = VCtr n \<and> v = show_int n))"
    and Get_miss: "ss_Get S k w = (Inl e, w') \<Longrightarrow> isMiss e \<Longrightarrow> kv w k = None"
    and Del_now: "ss_Del S k w = (x, w') \<Longrightarrow> now w' = now w"
    and Del_ok: "ss_Del S k w = (Inr u, w') \<Longrightarrow> kv w' = (kv w)(k := None)"
    and Del_err: "ss_Del S k w = (Inl e, w') \<Longrightarrow> kv w' = kv w \<or> kv w' = (kv w)(k := None)"
    and SAdd_frame: "ss_SAdd S k m ttl w = (x, w') \<Longrightarrow> now w' = now w"
        "ss_SAdd S k m ttl w = (x, w') \<Longrightarrow> k' \<noteq> k \<Longrightarrow> kv w' k' = kv w k'"
    and SAdd_grows: "ss_SAdd S k m ttl w = (x, w') \<Longrightarrow> 0 < ttl \<Longrightarrow>
        kv w k = None \<and> ms = [] \<or> kv w k = Some (VSet ms, d) \<Longrightarrow>
        kv w' k = kv w k \<or> (\<exists>ms' d'. kv w' k = Some (VSet ms', d') \<and> set ms \<subseteq> set ms' \<and>
          set ms' \<subseteq> insert m (set ms) \<and>
          (kv w k = Some (VSet ms, d) \<longrightarrow> d' = d \<or> d' = Some (now w + px ttl)))"
    and SAdd_ok: "ss_SAdd S k m ttl w = (Inr u, w') \<Longrightarrow> 0 < ttl \<Longrightarrow>
        kv w k = None \<and> ms = [] \<or> kv w k = Some (VSet ms, d) \<Longrightarrow>
        kv w' k = Some (VSet (List.insert m ms), Some (now w + px ttl))"
    and SMembers_frame: "ss_SMembers S k w = (z, w') \<Longrightarrow> now w' = now w \<and> kv w' = kv w"
    and SMembers_ok: "ss_SMembers S k w = (Inr vs, w') \<Longrightarrow> kv w k = Some (VSet ms, d) \<Longrightarrow> set vs = set ms"
        "ss_SMembers S k w = (Inr vs, w') \<Longrightarrow> kv w k = None \<Longrightarrow> vs = []"
    and live: "kv w k = Some (c, Some dl) \<Longrightarrow> now w < dl"

text \<open>The cache client is a session store.\<close>

definition client_SessionStore :: "'w redis \<Rightarrow> 'w SessionStore" where
  [wires]: "client_SessionStore R =
     \<lparr>ss_Set = Client_Set R, ss_Get = Client_Get R, ss_Del = Client_Del R,
      ss_SAdd = Client_SAdd R, ss_SMembers = Client_SMembers R\<rparr>"

sublocale redis_service \<subseteq> session: session_store "client_SessionStore R" IsMiss now kv
proof (unfold_locales, goal_cases)
  case (5 k w v w')
  then show ?case using Client_Get_ok [of k w v w'] by (auto simp: wires)
qed (simp_all add: wires Client_Set_now Client_Set_ok Client_Set_err Client_Get_frame
      Client_Get_miss Client_Del_now Client_Del_ok Client_Del_err Client_SAdd_frame
      Client_SAdd_grows Client_SAdd_ok Client_SMembers_frame Client_SMembers_ok live)

section \<open>The packages outside the repository\<close>

text \<open>
  Reading random bytes and hashing leave the session store alone. \<^verbatim>\<open>encoding/json\<close> gives the
  creation time back exactly, and the whole session (its id is tagged \<^verbatim>\<open>json:"-"\<close>) when its
  strings are valid UTF-8.
\<close>

locale auth_env =
  fixes E :: "'w env" and now :: "'w \<Rightarrow> Time" and kv :: "'w \<Rightarrow> keyspace"
  assumes rand_frame: "rand_Read E n w = (b, w') \<Longrightarrow> now w' = now w \<and> kv w' = kv w"
    and rand_len: "rand_Read E n w = (Inr bs, w') \<Longrightarrow> length bs = n"
    and bcrypt_frame: "bcrypt_Generate E p cost w = (h, w') \<Longrightarrow> now w' = now w \<and> kv w' = kv w"
    and json_time: "json_Marshal E s = Inr d \<Longrightarrow>
        \<exists>s'. json_Unmarshal E d = Inr s' \<and> s_CreatedAt s' = s_CreatedAt s"
    and json_text: "json_Marshal E s = Inr d \<Longrightarrow>
        list_all utf8_text [s_UserID s, s_Username s, s_Role s, s_CSRFToken s] \<Longrightarrow>
        json_Unmarshal E d = Inr (s\<lparr>s_ID := ''''\<rparr>)"
begin

lemma randomToken_frame: "randomToken E w = (x, w') \<Longrightarrow> now w' = now w \<and> kv w' = kv w"
  by (auto simp: randomToken_def split: prod.splits sum.splits dest: rand_frame)

lemma randomToken_ok:
  assumes "randomToken E w = (Inr tok, w')"
  obtains b where "tok = token_of b" "length b = tokenBytes"
  using assms by (auto simp: randomToken_def split: prod.splits sum.splits dest: rand_len)

lemma HashPassword_frame: "HashPassword E p cost w = (h, w') \<Longrightarrow> now w' = now w \<and> kv w' = kv w"
  by (auto simp: HashPassword_def split: prod.splits sum.splits dest: bcrypt_frame)

end

section \<open>Tokens\<close>

lemma length_base64url: "length (base64url bs) = (length bs * 4 + 2) div 3"
  by (induction bs rule: base64url.induct) auto

lemma base64url_digit: "n < 64 \<Longrightarrow> base64url_alphabet ! n \<in> set base64url_alphabet"
  by (rule nth_mem) (simp add: base64url_alphabet_def)

lemma set_base64url: "\<forall>b \<in> set bs. b < 256 \<Longrightarrow> set (base64url bs) \<subseteq> set base64url_alphabet"
proof (induction bs rule: base64url.induct)
  case (4 a b c rest)
  then have "a div 4 < 64" "a mod 4 * 16 + b div 16 < 64" "b mod 16 * 4 + c div 64 < 64" "c mod 64 < 64"
    by (auto simp: div_less_iff_less_mult)
  with 4 show ?case by (simp add: base64url_digit)
qed (auto simp: base64url_digit div_less_iff_less_mult)

lemma unat_less_byte: "unat (b :: 8 word) < 256"
  using unsigned_less [of b] by simp

lemma set_token_of: "set (token_of b) \<subseteq> set base64url_alphabet"
  unfolding token_of_def by (rule set_base64url) (auto simp: unat_less_byte)

lemma length_token_of: "length (token_of b) = (length b * 4 + 2) div 3"
  by (simp add: token_of_def length_base64url)

lemma base64url_ascii: "c \<in> set base64url_alphabet \<Longrightarrow> (of_char c :: nat) < 128"
  by (auto simp: base64url_alphabet_def)

lemma base64url_digit_inject:
  "m < 64 \<Longrightarrow> n < 64 \<Longrightarrow> base64url_alphabet ! m = base64url_alphabet ! n \<longleftrightarrow> m = n"
proof -
  have "distinct base64url_alphabet" "length base64url_alphabet = 64"
    by (simp_all add: base64url_alphabet_def)
  then show "m < 64 \<Longrightarrow> n < 64 \<Longrightarrow> ?thesis" by (simp add: nth_eq_iff_index_eq)
qed

lemma digits_inject: "m * k + x = m' * k + x' \<Longrightarrow> x < k \<Longrightarrow> x' < k \<Longrightarrow> m = m' \<and> x = x'" for m k x :: nat
proof -
  assume a: "m * k + x = m' * k + x'" "x < k" "x' < k"
  have "(m * k + x) div k = m" "(m' * k + x') div k = m'" using a(2,3) by simp_all
  with a show "m = m' \<and> x = x'" by simp
qed

lemma base64_1:
  fixes a a' :: nat
  assumes "a < 256" "a' < 256" "base64url_alphabet ! (a div 4) = base64url_alphabet ! (a' div 4)"
    and "base64url_alphabet ! (a mod 4 * 16 + x) = base64url_alphabet ! (a' mod 4 * 16 + x')"
    and "x < 16" "x' < 16"
  shows "a = a'" and "x = x'"
proof -
  have 1: "a div 4 = a' div 4" using assms by (subst (asm) base64url_digit_inject) auto
  have 2: "a mod 4 * 16 + x = a' mod 4 * 16 + x'"
    using assms by (subst (asm) (2) base64url_digit_inject) auto
  with digits_inject assms(5,6) have m: "a mod 4 = a' mod 4" "x = x'" by blast+
  show "a = a'" using 1 m(1) by (metis div_mult_mod_eq)
  show "x = x'" by (rule m(2))
qed

lemma base64_2:
  fixes b b' :: nat
  assumes "b < 256" "b' < 256" "b div 16 = b' div 16"
    and "base64url_alphabet ! (b mod 16 * 4 + x) = base64url_alphabet ! (b' mod 16 * 4 + x')"
    and "x < 4" "x' < 4"
  shows "b = b'" and "x = x'"
proof -
  have 2: "b mod 16 * 4 + x = b' mod 16 * 4 + x'"
    using assms by (subst (asm) base64url_digit_inject) auto
  with digits_inject assms(5,6) have m: "b mod 16 = b' mod 16" "x = x'" by blast+
  show "b = b'" using assms(3) m(1) by (metis div_mult_mod_eq)
  show "x = x'" by (rule m(2))
qed

lemma base64url_inject:
  "\<forall>b \<in> set bs. b < 256 \<Longrightarrow> \<forall>b \<in> set cs. b < 256 \<Longrightarrow> length bs = length cs \<Longrightarrow>
   base64url bs = base64url cs \<Longrightarrow> bs = cs"
proof (induction bs arbitrary: cs rule: base64url.induct)
  case (2 a)
  then obtain a' where "cs = [a']" by (auto simp: length_Suc_conv eq_commute [of "Suc _"])
  with 2 base64_1(1) [of a a' 0 0] show ?case by simp
next
  case (3 a b)
  then obtain a' b' where cs: "cs = [a', b']" by (auto simp: length_Suc_conv eq_commute [of "Suc _"])
  then have a: "a = a'" "b div 16 = b' div 16"
    using 3 base64_1 [of a a' "b div 16" "b' div 16"] by auto
  with cs 3 base64_2(1) [of b b' 0 0] show ?case by simp
next
  case (4 a b c rest)
  then obtain a' b' c' rest' where cs: "cs = a' # b' # c' # rest'"
    by (auto simp: length_Suc_conv eq_commute [of "Suc _"])
  have byte: "a < 256" "b < 256" "c < 256" "a' < 256" "b' < 256" "c' < 256"
    using 4(2,3) cs by auto
  have eq: "base64url_alphabet ! (a div 4) = base64url_alphabet ! (a' div 4)"
      "base64url_alphabet ! (a mod 4 * 16 + b div 16) = base64url_alphabet ! (a' mod 4 * 16 + b' div 16)"
      "base64url_alphabet ! (b mod 16 * 4 + c div 64) = base64url_alphabet ! (b' mod 16 * 4 + c' div 64)"
      "base64url_alphabet ! (c mod 64) = base64url_alphabet ! (c' mod 64)"
      "base64url rest = base64url rest'"
    using 4(5) cs by simp_all
  have d: "b div 16 < 16" "b' div 16 < 16" "c div 64 < 4" "c' div 64 < 4"
    using byte by (simp_all add: div_less_iff_less_mult)
  note a = base64_1 [OF byte(1,4) eq(1,2) d(1,2)]
  note b = base64_2 [OF byte(2,5) a(2) eq(3) d(3,4)]
  have "c mod 64 = c' mod 64" using eq(4) by (simp add: base64url_digit_inject)
  with b(2) have "c = c'" by (metis div_mult_mod_eq)
  moreover have "rest = rest'" using 4(1) [of rest'] 4(2-4) cs eq(5) by simp
  ultimately show ?case using a(1) b(1) cs by simp
qed simp

lemma token_of_inject: "token_of b = token_of b' \<longleftrightarrow> b = b'"
proof
  assume eq: "token_of b = token_of b'"
  then have "(length b * 4 + 2) div 3 = (length b' * 4 + 2) div 3"
    using length_token_of by metis
  then have len: "length b = length b'" by linarith
  have "map unat b = map unat b'"
    by (rule base64url_inject) (use eq len in \<open>auto simp: token_of_def unat_less_byte\<close>)
  then show "b = b'" by (simp add: inj_map_eq_map [OF injI] )
qed simp

lemma utf8_token_of: "utf8_text (token_of b)"
  using set_token_of base64url_ascii by (blast intro: utf8_text_ascii)

section \<open>The invariant of stored sessions\<close>

text \<open>
  \<open>issued\<close> is a ghost of the history: the user and the creation time of every session id that
  \<^verbatim>\<open>CreateSession\<close> returned. The invariant ties it to the store: a stored session carries its
  creation time and a deadline at most one millisecond (the resolution of an expiry) past its
  absolute lifetime, and as long as that lifetime lasts it is listed in its user's index, which
  outlives it.
\<close>

type_synonym issued = "string \<Rightarrow> (string \<times> Time) option"

definition stored_ok :: "'w env \<Rightarrow> Duration \<Rightarrow> Time \<Rightarrow> rentry \<Rightarrow> bool" where
  "stored_ok E life c e \<longleftrightarrow>
     (\<exists>raw s dl. e = (VStr raw, Some dl) \<and> json_Unmarshal E raw = Inr s \<and> s_CreatedAt s = c \<and>
        dl < c + life + Millisecond)"

definition indexed :: "Duration \<Rightarrow> keyspace \<Rightarrow> string \<Rightarrow> string \<Rightarrow> Time \<Rightarrow> bool" where
  "indexed life ks sid uid c \<longleftrightarrow>
     (\<exists>ms dl. ks (userSessionsKey uid) = Some (VSet ms, Some dl) \<and> sid \<in> set ms \<and> c + life \<le> dl)"

definition sessions_wf :: "'w env \<Rightarrow> Duration \<Rightarrow> Time \<Rightarrow> keyspace \<Rightarrow> issued \<Rightarrow> bool" where
  "sessions_wf E life t ks I \<longleftrightarrow>
     (\<forall>sid uid c. I sid = Some (uid, c) \<longrightarrow> c \<le> t) \<and>
     (\<forall>sid uid c e. I sid = Some (uid, c) \<longrightarrow> ks (sessionKey sid) = Some e \<longrightarrow>
        stored_ok E life c e \<and> (t < c + life \<longrightarrow> indexed life ks sid uid c)) \<and>
     (\<forall>uid e. ks (userSessionsKey uid) = Some e \<longrightarrow>
        (\<exists>ms d. e = (VSet ms, d) \<and> (\<forall>sid \<in> set ms. \<forall>u c. I sid = Some (u, c) \<longrightarrow> u = uid)))"

definition fresh_id :: "keyspace \<Rightarrow> issued \<Rightarrow> string \<Rightarrow> bool" where
  "fresh_id ks I sid \<longleftrightarrow> I sid = None \<and>
     (\<forall>uid ms d. ks (userSessionsKey uid) = Some (VSet ms, d) \<longrightarrow> sid \<notin> set ms)"

lemma sessions_wf_empty [simp]: "sessions_wf E life t Map.empty Map.empty"
  by (simp add: sessions_wf_def)

lemma sessions_wfD:
  assumes "sessions_wf E life t ks I" "I sid = Some (uid, c)"
  shows "c \<le> t"
    and "ks (sessionKey sid) = Some e \<Longrightarrow> stored_ok E life c e"
    and "ks (sessionKey sid) = Some e \<Longrightarrow> t < c + life \<Longrightarrow> indexed life ks sid uid c"
  using assms unfolding sessions_wf_def by blast+

lemma sessions_wf_index:
  assumes "sessions_wf E life t ks I" "ks (userSessionsKey uid) = Some e"
  obtains ms d where "e = (VSet ms, d)" and "\<And>sid u c. sid \<in> set ms \<Longrightarrow> I sid = Some (u, c) \<Longrightarrow> u = uid"
  using assms unfolding sessions_wf_def by metis

lemma sessions_wf_old_index:
  assumes "sessions_wf E life t ks I"
  obtains ms d where "ks (userSessionsKey uid) = None \<and> ms = [] \<or> ks (userSessionsKey uid) = Some (VSet ms, d)"
    and "\<And>sid u c. sid \<in> set ms \<Longrightarrow> I sid = Some (u, c) \<Longrightarrow> u = uid"
proof (cases "ks (userSessionsKey uid)")
  case None
  then show thesis using that [of "[]"] by simp
next
  case (Some e)
  show thesis by (rule sessions_wf_index [OF assms Some]) (use that Some in blast)
qed

text \<open>Passing time and deleting a session keep the invariant, and so does storing a session again.\<close>

lemma indexed_elapse: "indexed life ks sid uid c \<Longrightarrow> t < c + life \<Longrightarrow> indexed life (live_at t ks) sid uid c"
  by (fastforce simp: indexed_def live_at_Some)

lemma live_at_SomeD: "live_at t ks k = Some e \<Longrightarrow> ks k = Some e"
  by (cases e) (simp add: live_at_Some)

lemma sessions_wf_elapse:
  assumes wf: "sessions_wf E life t ks I" and t: "t \<le> t'"
  shows "sessions_wf E life t' (live_at t' ks) I"
  unfolding sessions_wf_def
proof (intro conjI allI impI)
  fix sid uid c assume I: "I sid = Some (uid, c)"
  show "c \<le> t'" using sessions_wfD(1) [OF wf I] t by simp
next
  fix sid uid c e assume I: "I sid = Some (uid, c)" and e: "live_at t' ks (sessionKey sid) = Some e"
  show "stored_ok E life c e" using sessions_wfD(2) [OF wf I live_at_SomeD [OF e]] .
  show "indexed life (live_at t' ks) sid uid c" if "t' < c + life"
    using sessions_wfD(3) [OF wf I live_at_SomeD [OF e]] that t by (simp add: indexed_elapse)
next
  fix uid e assume e: "live_at t' ks (userSessionsKey uid) = Some e"
  show "\<exists>ms d. e = (VSet ms, d) \<and> (\<forall>sid \<in> set ms. \<forall>u c. I sid = Some (u, c) \<longrightarrow> u = uid)"
    using sessions_wf_index [OF wf live_at_SomeD [OF e]] by metis
qed

lemma sessions_wf_store:
  assumes wf: "sessions_wf E life t ks I"
    and e: "\<And>uid c. I sid = Some (uid, c) \<Longrightarrow>
      case e of None \<Rightarrow> True
      | Some e' \<Rightarrow> stored_ok E life c e' \<and> (t < c + life \<longrightarrow> indexed life ks sid uid c)"
  shows "sessions_wf E life t (ks(sessionKey sid := e)) I"
proof -
  have ix: "indexed life (ks(sessionKey sid := e)) s u c = indexed life ks s u c" for s u c
    by (simp add: indexed_def)
  show ?thesis
    using wf e unfolding sessions_wf_def ix by (auto split: option.splits)
qed

lemma sessions_wf_delete:
  assumes wf: "sessions_wf E life t ks I"
    and same: "\<And>u. ks' (userSessionsKey u) = ks (userSessionsKey u)"
    and del: "\<And>s e. ks' (sessionKey s) = Some e \<Longrightarrow> ks (sessionKey s) = Some e"
  shows "sessions_wf E life t ks' I"
proof -
  have "indexed life ks' = indexed life ks"
    by (simp add: indexed_def fun_eq_iff same)
  with wf show ?thesis
    unfolding sessions_wf_def same using del by simp
qed

lemma sessions_wf_forget_index:
  assumes wf: "sessions_wf E life t ks I"
    and gone: "\<And>sid c. I sid = Some (uid, c) \<Longrightarrow> t < c + life \<Longrightarrow> ks (sessionKey sid) = None"
  shows "sessions_wf E life t (ks(userSessionsKey uid := None)) I"
proof -
  have "indexed life (ks(userSessionsKey uid := None)) s u c" if "indexed life ks s u c" "u \<noteq> uid" for s u c
    using that by (simp add: indexed_def)
  then show ?thesis
    using wf gone unfolding sessions_wf_def by (auto split: if_splits) (metis option.distinct(1))+
qed

text \<open>A new session joins its user's index, whose lifetime is renewed.\<close>

lemma sessions_wf_index_upd:
  assumes wf: "sessions_wf E life t ks I"
    and same: "\<And>k. k \<noteq> userSessionsKey uid \<Longrightarrow> ks' k = ks k"
    and ix: "\<And>sid c. indexed life ks sid uid c \<Longrightarrow> t < c + life \<Longrightarrow> c \<le> t \<Longrightarrow> indexed life ks' sid uid c"
    and mem: "\<And>e. ks' (userSessionsKey uid) = Some e \<Longrightarrow>
      \<exists>ms d. e = (VSet ms, d) \<and> (\<forall>sid \<in> set ms. \<forall>u c. I sid = Some (u, c) \<longrightarrow> u = uid)"
  shows "sessions_wf E life t ks' I"
proof -
  have ix': "indexed life ks' sid u c" if "indexed life ks sid u c" "t < c + life" "c \<le> t" for sid u c
    using that ix same by (cases "u = uid") (auto simp: indexed_def)
  have sk: "ks' (sessionKey sid) = ks (sessionKey sid)" for sid by (simp add: same)
  show ?thesis
    unfolding sessions_wf_def
  proof (intro conjI allI impI)
    fix sid u c assume I: "I sid = Some (u, c)"
    show "c \<le> t" using sessions_wfD(1) [OF wf I] .
  next
    fix sid u c e assume I: "I sid = Some (u, c)" and e: "ks' (sessionKey sid) = Some e"
    show "stored_ok E life c e" using sessions_wfD(2) [OF wf I] e sk by simp
    show "indexed life ks' sid u c" if "t < c + life"
      using sessions_wfD [OF wf I] e sk that ix' by simp
  next
    fix u e assume e: "ks' (userSessionsKey u) = Some e"
    show "\<exists>ms d. e = (VSet ms, d) \<and> (\<forall>sid \<in> set ms. \<forall>v c. I sid = Some (v, c) \<longrightarrow> v = u)"
    proof (cases "u = uid")
      case False
      then have "ks (userSessionsKey u) = Some e" using e same by simp
      from sessions_wf_index [OF wf this] show ?thesis by metis
    qed (use mem e in simp)
  qed
qed

section \<open>The manager over a store\<close>

locale session_manager = session_store S isMiss now kv + auth_env E now kv
  for S :: "'w SessionStore" and isMiss and now :: "'w \<Rightarrow> Time" and kv and E :: "'w env" +
  fixes idle life :: Duration
  assumes idle_pos: "0 < idle" and idle_le: "idle \<le> life" and life_int: "life < 2 ^ 63 - 1"
    and life_ms: "Millisecond dvd life"
begin

abbreviation M where "M \<equiv> NewManager S isMiss idle life now"

lemma M_simps [simp]:
  "m_store M = S" "m_isMiss M = isMiss" "m_idleTTL M = idle" "m_absoluteTTL M = life" "m_now M = now"
  by (simp_all add: NewManager_def)

lemma life_pos: "0 < life"
  using idle_pos idle_le by simp

lemma px_life [simp]: "px life = life"
  by (rule px_whole [OF life_pos life_ms])

text \<open>Storing a session: nothing but its key changes, and it holds what the codec gave.\<close>

lemma save_effect:
  assumes "save E M s ttl w = (x, w')" "0 < ttl"
  shows "now w' = now w"
    and "kv w' = kv w \<or> (\<exists>raw. json_Marshal E s = Inr raw \<and>
      kv w' = (kv w)(sessionKey (s_ID s) \<mapsto> (VStr raw, Some (now w + px ttl))))"
    and "x = Inr u \<Longrightarrow> \<exists>raw. json_Marshal E s = Inr raw \<and>
      kv w' = (kv w)(sessionKey (s_ID s) \<mapsto> (VStr raw, Some (now w + px ttl)))"
  using assms by (auto simp: save_def split: sum.splits prod.splits
      dest: Set_now Set_ok Set_err)

lemma save_stored_ok:
  assumes "json_Marshal E s = Inr raw" "t + px ttl < s_CreatedAt s + life + Millisecond"
  shows "stored_ok E life (s_CreatedAt s) (VStr raw, Some (t + px ttl))"
  using assms json_time unfolding stored_ok_def by blast

lemma DeleteSession_effect:
  assumes "DeleteSession M sid w = (x, w')"
  shows "now w' = now w" and "kv w' = kv w \<or> kv w' = (kv w)(sessionKey sid := None)"
    and "x = Inr u \<Longrightarrow> kv w' = (kv w)(sessionKey sid := None)"
  using assms by (auto simp: DeleteSession_def split: prod.splits sum.splits
      dest: Del_now Del_ok Del_err)

lemma DeleteSession_wf:
  assumes "DeleteSession M sid w = (x, w')" "sessions_wf E life (now w) (kv w) I"
  shows "sessions_wf E life (now w') (kv w') I"
  using DeleteSession_effect [OF assms(1)] sessions_wf_store [OF assms(2), of sid None] assms(2)
  by auto

text \<open>What a lookup returns: the stored record under the asked id, within its absolute lifetime.\<close>

lemma GetSession_ok:
  assumes "GetSession E M sid w = (Inr s, w')"
  shows "now w' = now w" and "kv w' = kv w" and "s_ID s = sid"
    and "time_Sub (now w) (s_CreatedAt s) \<le> life"
    and "\<exists>v d raw s0. kv w (sessionKey sid) = Some (v, d) \<and>
      (v = VStr raw \<or> (\<exists>n. v = VCtr n \<and> raw = show_int n)) \<and>
      json_Unmarshal E raw = Inr s0 \<and> s = s0\<lparr>s_ID := sid\<rparr>"
proof -
  obtain raw s0 where g: "ss_Get S (sessionKey sid) w = (Inr raw, w')"
      and u: "json_Unmarshal E raw = Inr s0" and s: "s = s0\<lparr>s_ID := sid\<rparr>"
      and t: "time_Sub (now w') (s_CreatedAt s) \<le> life"
    using assms by (auto simp: GetSession_def Let_def split: prod.splits sum.splits if_splits)
  note f = Get_frame [OF g]
  then show "now w' = now w" "kv w' = kv w" by simp_all
  then show "time_Sub (now w) (s_CreatedAt s) \<le> life" using t by simp
  show "s_ID s = sid" using s by simp
  show "\<exists>v d raw s0. kv w (sessionKey sid) = Some (v, d) \<and>
      (v = VStr raw \<or> (\<exists>n. v = VCtr n \<and> raw = show_int n)) \<and>
      json_Unmarshal E raw = Inr s0 \<and> s = s0\<lparr>s_ID := sid\<rparr>"
    using Get_ok [OF g] u s by metis
qed

lemma GetSession_effect:
  assumes "GetSession E M sid w = (x, w')"
  shows "now w' = now w" and "kv w' = kv w \<or> kv w' = (kv w)(sessionKey sid := None)"
proof -
  obtain y w1 where g: "ss_Get S (sessionKey sid) w = (y, w1)" by fastforce
  obtain z w2 where d: "DeleteSession M sid w1 = (z, w2)" by fastforce
  have "w' = w1 \<or> w' = w2"
    using assms g d by (auto simp: GetSession_def Let_def split: prod.splits sum.splits if_splits)
  then show "now w' = now w" and "kv w' = kv w \<or> kv w' = (kv w)(sessionKey sid := None)"
    using Get_frame [OF g] DeleteSession_effect(1,2) [OF d] by auto
qed

lemma GetSession_missing: "kv w (sessionKey sid) = None \<Longrightarrow> GetSession E M sid w \<noteq> (Inr s, w')"
  using GetSession_ok(5) by fastforce

lemma GetSession_wf:
  assumes "GetSession E M sid w = (x, w')" "sessions_wf E life (now w) (kv w) I"
  shows "sessions_wf E life (now w') (kv w') I"
  using GetSession_effect [OF assms(1)] sessions_wf_store [OF assms(2), of sid None] assms(2)
  by auto

end

lemma sessions_wf_issue:
  assumes wf: "sessions_wf E life t ks I"
    and e: "ks (sessionKey sid) = Some e" "stored_ok E life t e"
    and ix: "indexed life ks sid uid t"
    and only: "\<And>u ms d. ks (userSessionsKey u) = Some (VSet ms, d) \<Longrightarrow> sid \<in> set ms \<Longrightarrow> u = uid"
  shows "sessions_wf E life t ks (I(sid \<mapsto> (uid, t)))"
proof -
  have "\<exists>ms d. e = (VSet ms, d) \<and>
      (\<forall>s \<in> set ms. \<forall>v c. (I(sid \<mapsto> (uid, t))) s = Some (v, c) \<longrightarrow> v = u)"
    if ku: "ks (userSessionsKey u) = Some e" for u e
  proof -
    obtain ms d where "e = (VSet ms, d)" "\<And>s v c. s \<in> set ms \<Longrightarrow> I s = Some (v, c) \<Longrightarrow> v = u"
      using sessions_wf_index [OF wf ku] by blast
    with only ku show ?thesis by (auto split: if_splits)
  qed
  moreover have "c \<le> t" if "(I(sid \<mapsto> (uid, t))) s = Some (u, c)" for s u c
    using sessions_wfD(1) [OF wf] that by (cases "s = sid") auto
  moreover have "stored_ok E life c x \<and> (t < c + life \<longrightarrow> indexed life ks s u c)"
    if "(I(sid \<mapsto> (uid, t))) s = Some (u, c)" "ks (sessionKey s) = Some x" for s u c x
    using sessions_wfD(2,3) [OF wf] that e ix by (cases "s = sid") auto
  ultimately show ?thesis unfolding sessions_wf_def by blast
qed

context session_manager
begin

lemma remainingTTL_ok:
  assumes "0 < remainingTTL M c t" "c \<le> t"
  shows "t + px (remainingTTL M c t) < c + life + Millisecond"
    and "t < c + life" and "remainingTTL M c t \<le> idle"
proof -
  have sub: "0 \<le> time_Sub t c" "time_Sub t c < 2 ^ 63"
    using assms(2) by (auto simp: time_Sub_def)
  then have w: "wrap64 (life - time_Sub t c) = life - time_Sub t c"
    using life_int life_pos by (intro wrap64_id) (auto simp: is_int64_def)
  have pos: "0 < life - time_Sub t c"
    using assms(1) idle_pos by (simp add: remainingTTL_def Let_def w split: if_splits)
  with life_int have "time_Sub t c = t - c"
    using assms(2) by (auto simp: time_Sub_def is_int64_def)
  moreover have "remainingTTL M c t \<le> life - time_Sub t c"
    by (simp add: remainingTTL_def Let_def w)
  ultimately show "t + px (remainingTTL M c t) < c + life + Millisecond" and "t < c + life"
    using px_less [OF assms(1)] assms(1) by linarith+
  show "remainingTTL M c t \<le> idle" by (simp add: remainingTTL_def Let_def)
qed

lemma TouchSession_wf:
  assumes "TouchSession E M s w = (x, w')" and wf: "sessions_wf E life (now w) (kv w) I"
    and s: "\<And>uid c. I (s_ID s) = Some (uid, c) \<Longrightarrow> s_CreatedAt s = c \<and> kv w (sessionKey (s_ID s)) \<noteq> None"
  shows "sessions_wf E life (now w') (kv w') I"
proof (cases "remainingTTL M (s_CreatedAt s) (now w) \<le> 0")
  case True
  then have "w' = snd (DeleteSession M (s_ID s) w)"
    using assms(1) by (auto simp: TouchSession_def Let_def split: prod.splits)
  then show ?thesis
    using DeleteSession_wf [OF prod.collapse [symmetric] wf] by metis
next
  case False
  define ttl where "ttl = remainingTTL M (s_CreatedAt s) (now w)"
  have pos: "0 < ttl" using False by (simp add: ttl_def)
  have sv: "save E M (s\<lparr>s_LastSeenAt := now w\<rparr>) ttl w = (x, w')"
    using assms(1) False unfolding TouchSession_def ttl_def M_simps Let_def by simp
  consider "kv w' = kv w"
    | raw where "json_Marshal E (s\<lparr>s_LastSeenAt := now w\<rparr>) = Inr raw"
        "kv w' = (kv w)(sessionKey (s_ID s) \<mapsto> (VStr raw, Some (now w + px ttl)))"
    using save_effect(2) [OF sv pos] by auto
  then show ?thesis
  proof cases
    case 1
    then show ?thesis using wf save_effect(1) [OF sv pos] by simp
  next
    case (2 raw)
    have "stored_ok E life c (VStr raw, Some (now w + px ttl)) \<and>
        (now w < c + life \<longrightarrow> indexed life (kv w) (s_ID s) uid c)" if I: "I (s_ID s) = Some (uid, c)" for uid c
    proof -
      have c: "s_CreatedAt s = c" and k: "kv w (sessionKey (s_ID s)) \<noteq> None" using s [OF I] by auto
      have "now w + px ttl < c + life + Millisecond"
        using remainingTTL_ok(1) [of "s_CreatedAt s" "now w"] pos sessions_wfD(1) [OF wf I] c
        by (simp add: ttl_def)
      then show ?thesis
        using save_stored_ok [OF 2(1)] c sessions_wfD(3) [OF wf I] k by auto
    qed
    then have "sessions_wf E life (now w)
        ((kv w)(sessionKey (s_ID s) := Some (VStr raw, Some (now w + px ttl)))) I"
      by (intro sessions_wf_store [OF wf]) simp
    then show ?thesis using 2(2) save_effect(1) [OF sv pos] by simp
  qed
qed

end

context session_manager
begin

text \<open>A session that was created: stored for the idle window, then listed in its user's index.\<close>

lemma CreateSession_ok:
  assumes "CreateSession E M ident w = (Inr s, w')"
  obtains w1 w2 w3 csrf raw where "randomToken E w = (Inr (s_ID s), w1)"
    and "randomToken E w1 = (Inr csrf, w2)"
    and "s = \<lparr>s_ID = s_ID s, s_UserID = i_UserID ident, s_Username = i_Username ident,
              s_Role = i_Role ident, s_CSRFToken = csrf, s_CreatedAt = now w, s_LastSeenAt = now w\<rparr>"
    and "json_Marshal E s = Inr raw" and "now w3 = now w"
    and "kv w3 = (kv w)(sessionKey (s_ID s) \<mapsto> (VStr raw, Some (now w + px idle)))"
    and "ss_SAdd S (userSessionsKey (i_UserID ident)) (s_ID s) life w3 = (Inr (), w')"
proof -
  obtain sid w1 csrf w2 where t: "randomToken E w = (Inr sid, w1)" "randomToken E w1 = (Inr csrf, w2)"
    using assms by (auto simp: CreateSession_def split: prod.splits sum.splits)
  note f = randomToken_frame [OF t(1)] randomToken_frame [OF t(2)]
  obtain w3 where sv: "save E M s idle w2 = (Inr (), w3)" and sid: "s_ID s = sid"
    and s: "s = \<lparr>s_ID = s_ID s, s_UserID = i_UserID ident, s_Username = i_Username ident,
              s_Role = i_Role ident, s_CSRFToken = csrf, s_CreatedAt = now w, s_LastSeenAt = now w\<rparr>"
    and sa: "ss_SAdd S (userSessionsKey (i_UserID ident)) sid life w3 = (Inr (), w')"
    using assms t f by (auto simp: CreateSession_def Let_def split: prod.splits sum.splits)
  obtain raw where "json_Marshal E s = Inr raw"
    "kv w3 = (kv w2)(sessionKey (s_ID s) \<mapsto> (VStr raw, Some (now w2 + px idle)))"
    using save_effect(3) [OF sv idle_pos refl] by blast
  with that t sid s sa f save_effect(1) [OF sv idle_pos] show ?thesis by metis
qed

lemma CreateSession_err:
  assumes "CreateSession E M ident w = (Inl e, w')"
  obtains "now w' = now w" "kv w' = kv w"
  | w1 w2 w3 sid s x where "randomToken E w = (Inr sid, w1)" "now w2 = now w" "kv w2 = kv w"
      "s_ID s = sid" "save E M s idle w2 = (x, w3)"
      "w' = w3 \<or> (\<exists>y. ss_SAdd S (userSessionsKey (i_UserID ident)) sid life w3 = (y, w'))"
proof -
  obtain a w1 where t1: "randomToken E w = (a, w1)" by fastforce
  obtain b w2 where t2: "randomToken E w1 = (b, w2)" by fastforce
  note f = randomToken_frame [OF t1] randomToken_frame [OF t2]
  consider "w' = w1" | "w' = w2" | sid csrf where "a = Inr sid" "b = Inr csrf"
    using assms t1 t2 by (cases a; cases b) (auto simp: CreateSession_def)
  then show ?thesis
  proof cases
    case (3 sid csrf)
    define s where "s = \<lparr>s_ID = sid, s_UserID = i_UserID ident, s_Username = i_Username ident,
      s_Role = i_Role ident, s_CSRFToken = csrf, s_CreatedAt = now w2, s_LastSeenAt = now w2\<rparr>"
    obtain x w3 where sv: "save E M s idle w2 = (x, w3)" by fastforce
    have "w' = w3 \<or> (\<exists>y. ss_SAdd S (userSessionsKey (i_UserID ident)) sid life w3 = (y, w'))"
      using assms t1 t2 3 sv by (cases x) (auto simp: CreateSession_def Let_def s_def split: prod.splits sum.splits)
    moreover have "s_ID s = sid" by (simp add: s_def)
    ultimately show ?thesis using that(2) t1 3 f sv by metis
  qed (use that(1) f in auto)
qed

text \<open>Adding an id to a user's index keeps what was listed there.\<close>

lemma SAdd_wf:
  assumes sa: "ss_SAdd S (userSessionsKey uid) sid life w = (x, w')"
    and wf: "sessions_wf E life (now w) (kv w) I" and I: "I sid = None"
  shows "sessions_wf E life (now w') (kv w') I"
proof -
  obtain ms d where old: "kv w (userSessionsKey uid) = None \<and> ms = [] \<or>
      kv w (userSessionsKey uid) = Some (VSet ms, d)"
    and mem: "\<And>s u c. s \<in> set ms \<Longrightarrow> I s = Some (u, c) \<Longrightarrow> u = uid"
    using sessions_wf_old_index [OF wf] by metis
  from SAdd_grows [OF sa life_pos old] consider "kv w' (userSessionsKey uid) = kv w (userSessionsKey uid)"
    | ms' d' where "kv w' (userSessionsKey uid) = Some (VSet ms', d')" "set ms \<subseteq> set ms'"
      "set ms' \<subseteq> insert sid (set ms)"
      "kv w (userSessionsKey uid) = Some (VSet ms, d) \<Longrightarrow> d' = d \<or> d' = Some (now w + life)"
    by auto
  then have "sessions_wf E life (now w) (kv w') I"
  proof cases
    case 1
    then have "kv w' k = kv w k" for k
      using SAdd_frame(2) [OF sa, of k] by (cases "k = userSessionsKey uid") auto
    then show ?thesis using wf by (metis ext)
  next
    case 2
    show ?thesis
    proof (rule sessions_wf_index_upd [OF wf])
      show "indexed life (kv w') s uid c" if ix: "indexed life (kv w) s uid c" and cn: "c \<le> now w" for s c
      proof -
        obtain dl where dl: "kv w (userSessionsKey uid) = Some (VSet ms, Some dl)" "s \<in> set ms"
            "c + life \<le> dl" "d = Some dl"
          using ix old by (auto simp: indexed_def)
        then have "s \<in> set ms'" using 2(2) by blast
        with dl 2(1,4) cn show ?thesis by (auto simp: indexed_def)
      qed
      show "\<exists>ms d. e = (VSet ms, d) \<and> (\<forall>s \<in> set ms. \<forall>u c. I s = Some (u, c) \<longrightarrow> u = uid)"
        if "kv w' (userSessionsKey uid) = Some e" for e
      proof -
        have "u = uid" if "s \<in> set ms'" "I s = Some (u, c)" for s u c
          using that 2(3) mem [of s u c] I by (cases "s = sid") auto
        then show ?thesis using that 2(1) by auto
      qed
    qed (rule SAdd_frame(2) [OF sa])
  qed
  then show ?thesis using SAdd_frame(1) [OF sa] by simp
qed

lemma CreateSession_err_wf:
  assumes cs: "CreateSession E M ident w = (Inl e, w')"
    and wf: "sessions_wf E life (now w) (kv w) I"
    and fresh: "\<And>sid w1. randomToken E w = (Inr sid, w1) \<Longrightarrow> fresh_id (kv w) I sid"
  shows "sessions_wf E life (now w') (kv w') I"
  using cs
proof (cases rule: CreateSession_err)
  case 1
  then show ?thesis using wf by simp
next
  case (2 w1 w2 w3 sid s x)
  then have I: "I sid = None" using fresh by (simp add: fresh_id_def)
  have "sessions_wf E life (now w) ((kv w)(sessionKey sid := e')) I" for e'
    by (rule sessions_wf_store [OF wf]) (simp add: I)
  then have wf3: "sessions_wf E life (now w3) (kv w3) I"
    using save_effect(1,2) [OF 2(5) idle_pos] 2(2-4) wf by auto
  show ?thesis using 2(6) wf3 SAdd_wf [OF _ wf3 I] by blast
qed

lemma CreateSession_wf:
  assumes cs: "CreateSession E M ident w = (Inr s, w')"
    and wf: "sessions_wf E life (now w) (kv w) I" and fresh: "fresh_id (kv w) I (s_ID s)"
  shows "sessions_wf E life (now w') (kv w') (I(s_ID s \<mapsto> (i_UserID ident, now w)))"
proof -
  define uid sid where "uid = i_UserID ident" and "sid = s_ID s"
  obtain w1 w2 w3 csrf raw where c: "s = \<lparr>s_ID = s_ID s, s_UserID = i_UserID ident,
        s_Username = i_Username ident, s_Role = i_Role ident, s_CSRFToken = csrf,
        s_CreatedAt = now w, s_LastSeenAt = now w\<rparr>"
      "json_Marshal E s = Inr raw" "now w3 = now w"
      "kv w3 = (kv w)(sessionKey sid \<mapsto> (VStr raw, Some (now w + px idle)))"
      "ss_SAdd S (userSessionsKey uid) sid life w3 = (Inr (), w')"
    using CreateSession_ok [OF cs] unfolding uid_def sid_def by metis
  have I: "I sid = None" using fresh by (simp add: fresh_id_def sid_def)
  have wf3: "sessions_wf E life (now w3) (kv w3) I"
    using sessions_wf_store [OF wf, of sid] I c(3,4) by simp
  have wf4: "sessions_wf E life (now w') (kv w') I" by (rule SAdd_wf [OF c(5) wf3 I])
  have t: "now w' = now w" using SAdd_frame(1) [OF c(5)] c(3) by simp
  have same: "kv w' k = kv w3 k" if "k \<noteq> userSessionsKey uid" for k
    using SAdd_frame(2) [OF c(5) that] .
  have cr: "s_CreatedAt s = now w" using c(1) by (metis Session.select_convs(6))
  have st: "stored_ok E life (now w) (VStr raw, Some (now w + px idle))"
    using save_stored_ok [OF c(2), of "now w" idle] px_less [OF idle_pos] idle_le cr by simp
  obtain ms where ix: "kv w' (userSessionsKey uid) = Some (VSet (List.insert sid ms), Some (now w + life))"
    using sessions_wf_old_index [OF wf3] SAdd_ok [OF c(5) life_pos] c(3) px_life by metis
  have "sessions_wf E life (now w) (kv w') (I(sid \<mapsto> (uid, now w)))"
  proof (rule sessions_wf_issue)
    show "kv w' (sessionKey sid) = Some (VStr raw, Some (now w + px idle))"
      using same c(4) by simp
    show "indexed life (kv w') sid uid (now w)" using ix by (simp add: indexed_def)
    fix u ms d assume u: "kv w' (userSessionsKey u) = Some (VSet ms, d)" "sid \<in> set ms"
    show "u = uid"
    proof (rule ccontr)
      assume n: "u \<noteq> uid"
      then have "kv w (userSessionsKey u) = Some (VSet ms, d)" using u(1) same c(4) by simp
      with fresh u(2) show False by (auto simp: fresh_id_def sid_def)
    qed
  qed (use wf4 t st in simp_all)
  then show ?thesis using t by (simp add: uid_def sid_def)
qed

end

section \<open>Revocation\<close>

context session_manager
begin

text \<open>The loop deletes the keys it goes over and no other.\<close>

lemma revoke_loop_effect:
  assumes "revoke_loop M ex ids w = (x, w')"
  shows "now w' = now w"
    and "\<And>k. kv w' k = kv w k \<or> kv w' k = None \<and> k \<in> sessionKey ` (set ids - {ex})"
    and "\<And>u sid. x = Inr u \<Longrightarrow> sid \<in> set ids \<Longrightarrow> sid \<noteq> ex \<Longrightarrow> kv w' (sessionKey sid) = None"
proof -
  have "now w' = now w \<and>
      (\<forall>k. kv w' k = kv w k \<or> kv w' k = None \<and> k \<in> sessionKey ` (set ids - {ex})) \<and>
      ((\<exists>u. x = Inr u) \<longrightarrow> (\<forall>sid \<in> set ids. sid \<noteq> ex \<longrightarrow> kv w' (sessionKey sid) = None))"
    using assms
  proof (induction ids arbitrary: w)
    case (Cons sid ids)
    show ?case
    proof (cases "sid = ex")
      case True
      with Cons show ?thesis by fastforce
    next
      case False
      obtain y w1 where d: "DeleteSession M sid w = (y, w1)" by fastforce
      note e = DeleteSession_effect [OF d]
      show ?thesis
      proof (cases y)
        case (Inl err)
        with Cons.prems False d e(1,2) show ?thesis by (auto split: if_splits)
      next
        case (Inr u)
        then have "revoke_loop M ex ids w1 = (x, w')" using Cons.prems False d by simp
        note IH = Cons.IH [OF this]
        have k1: "kv w1 = (kv w)(sessionKey sid := None)" using e(3) Inr by simp
        have "kv w' (sessionKey sid) = None" using IH k1 by (metis fun_upd_same)
        moreover have "kv w' k = kv w k \<or> kv w' k = None \<and> k \<in> sessionKey ` (set (sid # ids) - {ex})" for k
          using IH [THEN conjunct2, THEN conjunct1, THEN spec, of k] k1 calculation False
          by (cases "k = sessionKey sid") auto
        ultimately show ?thesis using IH e(1) by auto
      qed
    qed
  qed simp
  then show "now w' = now w"
    and "\<And>k. kv w' k = kv w k \<or> kv w' k = None \<and> k \<in> sessionKey ` (set ids - {ex})"
    and "\<And>u sid. x = Inr u \<Longrightarrow> sid \<in> set ids \<Longrightarrow> sid \<noteq> ex \<Longrightarrow> kv w' (sessionKey sid) = None"
    by blast+
qed

text \<open>
  The run of \<^verbatim>\<open>RevokeUserSessions\<close>: the loop over the listed ids, then the index.
\<close>

lemma RevokeUserSessions_run:
  assumes "RevokeUserSessions M uid ex w = (x, w')"
  obtains "kv w' = kv w" "now w' = now w" "\<forall>u. x \<noteq> Inr u"
  | ids w1 w2 y where "ss_SMembers S (userSessionsKey uid) w = (Inr ids, w1)"
      "now w1 = now w" "kv w1 = kv w" "revoke_loop M ex ids w1 = (y, w2)" "now w' = now w"
      "kv w' = kv w2 \<or> (\<exists>u. y = Inr u) \<and> ex = '''' \<and> kv w' = (kv w2)(userSessionsKey uid := None)"
      "\<And>u. x = Inr u \<Longrightarrow> \<exists>v. y = Inr v"
proof -
  obtain a w1 where a: "ss_SMembers S (userSessionsKey uid) w = (a, w1)" by fastforce
  note f = SMembers_frame [OF a]
  show ?thesis
  proof (cases a)
    case (Inl e)
    then have "w' = w1" "\<forall>u. x \<noteq> Inr u" using assms a by (auto simp: RevokeUserSessions_def)
    then show ?thesis using that(1) f by simp
  next
    case (Inr ids)
    obtain y w2 where y: "revoke_loop M ex ids w1 = (y, w2)" by fastforce
    obtain z w3 where z: "ss_Del S (userSessionsKey uid) w2 = (z, w3)" by fastforce
    have n: "now w2 = now w" using revoke_loop_effect(1) [OF y] f by simp
    have "w' = w2 \<or> (\<exists>u. y = Inr u) \<and> ex = '''' \<and> w' = w3" and ok: "\<And>u. x = Inr u \<Longrightarrow> \<exists>v. y = Inr v"
      using assms a Inr y z by (auto simp: RevokeUserSessions_def split: sum.splits if_splits)
    moreover have "kv w3 = kv w2 \<or> kv w3 = (kv w2)(userSessionsKey uid := None)"
      using Del_ok [of _ w2] Del_err [of _ w2] z by (cases z) blast+
    ultimately show ?thesis
      using that(2) [OF a [unfolded Inr] _ _ y] f n Del_now [OF z] ok by auto
  qed
qed

lemma RevokeUserSessions_gone:
  assumes rv: "RevokeUserSessions M uid ex w = (Inr u, w')"
    and wf: "sessions_wf E life (now w) (kv w) I"
    and I: "I sid = Some (uid, c)" "sid \<noteq> ex" "now w < c + life"
  shows "kv w' (sessionKey sid) = None"
  using rv
proof (cases rule: RevokeUserSessions_run)
  case (2 ids w1 w2 y)
  obtain v where y: "y = Inr v" using 2(7) by blast
  have "kv w2 (sessionKey sid) = None"
  proof (cases "kv w (sessionKey sid)")
    case None
    then show ?thesis using revoke_loop_effect(2) [OF 2(4)] 2(3) by metis
  next
    case (Some e)
    obtain ms dl where "kv w (userSessionsKey uid) = Some (VSet ms, Some dl)" "sid \<in> set ms"
      using sessions_wfD(3) [OF wf I(1) Some I(3)] by (auto simp: indexed_def)
    then have "sid \<in> set ids" using SMembers_ok(1) [OF 2(1)] by simp
    then show ?thesis using revoke_loop_effect(3) [OF 2(4) y _ I(2)] by simp
  qed
  then show ?thesis using 2(6) by auto
qed simp

lemma RevokeUserSessions_other:
  assumes rv: "RevokeUserSessions M uid ex w = (x, w')"
    and wf: "sessions_wf E life (now w) (kv w) I"
    and I: "I sid = Some (uid', c)" "uid' \<noteq> uid \<or> sid = ex"
  shows "kv w' (sessionKey sid) = kv w (sessionKey sid)"
  using rv
proof (cases rule: RevokeUserSessions_run)
  case (2 ids w1 w2 y)
  obtain ms d where ms: "kv w (userSessionsKey uid) = None \<and> ms = [] \<or>
      kv w (userSessionsKey uid) = Some (VSet ms, d)"
    and mem: "\<And>s u c. s \<in> set ms \<Longrightarrow> I s = Some (u, c) \<Longrightarrow> u = uid"
    using sessions_wf_old_index [OF wf] by metis
  have "set ids = set ms" using ms SMembers_ok [OF 2(1)] by auto
  then have "sid \<notin> set ids - {ex}" using mem I by blast
  then show ?thesis
    using revoke_loop_effect(2) [OF 2(4), of "sessionKey sid"] 2(3,6) by auto
qed simp

lemma RevokeUserSessions_wf:
  assumes rv: "RevokeUserSessions M uid ex w = (x, w')"
    and wf: "sessions_wf E life (now w) (kv w) I"
    and empty: "I '''' = None"
  shows "sessions_wf E life (now w') (kv w') I"
  using rv
proof (cases rule: RevokeUserSessions_run)
  case 1
  then show ?thesis using wf by simp
next
  case (2 ids w1 w2 y)
  note loop = revoke_loop_effect [OF 2(4)]
  have wf2: "sessions_wf E life (now w) (kv w2) I"
  proof -
    have same: "kv w2 (userSessionsKey u) = kv w (userSessionsKey u)" for u
      using loop(2) [of "userSessionsKey u"] 2(3) by auto
    have "kv w2 (sessionKey s) = Some e \<Longrightarrow> kv w (sessionKey s) = Some e" for s e
      using loop(2) [of "sessionKey s"] 2(3) by auto
    with same show ?thesis by (rule sessions_wf_delete [OF wf])
  qed
  have "sessions_wf E life (now w) ((kv w2)(userSessionsKey uid := None)) I"
    if y: "y = Inr v" and ex: "ex = ''''" for v
  proof (rule sessions_wf_forget_index [OF wf2])
    fix sid c assume I: "I sid = Some (uid, c)" "now w < c + life"
    show "kv w2 (sessionKey sid) = None"
    proof (rule ccontr)
      assume n: "kv w2 (sessionKey sid) \<noteq> None"
      then obtain e where "kv w (sessionKey sid) = Some e"
        using loop(2) [of "sessionKey sid"] 2(3) by (metis not_None_eq)
      then obtain ms dl where "kv w (userSessionsKey uid) = Some (VSet ms, Some dl)" "sid \<in> set ms"
        using sessions_wfD(3) [OF wf I(1) _ I(2)] by (auto simp: indexed_def)
      then have "sid \<in> set ids" using SMembers_ok(1) [OF 2(1)] by simp
      moreover have "sid \<noteq> ''''" using I(1) empty by auto
      ultimately show False using loop(3) [OF y] ex n by simp
    qed
  qed
  then show ?thesis using 2(5,6) wf2 by auto
qed

end

section \<open>Histories of session operations\<close>

text \<open>
  One step is one operation run to its end, with the ghost of the issued sessions: a login, a
  login that failed, a request that authenticates (lookup, then touch, as the middleware does),
  a bare lookup, a logout, a revocation, time passing, or another component at work on keys of
  its own. A drawn id is fresh: 32 random bytes do not repeat.
\<close>

inductive session_step ::
    "'w env \<Rightarrow> 'w Manager \<Rightarrow> ('w \<Rightarrow> Time) \<Rightarrow> ('w \<Rightarrow> keyspace) \<Rightarrow> issued \<times> 'w \<Rightarrow> issued \<times> 'w \<Rightarrow> bool"
  for E m now kv where
  login: "CreateSession E m ident w = (Inr s, w') \<Longrightarrow> fresh_id (kv w) I (s_ID s) \<Longrightarrow>
    session_step E m now kv (I, w) (I(s_ID s \<mapsto> (i_UserID ident, now w)), w')"
| login_failed: "CreateSession E m ident w = (Inl e, w') \<Longrightarrow>
    (\<And>sid w1. randomToken E w = (Inr sid, w1) \<Longrightarrow> fresh_id (kv w) I sid) \<Longrightarrow>
    session_step E m now kv (I, w) (I, w')"
| authenticate: "GetSession E m sid w = (Inr s, w1) \<Longrightarrow> TouchSession E m s w1 = (x, w') \<Longrightarrow>
    session_step E m now kv (I, w) (I, w')"
| lookup: "GetSession E m sid w = (y, w') \<Longrightarrow> session_step E m now kv (I, w) (I, w')"
| logout: "DeleteSession m sid w = (x, w') \<Longrightarrow> session_step E m now kv (I, w) (I, w')"
| revoke: "RevokeUserSessions m uid ex w = (x, w') \<Longrightarrow> session_step E m now kv (I, w) (I, w')"
| elapse: "elapses now kv w w' \<Longrightarrow> session_step E m now kv (I, w) (I, w')"
| elsewhere: "now w' = now w \<Longrightarrow> (\<And>k. kv w' (sessionKey k) = kv w (sessionKey k)) \<Longrightarrow>
    (\<And>k. kv w' (userSessionsKey k) = kv w (userSessionsKey k)) \<Longrightarrow>
    session_step E m now kv (I, w) (I, w')"

inductive session_reach ::
    "'w env \<Rightarrow> 'w Manager \<Rightarrow> ('w \<Rightarrow> Time) \<Rightarrow> ('w \<Rightarrow> keyspace) \<Rightarrow> issued \<Rightarrow> 'w \<Rightarrow> bool"
  for E m now kv where
  start: "(\<And>uid. kv w (userSessionsKey uid) = None) \<Longrightarrow> session_reach E m now kv Map.empty w"
| more: "session_reach E m now kv I w \<Longrightarrow> session_step E m now kv (I, w) (I', w') \<Longrightarrow>
    session_reach E m now kv I' w'"

inductive_cases session_stepE: "session_step E m now kv (I, w) (I', w')"

context session_manager
begin

lemma CreateSession_id_nonempty:
  assumes "CreateSession E M ident w = (Inr s, w')"
  shows "s_ID s \<noteq> ''''"
proof -
  obtain w1 where "randomToken E w = (Inr (s_ID s), w1)"
    using CreateSession_ok [OF assms] by metis
  then show ?thesis
    by (elim randomToken_ok) (auto simp: length_token_of tokenBytes_def simp flip: length_greater_0_conv)
qed

lemma GetSession_issued:
  assumes g: "GetSession E M sid w = (Inr s, w')" and wf: "sessions_wf E life (now w) (kv w) I"
    and I: "I sid = Some (uid, c)"
  shows "s_CreatedAt s = c"
proof -
  obtain v d raw s0 where v: "kv w (sessionKey sid) = Some (v, d)"
      "v = VStr raw \<or> (\<exists>n. v = VCtr n \<and> raw = show_int n)"
      "json_Unmarshal E raw = Inr s0" "s = s0\<lparr>s_ID := sid\<rparr>"
    using GetSession_ok(5) [OF g] by blast
  have "stored_ok E life c (v, d)" by (rule sessions_wfD(2) [OF wf I v(1)])
  with v(2-4) show ?thesis by (auto simp: stored_ok_def)
qed

lemma authenticate_wf:
  assumes g: "GetSession E M sid w = (Inr s, w1)" and t: "TouchSession E M s w1 = (x, w')"
    and wf: "sessions_wf E life (now w) (kv w) I"
  shows "sessions_wf E life (now w') (kv w') I"
proof (rule TouchSession_wf [OF t])
  note ok = GetSession_ok [OF g]
  show "sessions_wf E life (now w1) (kv w1) I" using wf ok by simp
  show "s_CreatedAt s = c \<and> kv w1 (sessionKey (s_ID s)) \<noteq> None" if "I (s_ID s) = Some (uid, c)" for uid c
    using that GetSession_issued [OF g wf, of uid c] ok(2,3,5) by auto
qed

lemma TouchSession_stores:
  assumes "TouchSession E M s w = (Inr u, w')"
  shows "kv w' (sessionKey (s_ID s)) \<noteq> None"
proof -
  define ttl where "ttl = remainingTTL M (s_CreatedAt s) (now w)"
  have "0 < ttl" "save E M (s\<lparr>s_LastSeenAt := now w\<rparr>) ttl w = (Inr u, w')"
    using assms by (auto simp: TouchSession_def Let_def ttl_def split: if_splits prod.splits)
  from save_effect(3) [OF this(2,1) refl] show ?thesis by auto
qed

lemma GetSession_found:
  "GetSession E M sid w = (x, w') \<Longrightarrow> kv w (sessionKey sid) \<noteq> None \<Longrightarrow> x \<noteq> Inl (Leaf ErrSessionNotFound)"
  using Get_miss by (auto simp: GetSession_def Let_def split: prod.splits sum.splits if_splits)

lemma session_step_wf:
  assumes "session_step E M now kv (I, w) (I', w')"
    and "sessions_wf E life (now w) (kv w) I" "I '''' = None"
  shows "sessions_wf E life (now w') (kv w') I' \<and> I' '''' = None"
  using assms(1)
proof (cases rule: session_step.cases)
  case (login ident s)
  then show ?thesis
    using CreateSession_wf [OF login(2) assms(2) login(3)] assms(3) CreateSession_id_nonempty [OF login(2)]
    by auto
next
  case elapse
  then show ?thesis using sessions_wf_elapse [OF assms(2)] assms(3) by (simp add: elapses_def)
next
  case elsewhere
  then show ?thesis using assms sessions_wf_delete [OF assms(2), of "kv w'"] by simp
next
  case (login_failed ident e)
  then show ?thesis using CreateSession_err_wf [OF login_failed(2) assms(2)] assms(3) by blast
next
  case (authenticate sid s w1 x)
  then show ?thesis using authenticate_wf [OF _ _ assms(2)] assms(3) by blast
next
  case (lookup sid y)
  then show ?thesis using GetSession_wf [OF _ assms(2)] assms(3) by blast
next
  case (logout sid x)
  then show ?thesis using DeleteSession_wf [OF _ assms(2)] assms(3) by blast
next
  case (revoke uid ex x)
  then show ?thesis using RevokeUserSessions_wf [OF _ assms(2,3)] assms(3) by blast
qed

lemma session_reach_wf:
  assumes "session_reach E M now kv I w"
  shows "sessions_wf E life (now w) (kv w) I \<and> I '''' = None"
  using assms
proof (induction rule: session_reach.induct)
  case (start w)
  then show ?case by (simp add: sessions_wf_def)
next
  case (more I w I' w')
  then show ?case using session_step_wf by blast
qed

lemma issued_not_found_or_current:
  assumes "session_reach E M now kv I w" "I sid = Some (uid, c)" "GetSession E M sid w = (Inr s, w')"
  shows "s_CreatedAt s = c" and "c \<le> now w" and "now w \<le> c + life"
proof -
  have wf: "sessions_wf E life (now w) (kv w) I" using session_reach_wf [OF assms(1)] by simp
  show c: "s_CreatedAt s = c" by (rule GetSession_issued [OF assms(3) wf assms(2)])
  show ct: "c \<le> now w" by (rule sessions_wfD(1) [OF wf assms(2)])
  show "now w \<le> c + life"
    using GetSession_ok(4) [OF assms(3)] c ct life_int by (auto simp: time_Sub_def is_int64_def)
qed

text \<open>A session that was just created, seen again when only time has passed.\<close>

lemma created_then_get:
  assumes cs: "CreateSession E M ident w = (Inr s, w')"
    and utf: "utf8_text (i_UserID ident)" "utf8_text (i_Username ident)" "utf8_text (i_Role ident)"
    and el: "elapses now kv w' w2" and g: "GetSession E M (s_ID s) w2 = (x, w3)"
  shows "now w2 < now w + px idle \<Longrightarrow> \<forall>y. x = Inr y \<longrightarrow> y = s"
    and "now w2 < now w + px idle \<Longrightarrow> x \<noteq> Inl (Leaf ErrSessionNotFound) \<and> x \<noteq> Inl (Leaf ErrSessionExpired)"
    and "now w + px idle \<le> now w2 \<Longrightarrow> \<forall>y. x \<noteq> Inr y"
proof -
  obtain w1 csrf w1' w0 raw where r: "randomToken E w1 = (Inr csrf, w1')"
      and s: "s = \<lparr>s_ID = s_ID s, s_UserID = i_UserID ident, s_Username = i_Username ident,
              s_Role = i_Role ident, s_CSRFToken = csrf, s_CreatedAt = now w, s_LastSeenAt = now w\<rparr>"
      and raw: "json_Marshal E s = Inr raw" and t0: "now w0 = now w"
      and k0: "kv w0 = (kv w)(sessionKey (s_ID s) \<mapsto> (VStr raw, Some (now w + px idle)))"
      and sa: "ss_SAdd S (userSessionsKey (i_UserID ident)) (s_ID s) life w0 = (Inr (), w')"
    by (rule CreateSession_ok [OF cs])
  have f: "s_UserID s = i_UserID ident" "s_Username s = i_Username ident" "s_Role s = i_Role ident"
      "s_CSRFToken s = csrf" "s_CreatedAt s = now w"
    by (subst s, simp)+
  have un: "json_Unmarshal E raw = Inr (s\<lparr>s_ID := ''''\<rparr>)"
  proof -
    obtain b where "csrf = token_of b" using randomToken_ok [OF r] .
    then show ?thesis using json_text [OF raw] utf f utf8_token_of by simp
  qed
  have k': "kv w' (sessionKey (s_ID s)) = Some (VStr raw, Some (now w + px idle))"
    using SAdd_frame(2) [OF sa, of "sessionKey (s_ID s)"] k0 by simp
  show "\<forall>y. x \<noteq> Inr y" if "now w + px idle \<le> now w2"
  proof -
    have "kv w2 (sessionKey (s_ID s)) = None" using el k' that by (simp add: elapses_def live_at_def)
    then show ?thesis using GetSession_missing g by blast
  qed
  assume lt: "now w2 < now w + px idle"
  then have k2: "kv w2 (sessionKey (s_ID s)) = Some (VStr raw, Some (now w + px idle))"
    using el k' by (simp add: elapses_def live_at_def)
  have "time_Sub (now w2) (now w) \<le> life"
    using lt px_less [OF idle_pos] idle_le life_int life_pos px_whole [OF life_pos life_ms]
    by (auto simp: time_Sub_def is_int64_def px_def split: if_splits)
  with k2 un f(5) show "\<forall>y. x = Inr y \<longrightarrow> y = s"
      and "x \<noteq> Inl (Leaf ErrSessionNotFound) \<and> x \<noteq> Inl (Leaf ErrSessionExpired)"
    using g Get_ok [of "sessionKey (s_ID s)" w2] Get_miss [of "sessionKey (s_ID s)" w2]
      Get_frame [of "sessionKey (s_ID s)" w2]
    by (auto simp: GetSession_def Let_def split: prod.splits sum.splits if_splits)
qed

end

section \<open>Sessions kept in Redis\<close>

context redis_service
begin

lemma is_session_store: "session_store (client_SessionStore R) IsMiss now kv"
  by unfold_locales

end

definition redis_sessions ::
    "'w redis \<Rightarrow> 'w env \<Rightarrow> ('w \<Rightarrow> Time) \<Rightarrow> ('w \<Rightarrow> keyspace) \<Rightarrow> Duration \<Rightarrow> Duration \<Rightarrow> bool" where
  "redis_sessions R E now kv idle life \<longleftrightarrow>
     redis_service R now kv \<and> auth_env E now kv \<and>
     0 < idle \<and> idle \<le> life \<and> life < 2 ^ 63 - 1 \<and> Millisecond dvd life"

abbreviation redis_Manager :: "'w redis \<Rightarrow> ('w \<Rightarrow> Time) \<Rightarrow> Duration \<Rightarrow> Duration \<Rightarrow> 'w Manager" where
  "redis_Manager R now idle life \<equiv> NewManager (client_SessionStore R) IsMiss idle life now"

lemma redis_session_manager:
  assumes "redis_sessions R E now kv idle life"
  shows "session_manager (client_SessionStore R) IsMiss now kv E idle life"
proof -
  have "session_store (client_SessionStore R) IsMiss now kv"
    using assms redis_service.is_session_store by (auto simp: redis_sessions_def)
  then show ?thesis
    using assms unfolding redis_sessions_def session_manager_def session_manager_axioms_def by simp
qed

text \<open>
  A world in memory for the packages of \<open>'w env\<close>: a counter in place of the random source, an
  escaping of the fields in place of JSON, and a prefix in place of the hash.
\<close>

record seeded = mem +
  mem_seed :: nat

definition esc :: "string \<Rightarrow> string" where
  "esc s = concat (map (\<lambda>c. [CHR ''.'', c]) s) @ '';''"

fun unesc :: "string \<Rightarrow> (string \<times> string) option" where
  "unesc [] = None"
| "unesc [d] = (if d = CHR '';'' then Some ([], []) else None)"
| "unesc (d # c # r) =
     (if d = CHR '';'' then Some ([], c # r)
      else case unesc r of None \<Rightarrow> None | Some (a, b) \<Rightarrow> Some (c # a, b))"

lemma unesc_esc [simp]: "unesc (esc s @ r) = Some (s, r)"
  by (induction s) (auto simp: esc_def neq_Nil_conv intro: list.exhaust [of r])

lemma unesc_esc_last [simp]: "unesc (esc s) = Some (s, [])"
  using unesc_esc [of s "[]"] by simp

definition read_int :: "string \<Rightarrow> int" where
  "read_int s = (if take 1 s = ''-'' then - int (read_nat (drop 1 s)) else int (read_nat s))"

lemma read_show_int [simp]: "read_int (show_int i) = i"
proof -
  have "take 1 (show_nat n) \<noteq> ''-''" for n
    using minus_show_nat [of n] by (cases "show_nat n") auto
  then show ?thesis by (simp add: read_int_def show_int_def read_show_nat)
qed

fun unescs :: "nat \<Rightarrow> string \<Rightarrow> string list option" where
  "unescs 0 s = Some []"
| "unescs (Suc n) s =
     (case unesc s of None \<Rightarrow> None | Some (a, r) \<Rightarrow> map_option ((#) a) (unescs n r))"

definition mem_env :: "'a seeded_scheme env" where
  "mem_env =
     \<lparr>rand_Read = (\<lambda>n w. (Inr (map (\<lambda>i. word_of_nat (if i = 0 then mem_seed w else i)) [0..<n]),
                           w\<lparr>mem_seed := Suc (mem_seed w)\<rparr>)),
      json_Marshal = (\<lambda>s. Inr (esc (s_UserID s) @ esc (s_Username s) @ esc (s_Role s) @
        esc (s_CSRFToken s) @ esc (show_int (s_CreatedAt s)) @ esc (show_int (s_LastSeenAt s)))),
      json_Unmarshal = (\<lambda>raw. case unescs 6 raw of
          Some [u, n, r, c, t, l] \<Rightarrow>
            Inr \<lparr>s_ID = '''', s_UserID = u, s_Username = n, s_Role = r, s_CSRFToken = c,
                 s_CreatedAt = read_int t, s_LastSeenAt = read_int l\<rparr>
        | _ \<Rightarrow> Inl (Leaf (OtherErr ''json''))),
      bcrypt_Generate = (\<lambda>p c w. (Inr (''$2a$'' @ p), w)),
      bcrypt_Compare = (\<lambda>h p. if h = ''$2a$'' @ p then Inr () else Inl (Leaf (OtherErr ''bcrypt'')))\<rparr>"

interpretation mem_env: auth_env mem_env mem_now mem_kv
  by unfold_locales (auto simp: mem_env_def mem_kv_def numeral_eq_Suc)

lemma mem_redis_sessions:
  assumes "0 < idle" "idle \<le> life" "life < 2 ^ 63 - 1" "Millisecond dvd life"
  shows "redis_sessions mem_redis mem_env mem_now mem_kv idle life"
  using assms mem.redis_service_axioms mem_env.auth_env_axioms by (simp add: redis_sessions_def)

interpretation mem_sessions: session_manager
    "client_SessionStore mem_redis" IsMiss mem_now mem_kv mem_env "1800 * Second" "43200 * Second"
  by (rule redis_session_manager, rule mem_redis_sessions) simp_all

section \<open>A sample run\<close>

definition mem_start :: seeded where
  "mem_start = \<lparr>mem_now = 0, mem_keys = Map.empty, mem_seed = 7\<rparr>"

definition mem_mgr :: "seeded Manager" where
  "mem_mgr = redis_Manager mem_redis mem_now (1800 * Second) (43200 * Second)"

definition alice :: Identity where
  "alice = \<lparr>i_UserID = ''u1'', i_Username = ''alice'', i_Role = ''user''\<rparr>"

definition mem_login :: "Session res \<times> seeded" where
  "mem_login = CreateSession mem_env mem_mgr alice mem_start"

definition mem_session :: Session where
  "mem_session = projr (fst mem_login)"

definition mem_in :: seeded where
  "mem_in = snd mem_login"

definition mem_issued :: issued where
  "mem_issued = Map.empty(s_ID mem_session \<mapsto> (''u1'', 0))"

lemma mem_login_ok: "CreateSession mem_env mem_mgr alice mem_start = (Inr mem_session, mem_in)"
proof -
  have "\<not> isl (fst mem_login)" by code_simp
  then show ?thesis by (simp add: mem_session_def mem_in_def mem_login_def prod_eq_iff)
qed

lemma alice_UserID [simp]: "i_UserID alice = ''u1''"
  by (simp add: alice_def)

lemma mem_now_start [simp]: "mem_now mem_start = 0"
  by (simp add: mem_start_def)

lemma mem_kv_start [simp]: "mem_kv mem_start = Map.empty"
  by (simp add: mem_kv_def mem_start_def live_at_def fun_eq_iff)

lemma mem_reach: "session_reach mem_env mem_mgr mem_now mem_kv mem_issued mem_in"
proof -
  have "session_reach mem_env mem_mgr mem_now mem_kv Map.empty mem_start"
    by (rule session_reach.start) simp
  moreover have "session_step mem_env mem_mgr mem_now mem_kv (Map.empty, mem_start) (mem_issued, mem_in)"
    using session_step.login [of mem_env mem_mgr alice mem_start mem_session mem_in mem_kv Map.empty mem_now]
    by (simp add: mem_login_ok fresh_id_def mem_issued_def)
  ultimately show ?thesis by (rule session_reach.more)
qed

lemma mem_setup: "redis_sessions (mem_redis :: seeded redis) mem_env mem_now mem_kv (1800 * Second) (43200 * Second)"
  by (rule mem_redis_sessions) simp_all

section \<open>Properties\<close>

text \<open>
  C7: a successful \<^verbatim>\<open>RevokeUserSessions\<close> logs the user out everywhere. In every state that a
  history of session operations reaches, it leaves no session issued to that user and still
  within its absolute lifetime in the store, the excepted one apart, and a lookup of such a
  session does not succeed.
\<close>

theorem revoked_sessions_are_gone:
  assumes "redis_sessions R E now kv idle life"
    and "session_reach E (redis_Manager R now idle life) now kv I w"
    and "RevokeUserSessions (redis_Manager R now idle life) uid ex w = (Inr (), w')"
    and "I sid = Some (uid, c)" and "sid \<noteq> ex" and "now w < c + life"
  shows "kv w' (sessionKey sid) = None \<and>
    (\<forall>s w''. GetSession E (redis_Manager R now idle life) sid w' \<noteq> (Inr s, w''))"
proof -
  note sm = redis_session_manager [OF assms(1)]
  have "sessions_wf E life (now w) (kv w) I"
    using session_manager.session_reach_wf [OF sm assms(2)] by simp
  from session_manager.RevokeUserSessions_gone [OF sm assms(3) this assms(4-6)]
  have "kv w' (sessionKey sid) = None" .
  with session_manager.GetSession_missing [OF sm] show ?thesis by blast
qed

theorem revoked_sessions_are_gone_witness:
  "mem_kv (snd (RevokeUserSessions mem_mgr ''u1'' '''' mem_in)) (sessionKey (s_ID mem_session)) = None"
proof -
  have "fst (RevokeUserSessions mem_mgr ''u1'' '''' mem_in) = Inr ()" by code_simp
  then have "RevokeUserSessions mem_mgr ''u1'' '''' mem_in =
      (Inr (), snd (RevokeUserSessions mem_mgr ''u1'' '''' mem_in))"
    by (simp add: prod_eq_iff)
  moreover have "s_ID mem_session \<noteq> ''''" by code_simp
  moreover have "mem_now mem_in = 0" by code_simp
  ultimately show ?thesis
    using revoked_sessions_are_gone [OF mem_setup, folded mem_mgr_def, OF mem_reach]
    by (simp add: mem_issued_def)
qed

text \<open>
  C26: a revocation, whether it succeeds or not, leaves every session of another user and the
  excepted session as they were, in every reachable state.
\<close>

theorem revocation_spares_other_sessions:
  assumes "redis_sessions R E now kv idle life"
    and "session_reach E (redis_Manager R now idle life) now kv I w"
    and "RevokeUserSessions (redis_Manager R now idle life) uid ex w = (x, w')"
    and "I sid = Some (uid', c)" and "uid' \<noteq> uid \<or> sid = ex"
  shows "kv w' (sessionKey sid) = kv w (sessionKey sid)"
proof -
  note sm = redis_session_manager [OF assms(1)]
  have "sessions_wf E life (now w) (kv w) I"
    using session_manager.session_reach_wf [OF sm assms(2)] by simp
  from session_manager.RevokeUserSessions_other [OF sm assms(3) this assms(4,5)] show ?thesis .
qed

theorem revocation_spares_other_sessions_witness:
  "mem_kv (snd (RevokeUserSessions mem_mgr ''u2'' '''' mem_in)) (sessionKey (s_ID mem_session)) =
   mem_kv mem_in (sessionKey (s_ID mem_session))"
  using revocation_spares_other_sessions
    [OF mem_setup, folded mem_mgr_def, OF mem_reach prod.collapse [symmetric], of "s_ID mem_session" "''u1''" 0]
  by (simp add: mem_issued_def)

text \<open>
  C12: the absolute lifetime is a hard cap. In every reachable state a lookup that returns an
  issued session returns it under the id asked for, with the creation time it was issued with,
  and not later than the absolute lifetime after it: touching a session never extends that.
\<close>

theorem session_lives_at_most_absolute_ttl:
  assumes "redis_sessions R E now kv idle life"
    and "session_reach E (redis_Manager R now idle life) now kv I w"
    and "I sid = Some (uid, c)"
    and "GetSession E (redis_Manager R now idle life) sid w = (Inr s, w')"
  shows "s_ID s = sid \<and> s_CreatedAt s = c \<and> c \<le> now w \<and> now w \<le> c + life"
proof -
  note sm = redis_session_manager [OF assms(1)]
  show ?thesis
    using session_manager.issued_not_found_or_current [OF sm assms(2-4)]
      session_manager.GetSession_ok(3) [OF sm assms(4)] by simp
qed

theorem session_lives_at_most_absolute_ttl_witness:
  "\<not> isl (fst (GetSession mem_env mem_mgr (s_ID mem_session) mem_in)) \<and>
   s_CreatedAt (projr (fst (GetSession mem_env mem_mgr (s_ID mem_session) mem_in))) = 0"
proof -
  have ok: "\<not> isl (fst (GetSession mem_env mem_mgr (s_ID mem_session) mem_in))" by code_simp
  then have "GetSession mem_env mem_mgr (s_ID mem_session) mem_in =
      (Inr (projr (fst (GetSession mem_env mem_mgr (s_ID mem_session) mem_in))),
       snd (GetSession mem_env mem_mgr (s_ID mem_session) mem_in))"
    by (simp add: prod_eq_iff)
  from session_lives_at_most_absolute_ttl
    [OF mem_setup, folded mem_mgr_def, OF mem_reach _ this, of "''u1''" 0] ok
  show ?thesis by (simp add: mem_issued_def)
qed

definition mem_later :: "Duration \<Rightarrow> seeded \<Rightarrow> seeded" where
  "mem_later d w = w\<lparr>mem_now := mem_now w + d\<rparr>"

lemma mem_later_elapses: "0 \<le> d \<Longrightarrow> elapses mem_now mem_kv w (mem_later d w)"
  by (auto simp: elapses_def mem_later_def mem_kv_def live_at_def fun_eq_iff split: option.splits)

text \<open>
  C35: a touch that runs after the session was deleted brings it back. \<^verbatim>\<open>TouchSession\<close> stores the
  session it was given without asking whether it is still there, so a request that had already
  read its session when the user's sessions were revoked leaves that session in the store with a
  new deadline, and the next lookup does not report it missing.
\<close>

theorem touch_restores_deleted_session:
  assumes "redis_sessions R E now kv idle life"
    and "kv w (sessionKey (s_ID s)) = None"
    and "TouchSession E (redis_Manager R now idle life) s w = (Inr (), w')"
    and "GetSession E (redis_Manager R now idle life) (s_ID s) w' = (x, w'')"
  shows "kv w' (sessionKey (s_ID s)) \<noteq> None \<and> x \<noteq> Inl (Leaf ErrSessionNotFound)"
proof -
  note sm = redis_session_manager [OF assms(1)]
  have k: "kv w' (sessionKey (s_ID s)) \<noteq> None"
    by (rule session_manager.TouchSession_stores [OF sm assms(3)])
  moreover have "x \<noteq> Inl (Leaf ErrSessionNotFound)"
    using session_manager.GetSession_found [OF sm assms(4)] k by blast
  ultimately show ?thesis by simp
qed

theorem touch_restores_deleted_session_witness:
  "(case GetSession mem_env mem_mgr (s_ID mem_session) mem_in of (g, w1) \<Rightarrow>
    case RevokeUserSessions mem_mgr ''u1'' '''' w1 of (r, w2) \<Rightarrow>
    case TouchSession mem_env mem_mgr (projr g) w2 of (t, w3) \<Rightarrow>
      r = Inr () \<and> t = Inr () \<and> mem_kv w2 (sessionKey (s_ID mem_session)) = None \<and>
      mem_kv w3 (sessionKey (s_ID mem_session)) \<noteq> None)"
proof -
  define g where "g = GetSession mem_env mem_mgr (s_ID mem_session) mem_in"
  define r where "r = RevokeUserSessions mem_mgr ''u1'' '''' (snd g)"
  define t where "t = TouchSession mem_env mem_mgr (projr (fst g)) (snd r)"
  have i: "s_ID (projr (fst g)) = s_ID mem_session" unfolding g_def by code_simp
  have ok: "fst r = Inr ()" "fst t = Inr ()" "mem_kv (snd r) (sessionKey (s_ID mem_session)) = None"
    unfolding t_def r_def g_def by code_simp+
  have "t = (Inr (), snd t)" using ok(2) by (simp add: prod_eq_iff)
  with touch_restores_deleted_session [OF mem_setup, folded mem_mgr_def, of "snd r" "projr (fst g)" "snd t"] i ok
  have "mem_kv (snd t) (sessionKey (s_ID mem_session)) \<noteq> None"
    unfolding t_def by (metis prod.collapse)
  with ok show ?thesis unfolding t_def r_def g_def by (simp add: case_prod_beta)
qed

text \<open>The CSRF check accepts exactly the expected token, and never an empty one.\<close>

theorem ValidCSRFToken_iff: "ValidCSRFToken expected provided \<longleftrightarrow> expected = provided \<and> expected \<noteq> ''''"
  by (auto simp: ValidCSRFToken_def ConstantTimeCompare_eq)

text \<open>
  A random token is 43 characters of the URL-safe alphabet (so it never needs escaping in a
  cookie or a key), and different random bytes give different tokens.
\<close>

theorem token_of_faithful:
  "set (token_of b) \<subseteq> set base64url_alphabet \<and>
   length (token_of b) = (length b * 4 + 2) div 3 \<and> (token_of b = token_of b' \<longleftrightarrow> b = b')"
  using set_token_of length_token_of token_of_inject by blast

end
