(* ===== verification/Store.thy ===== *)
theory Store
  imports Auth_Session "HOL-Library.List_Lexorder" "HOL-Library.Multiset"
begin

text \<open>
  \<^verbatim>\<open>internal/store\<close> less the transfers: the tables of \<^verbatim>\<open>migrations/*.sql\<close>, the query set of
  \<^verbatim>\<open>internal/store/sqlc\<close> (each SQL statement as a function on the tables, with the constraints of
  the schema as its errors), \<^verbatim>\<open>postgres.go\<close>, \<^verbatim>\<open>users.go\<close> and \<^verbatim>\<open>admin.go\<close>.

  PostgreSQL and pgx are the parameter \<open>'w pg\<close>: the committed tables of a world, the outcome of
  sending a statement (\<open>None\<close>: it executes; \<open>Some e\<close>: it fails with \<open>e\<close>, a lost connection, a
  serialization failure, a deadlock), new identifiers, the transaction timestamp, the sort key of the
  database's collation, and begin and commit. The locale \<open>pg_service\<close> states what is documented
  of them. A transaction works on its own copy of the tables, which a commit installs and
  anything else drops; transactions run one after the other, as the isolation level serializable
  guarantees for those that commit.
\<close>

section \<open>Identifiers\<close>

record UUID =
  u_Bytes :: "8 word list"
  u_Valid :: bool

definition hex_digit :: "nat \<Rightarrow> char" where
  "hex_digit n = ''0123456789abcdef'' ! n"

definition hex :: "8 word list \<Rightarrow> string" where
  "hex bs = concat (map (\<lambda>b. [hex_digit (unat b div 16), hex_digit (unat b mod 16)]) bs)"

definition uuidString :: "UUID \<Rightarrow> string" where
  "uuidString u =
     (if \<not> u_Valid u then ''''
      else let b = u_Bytes u
           in hex (take 4 b) @ ''-'' @ hex (take 2 (drop 4 b)) @ ''-'' @ hex (take 2 (drop 6 b)) @ ''-'' @
              hex (take 2 (drop 8 b)) @ ''-'' @ hex (take 6 (drop 10 b)))"

text \<open>The order of \<^verbatim>\<open>ORDER BY id\<close>: byte by byte.\<close>

definition uuid_key :: "UUID \<Rightarrow> nat list" where
  "uuid_key u = map unat (u_Bytes u)"

section \<open>The tables\<close>

record Account =
  a_ID :: UUID
  a_UserID :: UUID
  a_Name :: string
  a_BalanceCents :: int
  a_CreatedAt :: Time
  a_UpdatedAt :: Time

record Transfer =
  t_ID :: UUID
  t_FromAccountID :: UUID
  t_ToAccountID :: UUID
  t_AmountCents :: int
  t_CreatedAt :: Time

record UserRow =
  u_ID :: UUID
  u_Username :: string
  u_PasswordHash :: string
  u_Role :: string
  u_CreatedAt :: Time
  u_UpdatedAt :: Time

record db =
  users :: "UserRow list"
  accounts :: "Account list"
  transfers :: "Transfer list"

text \<open>The isolation levels of pgx; \<open>None\<close> leaves the server's default.\<close>

datatype TxIsoLevel = Serializable | RepeatableRead | ReadCommitted

record 'w pg =
  pg_db :: "'w \<Rightarrow> db"
  pg_send :: "'w \<Rightarrow> goerr option \<times> 'w"
  pg_uuid :: "'w \<Rightarrow> UUID \<times> 'w"
  pg_now :: "'w \<Rightarrow> Time"
  pg_collate :: "string \<Rightarrow> nat list"
  pg_begin :: "TxIsoLevel option \<Rightarrow> ('w, unit) act"
  pg_commit :: "db \<Rightarrow> ('w, unit) act"
  pg_scan_uuid :: "string \<Rightarrow> UUID res"

text \<open>A query of the set runs on the tables its connection sees.\<close>

type_synonym ('w, 'a) query = "db \<times> 'w \<Rightarrow> 'a res \<times> db \<times> 'w"

definition sent :: "'w pg \<Rightarrow> ('w, 'a) query \<Rightarrow> ('w, 'a) query" where
  "sent P f s =
     (case s of (d, w) \<Rightarrow>
       (case pg_send P w of
          (Some e, w1) \<Rightarrow> (Inl e, d, w1)
        | (None, w1) \<Rightarrow> f (d, w1)))"

abbreviation sql_error :: "string \<Rightarrow> goerr" where
  "sql_error c \<equiv> Leaf (PgError c)"

definition check_violation :: string where "check_violation = ''23514''"
definition foreign_key_violation :: string where "foreign_key_violation = ''23503''"
definition numeric_out_of_range :: string where "numeric_out_of_range = ''22003''"

section \<open>sqlc: accounts\<close>

record AdjustBalanceParams =
  ab_DeltaCents :: int
  ab_ID :: UUID

definition AdjustBalance :: "'w pg \<Rightarrow> AdjustBalanceParams \<Rightarrow> ('w, int) query" where
  "AdjustBalance P arg = sent P (\<lambda>(d, w).
     (case find (\<lambda>a. a_ID a = ab_ID arg) (accounts d) of
        None \<Rightarrow> (Inl (Leaf ErrNoRows), d, w)
      | Some a \<Rightarrow>
          (let b = a_BalanceCents a + ab_DeltaCents arg
           in if \<not> is_int64 b then (Inl (sql_error numeric_out_of_range), d, w)
              else if b < 0 then (Inl (sql_error check_violation), d, w)
              else (Inr b,
                    d\<lparr>accounts := map (\<lambda>a. if a_ID a = ab_ID arg
                        then a\<lparr>a_BalanceCents := a_BalanceCents a + ab_DeltaCents arg,
                               a_UpdatedAt := pg_now P w\<rparr> else a) (accounts d)\<rparr>, w))))"

record CreateAccountParams =
  ca_UserID :: UUID
  ca_Name :: string
  ca_BalanceCents :: int

definition CreateAccount :: "'w pg \<Rightarrow> CreateAccountParams \<Rightarrow> ('w, Account) query" where
  "CreateAccount P arg = sent P (\<lambda>(d, w).
     (case pg_uuid P w of (i, w1) \<Rightarrow>
       (let t = pg_now P w1;
            a = \<lparr>a_ID = i, a_UserID = ca_UserID arg, a_Name = ca_Name arg,
                 a_BalanceCents = ca_BalanceCents arg, a_CreatedAt = t, a_UpdatedAt = t\<rparr>
        in if ca_BalanceCents arg < 0 then (Inl (sql_error check_violation), d, w1)
           else if i \<in> a_ID ` set (accounts d) then (Inl (sql_error ''23505''), d, w1)
           else if ca_UserID arg \<notin> u_ID ` set (users d)
             then (Inl (sql_error foreign_key_violation), d, w1)
           else (Inr a, d\<lparr>accounts := accounts d @ [a]\<rparr>, w1))))"

definition GetAccountByID :: "'w pg \<Rightarrow> UUID \<Rightarrow> ('w, Account) query" where
  "GetAccountByID P i = sent P (\<lambda>(d, w).
     (case find (\<lambda>a. a_ID a = i) (accounts d) of
        None \<Rightarrow> (Inl (Leaf ErrNoRows), d, w)
      | Some a \<Rightarrow> (Inr a, d, w)))"

record GetAccountsForUpdateRow =
  gf_ID :: UUID
  gf_UserID :: UUID
  gf_BalanceCents :: int

definition GetAccountsForUpdate :: "'w pg \<Rightarrow> UUID list \<Rightarrow> ('w, GetAccountsForUpdateRow list) query" where
  "GetAccountsForUpdate P ids = sent P (\<lambda>(d, w).
     (Inr (map (\<lambda>a. \<lparr>gf_ID = a_ID a, gf_UserID = a_UserID a, gf_BalanceCents = a_BalanceCents a\<rparr>)
            (sort_key (\<lambda>a. uuid_key (a_ID a)) (filter (\<lambda>a. a_ID a \<in> set ids) (accounts d)))), d, w))"

definition ListAccountsByUser :: "'w pg \<Rightarrow> UUID \<Rightarrow> ('w, Account list) query" where
  "ListAccountsByUser P userID = sent P (\<lambda>(d, w).
     (Inr (sort_key (\<lambda>a. uuid_key (a_ID a)) (filter (\<lambda>a. a_UserID a = userID) (accounts d))), d, w))"

record ListAllAccountsRow =
  la_ID :: UUID
  la_OwnerUsername :: string
  la_Name :: string
  la_BalanceCents :: int
  la_CreatedAt :: Time

text \<open>The join pairs every account with the users of its \<^verbatim>\<open>user_id\<close>; the sort is by user name, then id.\<close>

definition ListAllAccounts_rows :: "db \<Rightarrow> ListAllAccountsRow list" where
  "ListAllAccounts_rows d =
     concat (map (\<lambda>a. map (\<lambda>u. \<lparr>la_ID = a_ID a, la_OwnerUsername = u_Username u, la_Name = a_Name a,
                                la_BalanceCents = a_BalanceCents a, la_CreatedAt = a_CreatedAt a\<rparr>)
                      (filter (\<lambda>u. u_ID u = a_UserID a) (users d)))
               (accounts d))"

definition ListAllAccounts :: "'w pg \<Rightarrow> ('w, ListAllAccountsRow list) query" where
  "ListAllAccounts P = sent P (\<lambda>(d, w).
     (Inr (sort_key (\<lambda>r. pg_collate P (la_OwnerUsername r))
            (sort_key (\<lambda>r. uuid_key (la_ID r)) (ListAllAccounts_rows d))), d, w))"

section \<open>sqlc: users\<close>

record CreateUserParams =
  cu_Username :: string
  cu_PasswordHash :: string
  cu_Role :: string

record CreateUserRow =
  cr_ID :: UUID
  cr_Username :: string
  cr_Role :: string
  cr_CreatedAt :: Time
  cr_UpdatedAt :: Time

definition uniqueViolationCode :: string where
  "uniqueViolationCode = ''23505''"

definition CreateUser :: "'w pg \<Rightarrow> CreateUserParams \<Rightarrow> ('w, CreateUserRow) query" where
  "CreateUser P arg = sent P (\<lambda>(d, w).
     (case pg_uuid P w of (i, w1) \<Rightarrow>
       (let t = pg_now P w1;
            u = \<lparr>u_ID = i, u_Username = cu_Username arg, u_PasswordHash = cu_PasswordHash arg,
                 u_Role = cu_Role arg, u_CreatedAt = t, u_UpdatedAt = t\<rparr>
        in if cu_Role arg \<notin> {''user'', ''admin''} then (Inl (sql_error check_violation), d, w1)
           else if i \<in> u_ID ` set (users d) \<or> cu_Username arg \<in> u_Username ` set (users d)
             then (Inl (sql_error uniqueViolationCode), d, w1)
           else (Inr \<lparr>cr_ID = i, cr_Username = cu_Username arg, cr_Role = cu_Role arg,
                      cr_CreatedAt = t, cr_UpdatedAt = t\<rparr>,
                 d\<lparr>users := users d @ [u]\<rparr>, w1))))"

definition GetUserByID :: "'w pg \<Rightarrow> UUID \<Rightarrow> ('w, UserRow) query" where
  "GetUserByID P i = sent P (\<lambda>(d, w).
     (case find (\<lambda>u. u_ID u = i) (users d) of
        None \<Rightarrow> (Inl (Leaf ErrNoRows), d, w)
      | Some u \<Rightarrow> (Inr u, d, w)))"

definition GetUserByUsername :: "'w pg \<Rightarrow> string \<Rightarrow> ('w, UserRow) query" where
  "GetUserByUsername P username = sent P (\<lambda>(d, w).
     (case find (\<lambda>u. u_Username u = username) (users d) of
        None \<Rightarrow> (Inl (Leaf ErrNoRows), d, w)
      | Some u \<Rightarrow> (Inr u, d, w)))"

record ListUsersRow =
  lu_ID :: UUID
  lu_Username :: string
  lu_Role :: string
  lu_CreatedAt :: Time

definition ListUsers_query :: "'w pg \<Rightarrow> ('w, ListUsersRow list) query" where
  "ListUsers_query P = sent P (\<lambda>(d, w).
     (Inr (map (\<lambda>u. \<lparr>lu_ID = u_ID u, lu_Username = u_Username u, lu_Role = u_Role u,
                     lu_CreatedAt = u_CreatedAt u\<rparr>)
            (sort_key u_CreatedAt (sort_key (\<lambda>u. uuid_key (u_ID u)) (users d)))), d, w))"

record UpdateUserPasswordParams =
  up_ID :: UUID
  up_PasswordHash :: string

definition UpdateUserPassword :: "'w pg \<Rightarrow> UpdateUserPasswordParams \<Rightarrow> ('w, UUID) query" where
  "UpdateUserPassword P arg = sent P (\<lambda>(d, w).
     (if up_ID arg \<in> u_ID ` set (users d)
      then (Inr (up_ID arg),
            d\<lparr>users := map (\<lambda>u. if u_ID u = up_ID arg
                then u\<lparr>u_PasswordHash := up_PasswordHash arg, u_UpdatedAt := pg_now P w\<rparr> else u) (users d)\<rparr>, w)
      else (Inl (Leaf ErrNoRows), d, w)))"

section \<open>sqlc: transfers\<close>

record InsertTransferParams =
  it_FromAccountID :: UUID
  it_ToAccountID :: UUID
  it_AmountCents :: int

record InsertTransferRow =
  ir_ID :: UUID
  ir_CreatedAt :: Time

definition InsertTransfer :: "'w pg \<Rightarrow> InsertTransferParams \<Rightarrow> ('w, InsertTransferRow) query" where
  "InsertTransfer P arg = sent P (\<lambda>(d, w).
     (case pg_uuid P w of (i, w1) \<Rightarrow>
       (let t = pg_now P w1;
            r = \<lparr>t_ID = i, t_FromAccountID = it_FromAccountID arg, t_ToAccountID = it_ToAccountID arg,
                 t_AmountCents = it_AmountCents arg, t_CreatedAt = t\<rparr>
        in if it_AmountCents arg \<le> 0 then (Inl (sql_error check_violation), d, w1)
           else if i \<in> t_ID ` set (transfers d) then (Inl (sql_error uniqueViolationCode), d, w1)
           else if it_FromAccountID arg \<notin> a_ID ` set (accounts d) \<or>
                   it_ToAccountID arg \<notin> a_ID ` set (accounts d)
             then (Inl (sql_error foreign_key_violation), d, w1)
           else (Inr \<lparr>ir_ID = i, ir_CreatedAt = t\<rparr>, d\<lparr>transfers := transfers d @ [r]\<rparr>, w1))))"

record ListTransfersRow =
  lt_ID :: UUID
  lt_FromAccountID :: UUID
  lt_FromAccountName :: string
  lt_ToAccountID :: UUID
  lt_ToAccountName :: string
  lt_AmountCents :: int
  lt_CreatedAt :: Time

definition ListTransfers_rows :: "db \<Rightarrow> ListTransfersRow list" where
  "ListTransfers_rows d =
     concat (map (\<lambda>t. concat (map (\<lambda>fa. map (\<lambda>ta.
         \<lparr>lt_ID = t_ID t, lt_FromAccountID = t_FromAccountID t, lt_FromAccountName = a_Name fa,
          lt_ToAccountID = t_ToAccountID t, lt_ToAccountName = a_Name ta,
          lt_AmountCents = t_AmountCents t, lt_CreatedAt = t_CreatedAt t\<rparr>)
         (filter (\<lambda>a. a_ID a = t_ToAccountID t) (accounts d)))
       (filter (\<lambda>a. a_ID a = t_FromAccountID t) (accounts d)))) (transfers d))"

definition ListTransfers_query :: "'w pg \<Rightarrow> ('w, ListTransfersRow list) query" where
  "ListTransfers_query P = sent P (\<lambda>(d, w).
     (Inr (sort_key (\<lambda>r. - lt_CreatedAt r) (sort_key (\<lambda>r. uuid_key (lt_ID r)) (ListTransfers_rows d))), d, w))"

section \<open>postgres.go\<close>

text \<open>A query on the pool is a transaction of its own: PostgreSQL commits it when it succeeds.\<close>

definition pool_query :: "'w pg \<Rightarrow> ('w, 'a) query \<Rightarrow> ('w, 'a) act" where
  "pool_query P q w =
     (case q (pg_db P w, w) of
        (Inl err, d, w1) \<Rightarrow> (Inl err, w1)
      | (Inr x, d, w1) \<Rightarrow>
          (case pg_commit P d w1 of
             (Inl err, w2) \<Rightarrow> (Inl err, w2)
           | (Inr _, w2) \<Rightarrow> (Inr x, w2)))"

definition WithTx :: "'w pg \<Rightarrow> ('w, 'a) query \<Rightarrow> ('w, 'a) act" where
  "WithTx P fn w =
     (case pg_begin P None w of
        (Inl err, w1) \<Rightarrow> (Inl (Wrapf ''store: begin tx: %w'' [err]), w1)
      | (Inr _, w1) \<Rightarrow>
          (case fn (pg_db P w1, w1) of
             (Inl err, d, w2) \<Rightarrow> (Inl err, w2)
           | (Inr x, d, w2) \<Rightarrow>
               (case pg_commit P d w2 of
                  (Inl err, w3) \<Rightarrow> (Inl (Wrapf ''store: commit tx: %w'' [err]), w3)
                | (Inr _, w3) \<Rightarrow> (Inr x, w3))))"

section \<open>users.go\<close>

definition starterAccountName :: string where
  "starterAccountName = ''Checking''"

definition starterAccountBalance :: int where
  "starterAccountBalance = 100000"

record User =
  ID :: string
  Username :: string
  Role :: string

record UserWithHash = User +
  PasswordHash :: string

record NewUser =
  nu_Username :: string
  nu_PasswordHash :: string
  nu_Role :: string

definition isUniqueViolation :: "goerr \<Rightarrow> bool" where
  "isUniqueViolation err = (case errors_as_pg err of Some c \<Rightarrow> c = uniqueViolationCode | None \<Rightarrow> False)"

definition parseUUID :: "'w pg \<Rightarrow> string \<Rightarrow> UUID res" where
  "parseUUID P s =
     (case pg_scan_uuid P s of
        Inl err \<Rightarrow> Inl (Wrapf ''store: parse uuid: %w'' [err])
      | Inr u \<Rightarrow> Inr u)"

definition register_tx :: "'w pg \<Rightarrow> NewUser \<Rightarrow> ('w, CreateUserRow) query" where
  "register_tx P params s =
     (case CreateUser P \<lparr>cu_Username = nu_Username params, cu_PasswordHash = nu_PasswordHash params,
                         cu_Role = nu_Role params\<rparr> s of
        (Inl err, s1) \<Rightarrow>
          (if isUniqueViolation err then (Inl (Leaf ErrUsernameTaken), s1)
           else (Inl (Wrapf ''store: create user: %w'' [err]), s1))
      | (Inr row, s1) \<Rightarrow>
          (case CreateAccount P \<lparr>ca_UserID = cr_ID row, ca_Name = starterAccountName,
                                 ca_BalanceCents = starterAccountBalance\<rparr> s1 of
             (Inl err, s2) \<Rightarrow> (Inl (Wrapf ''store: create starter account: %w'' [err]), s2)
           | (Inr _, s2) \<Rightarrow> (Inr row, s2)))"

definition RegisterUser :: "'w pg \<Rightarrow> NewUser \<Rightarrow> ('w, User) act" where
  "RegisterUser P params w =
     (case WithTx P (register_tx P params) w of
        (Inl err, w1) \<Rightarrow> (Inl err, w1)
      | (Inr created, w1) \<Rightarrow>
          (Inr \<lparr>ID = uuidString (cr_ID created), Username = cr_Username created, Role = cr_Role created\<rparr>, w1))"

definition with_hash :: "UserRow \<Rightarrow> UserWithHash" where
  "with_hash row = \<lparr>ID = uuidString (u_ID row), Username = u_Username row, Role = u_Role row,
                    PasswordHash = u_PasswordHash row\<rparr>"

definition UserByUsername :: "'w pg \<Rightarrow> string \<Rightarrow> ('w, UserWithHash) act" where
  "UserByUsername P username w =
     (case pool_query P (GetUserByUsername P username) w of
        (Inl err, w1) \<Rightarrow>
          (if errors_is err ErrNoRows then (Inl (Leaf ErrUserNotFound), w1)
           else (Inl (Wrapf ''store: get user by username: %w'' [err]), w1))
      | (Inr row, w1) \<Rightarrow> (Inr (with_hash row), w1))"

definition UserByID :: "'w pg \<Rightarrow> string \<Rightarrow> ('w, UserWithHash) act" where
  "UserByID P i w =
     (case parseUUID P i of
        Inl _ \<Rightarrow> (Inl (Leaf ErrUserNotFound), w)
      | Inr uid \<Rightarrow>
          (case pool_query P (GetUserByID P uid) w of
             (Inl err, w1) \<Rightarrow>
               (if errors_is err ErrNoRows then (Inl (Leaf ErrUserNotFound), w1)
                else (Inl (Wrapf ''store: get user by id: %w'' [err]), w1))
           | (Inr row, w1) \<Rightarrow> (Inr (with_hash row), w1)))"

definition UpdatePassword :: "'w pg \<Rightarrow> string \<Rightarrow> string \<Rightarrow> ('w, unit) act" where
  "UpdatePassword P i passwordHash w =
     (case parseUUID P i of
        Inl _ \<Rightarrow> (Inl (Leaf ErrUserNotFound), w)
      | Inr uid \<Rightarrow>
          (case pool_query P (UpdateUserPassword P \<lparr>up_ID = uid, up_PasswordHash = passwordHash\<rparr>) w of
             (Inl err, w1) \<Rightarrow>
               (if errors_is err ErrNoRows then (Inl (Leaf ErrUserNotFound), w1)
                else (Inl (Wrapf ''store: update user password: %w'' [err]), w1))
           | (Inr _, w1) \<Rightarrow> (Inr (), w1)))"

section \<open>admin.go\<close>

record AdminUser =
  au_ID :: string
  au_Username :: string
  au_Role :: string
  au_CreatedAt :: Time

record AdminAccount =
  aa_ID :: string
  aa_OwnerUsername :: string
  aa_Name :: string
  aa_BalanceCents :: int
  aa_CreatedAt :: Time

record AdminTransfer =
  at_ID :: string
  at_FromAccountID :: string
  at_FromAccountName :: string
  at_ToAccountID :: string
  at_ToAccountName :: string
  at_AmountCents :: int
  at_CreatedAt :: Time

definition ListUsers :: "'w pg \<Rightarrow> ('w, AdminUser list) act" where
  "ListUsers P w =
     (case pool_query P (ListUsers_query P) w of
        (Inl err, w1) \<Rightarrow> (Inl (Wrapf ''store: list users: %w'' [err]), w1)
      | (Inr rows, w1) \<Rightarrow>
          (Inr (map (\<lambda>row. \<lparr>au_ID = uuidString (lu_ID row), au_Username = lu_Username row,
                            au_Role = lu_Role row, au_CreatedAt = lu_CreatedAt row\<rparr>) rows), w1))"

definition ListAllAccounts_admin :: "'w pg \<Rightarrow> ('w, AdminAccount list) act" where
  "ListAllAccounts_admin P w =
     (case pool_query P (ListAllAccounts P) w of
        (Inl err, w1) \<Rightarrow> (Inl (Wrapf ''store: list accounts: %w'' [err]), w1)
      | (Inr rows, w1) \<Rightarrow>
          (Inr (map (\<lambda>row. \<lparr>aa_ID = uuidString (la_ID row), aa_OwnerUsername = la_OwnerUsername row,
                            aa_Name = la_Name row, aa_BalanceCents = la_BalanceCents row,
                            aa_CreatedAt = la_CreatedAt row\<rparr>) rows), w1))"

definition ListTransfers :: "'w pg \<Rightarrow> ('w, AdminTransfer list) act" where
  "ListTransfers P w =
     (case pool_query P (ListTransfers_query P) w of
        (Inl err, w1) \<Rightarrow> (Inl (Wrapf ''store: list transfers: %w'' [err]), w1)
      | (Inr rows, w1) \<Rightarrow>
          (Inr (map (\<lambda>row. \<lparr>at_ID = uuidString (lt_ID row),
                            at_FromAccountID = uuidString (lt_FromAccountID row),
                            at_FromAccountName = lt_FromAccountName row,
                            at_ToAccountID = uuidString (lt_ToAccountID row),
                            at_ToAccountName = lt_ToAccountName row,
                            at_AmountCents = lt_AmountCents row, at_CreatedAt = lt_CreatedAt row\<rparr>) rows), w1))"

section \<open>Keys of a table\<close>

lemma filter_key:
  "distinct (map f xs) \<Longrightarrow> x \<in> set xs \<Longrightarrow> filter (\<lambda>y. f y = f x) xs = [x]"
proof (induction xs)
  case (Cons y ys)
  then show ?case
    by (cases "y = x") (auto simp: filter_empty_conv rev_image_eqI)
qed simp

lemma find_key: "distinct (map f xs) \<Longrightarrow> x \<in> set xs \<Longrightarrow> find (\<lambda>y. f y = f x) xs = Some x"
  by (induction xs) (auto simp: rev_image_eqI)

lemma find_key_None: "find (\<lambda>y. f y = k) xs = None \<longleftrightarrow> k \<notin> f ` set xs"
  by (auto simp: find_None_iff)

lemma map_update_key:
  "(\<And>x. f (g x) = f x) \<Longrightarrow> map f (map (\<lambda>x. if f x = k then g x else x) xs) = map f xs"
  by simp

section \<open>The schema\<close>

definition uuid_ok :: "UUID \<Rightarrow> bool" where
  "uuid_ok u \<longleftrightarrow> u_Valid u \<and> length (u_Bytes u) = 16"

definition user_ok :: "UserRow \<Rightarrow> bool" where
  "user_ok u \<longleftrightarrow> uuid_ok (u_ID u) \<and> u_Role u \<in> {''user'', ''admin''}"

definition account_ok :: "db \<Rightarrow> Account \<Rightarrow> bool" where
  "account_ok d a \<longleftrightarrow> uuid_ok (a_ID a) \<and> a_UserID a \<in> u_ID ` set (users d) \<and>
     0 \<le> a_BalanceCents a \<and> a_BalanceCents a < 2 ^ 63"

definition transfer_ok :: "db \<Rightarrow> Transfer \<Rightarrow> bool" where
  "transfer_ok d t \<longleftrightarrow> uuid_ok (t_ID t) \<and> t_FromAccountID t \<in> a_ID ` set (accounts d) \<and>
     t_ToAccountID t \<in> a_ID ` set (accounts d) \<and> 0 < t_AmountCents t"

definition db_wf :: "db \<Rightarrow> bool" where
  "db_wf d \<longleftrightarrow>
     distinct (map u_ID (users d)) \<and> distinct (map u_Username (users d)) \<and>
     distinct (map a_ID (accounts d)) \<and> distinct (map t_ID (transfers d)) \<and>
     (\<forall>u \<in> set (users d). user_ok u) \<and> (\<forall>a \<in> set (accounts d). account_ok d a) \<and>
     (\<forall>t \<in> set (transfers d). transfer_ok d t)"

text \<open>A query that only reads.\<close>

definition read_only :: "'w pg \<Rightarrow> ('w, 'a) query \<Rightarrow> bool" where
  "read_only P q \<longleftrightarrow>
     (\<forall>d w y d' w'. q (d, w) = (y, d', w') \<longrightarrow> pg_db P w' = pg_db P w \<and> d' = d)"

locale pg_service =
  fixes P :: "'w pg"
  assumes send_db: "pg_send P w = (x, w') \<Longrightarrow> pg_db P w' = pg_db P w"
    and uuid_db: "pg_uuid P w = (u, w') \<Longrightarrow> pg_db P w' = pg_db P w \<and> uuid_ok u"
    and begin_db: "pg_begin P lvl w = (y, w') \<Longrightarrow> pg_db P w' = pg_db P w"
    and commit_ok: "pg_commit P d w = (Inr v, w') \<Longrightarrow> pg_db P w' = d"
    and commit_err: "pg_commit P d w = (Inl e, w') \<Longrightarrow> pg_db P w' = pg_db P w \<or> pg_db P w' = d"
    and commit_refused: "pg_commit P d w = (Inl e, w') \<Longrightarrow> errors_as_pg e = Some c \<Longrightarrow> pg_db P w' = pg_db P w"
    and no_rows_is_an_answer: "pg_send P w = (Some e, w') \<Longrightarrow> \<not> errors_is e ErrNoRows"
        "pg_commit P d w = (Inl e, w') \<Longrightarrow> \<not> errors_is e ErrNoRows"
    and scan_canonical: "uuid_ok u \<Longrightarrow> pg_scan_uuid P (uuidString u) = Inr u"
    and scan_ok: "pg_scan_uuid P s = Inr u \<Longrightarrow> uuid_ok u"
begin

text \<open>What a query does to the tables it runs on; the committed tables wait for the commit.\<close>

lemma sent_ok:
  assumes "sent P f (d, w) = (Inr x, d', w')"
  obtains w1 where "pg_send P w = (None, w1)" "pg_db P w1 = pg_db P w" "f (d, w1) = (Inr x, d', w')"
  using assms send_db by (auto simp: sent_def split: prod.splits option.splits)

lemma sent_err:
  assumes "sent P f (d, w) = (Inl e, d', w')"
  obtains "d' = d" "pg_db P w' = pg_db P w" "\<exists>w1. pg_send P w = (Some e, w1)"
  | w1 where "pg_send P w = (None, w1)" "pg_db P w1 = pg_db P w" "f (d, w1) = (Inl e, d', w')"
  using assms send_db by (auto simp: sent_def split: prod.splits option.splits)

lemma CreateUser_ok:
  assumes "CreateUser P arg (d, w) = (Inr row, d', w')"
  obtains t where "pg_db P w' = pg_db P w" "uuid_ok (cr_ID row)"
    "cr_ID row \<notin> u_ID ` set (users d)" "cu_Username arg \<notin> u_Username ` set (users d)"
    "cu_Role arg \<in> {''user'', ''admin''}"
    "row = \<lparr>cr_ID = cr_ID row, cr_Username = cu_Username arg, cr_Role = cu_Role arg,
            cr_CreatedAt = t, cr_UpdatedAt = t\<rparr>"
    "d' = d\<lparr>users := users d @ [\<lparr>u_ID = cr_ID row, u_Username = cu_Username arg,
        u_PasswordHash = cu_PasswordHash arg, u_Role = cu_Role arg, u_CreatedAt = t, u_UpdatedAt = t\<rparr>]\<rparr>"
proof -
  obtain w1 where w1: "pg_db P w1 = pg_db P w"
    and f: "(case pg_uuid P w1 of (i, w2) \<Rightarrow>
       (let t = pg_now P w2;
            u = \<lparr>u_ID = i, u_Username = cu_Username arg, u_PasswordHash = cu_PasswordHash arg,
                 u_Role = cu_Role arg, u_CreatedAt = t, u_UpdatedAt = t\<rparr>
        in if cu_Role arg \<notin> {''user'', ''admin''} then (Inl (sql_error check_violation), d, w2)
           else if i \<in> u_ID ` set (users d) \<or> cu_Username arg \<in> u_Username ` set (users d)
             then (Inl (sql_error uniqueViolationCode), d, w2)
           else (Inr \<lparr>cr_ID = i, cr_Username = cu_Username arg, cr_Role = cu_Role arg,
                      cr_CreatedAt = t, cr_UpdatedAt = t\<rparr>,
                 d\<lparr>users := users d @ [u]\<rparr>, w2))) = (Inr row, d', w')"
    using assms unfolding CreateUser_def by (rule sent_ok) auto
  obtain i w2 where i: "pg_uuid P w1 = (i, w2)" by fastforce
  show thesis
    using f i uuid_db [OF i] w1 that [of "pg_now P w2"] by (auto simp: Let_def split: if_splits)
qed

lemma CreateUser_err:
  "CreateUser P arg (d, w) = (Inl e, d', w') \<Longrightarrow> pg_db P w' = pg_db P w"
  unfolding CreateUser_def
  by (erule sent_err) (auto simp: Let_def split: prod.splits if_splits dest!: uuid_db)

lemma CreateAccount_ok:
  assumes "CreateAccount P arg (d, w) = (Inr a, d', w')"
  shows "pg_db P w' = pg_db P w" "uuid_ok (a_ID a)" "a_ID a \<notin> a_ID ` set (accounts d)"
    "ca_UserID arg \<in> u_ID ` set (users d)" "0 \<le> ca_BalanceCents arg"
    "a_UserID a = ca_UserID arg" "a_Name a = ca_Name arg" "a_BalanceCents a = ca_BalanceCents arg"
    "d' = d\<lparr>accounts := accounts d @ [a]\<rparr>"
  using assms unfolding CreateAccount_def
  by - (erule sent_ok, auto simp: Let_def split: prod.splits if_splits dest!: uuid_db)+

lemma CreateAccount_err:
  "CreateAccount P arg (d, w) = (Inl e, d', w') \<Longrightarrow> pg_db P w' = pg_db P w"
  unfolding CreateAccount_def
  by (erule sent_err) (auto simp: Let_def split: prod.splits if_splits dest!: uuid_db)

lemma UpdateUserPassword_ok:
  assumes "UpdateUserPassword P arg (d, w) = (Inr i, d', w')"
  obtains t where "pg_db P w' = pg_db P w" "up_ID arg \<in> u_ID ` set (users d)"
    "d' = d\<lparr>users := map (\<lambda>u. if u_ID u = up_ID arg
        then u\<lparr>u_PasswordHash := up_PasswordHash arg, u_UpdatedAt := t\<rparr> else u) (users d)\<rparr>"
  using assms unfolding UpdateUserPassword_def by - (erule sent_ok, auto split: if_splits)

lemma UpdateUserPassword_db:
  "UpdateUserPassword P arg (d, w) = (Inl e, d', w') \<Longrightarrow> pg_db P w' = pg_db P w"
  by (auto simp: UpdateUserPassword_def sent_def split: prod.splits option.splits if_splits dest!: send_db)

lemma read_only_queries:
  "read_only P (GetUserByID P i)" "read_only P (GetUserByUsername P n)" "read_only P (GetAccountByID P i)"
  "read_only P (GetAccountsForUpdate P ids)" "read_only P (ListAccountsByUser P i)"
  "read_only P (ListAllAccounts P)" "read_only P (ListUsers_query P)" "read_only P (ListTransfers_query P)"
  unfolding read_only_def GetUserByID_def GetUserByUsername_def GetAccountByID_def GetAccountsForUpdate_def
    ListAccountsByUser_def ListAllAccounts_def ListUsers_query_def ListTransfers_query_def
  by (auto simp: sent_def split: prod.splits option.splits dest!: send_db)

lemma commit_db: "pg_commit P d w = (z, w') \<Longrightarrow> pg_db P w' = pg_db P w \<or> pg_db P w' = d"
  by (cases z) (blast dest: commit_ok commit_err)+

lemma pool_read:
  assumes "pool_query P q w = (x, w')" and q: "read_only P q"
  shows "pg_db P w' = pg_db P w"
    and "x = Inr r \<Longrightarrow> \<exists>w1. q (pg_db P w, w) = (Inr r, pg_db P w, w1)"
proof -
  obtain y d' w1 where r: "q (pg_db P w, w) = (y, d', w1)" by (metis prod_cases3)
  have d: "pg_db P w1 = pg_db P w \<and> d' = pg_db P w" using q r by (simp add: read_only_def)
  obtain z w2 where c: "pg_commit P d' w1 = (z, w2)" by fastforce
  have db: "pg_db P w2 = pg_db P w"
    using commit_db [OF c] d by metis
  show "pg_db P w' = pg_db P w" using assms(1) r c d db by (auto simp: pool_query_def split: sum.splits)
  show "\<exists>w1. q (pg_db P w, w) = (Inr r, pg_db P w, w1)" if "x = Inr r"
    using assms(1) r c d that by (auto simp: pool_query_def split: sum.splits)
qed

lemma pool_write_ok:
  assumes "pool_query P q w = (Inr r, w')"
  obtains d' w1 where "q (pg_db P w, w) = (Inr r, d', w1)" "pg_db P w' = d'"
proof -
  obtain y d' w1 where r: "q (pg_db P w, w) = (y, d', w1)" by (metis prod_cases3)
  then show thesis using assms that commit_ok by (auto simp: pool_query_def split: sum.splits prod.splits)
qed

lemma WithTx_ok:
  assumes "WithTx P q w = (Inr r, w')"
  obtains w1 d' w2 where "pg_db P w1 = pg_db P w" "q (pg_db P w, w1) = (Inr r, d', w2)" "pg_db P w' = d'"
proof -
  obtain w1 where b: "pg_begin P None w = (Inr (), w1)"
    using assms by (auto simp: WithTx_def split: prod.splits sum.splits)
  obtain y d' w2 where r: "q (pg_db P w1, w1) = (y, d', w2)" by (metis prod_cases3)
  obtain c w3 where c: "pg_commit P d' w2 = (c, w3)" by fastforce
  have "y = Inr r" "c = Inr ()" "w' = w3"
    using assms b r c by (auto simp: WithTx_def split: sum.splits)
  then show thesis using that begin_db [OF b] r c commit_ok by metis
qed

lemma WithTx_err:
  assumes "WithTx P q w = (Inl e, w')"
    and q: "\<And>d y d' w1 w2. q (d, w1) = (y, d', w2) \<Longrightarrow> pg_db P w2 = pg_db P w1"
  obtains "pg_db P w' = pg_db P w"
  | w1 r d' w2 e' where "pg_db P w1 = pg_db P w" "q (pg_db P w, w1) = (Inr r, d', w2)" "pg_db P w' = d'"
      "e = Wrapf ''store: commit tx: %w'' [e']" "errors_as_pg e' = None"
proof -
  obtain b w1 where b: "pg_begin P None w = (b, w1)" by fastforce
  obtain y d' w2 where r: "q (pg_db P w1, w1) = (y, d', w2)" by (metis prod_cases3)
  obtain c w3 where c: "pg_commit P d' w2 = (c, w3)" by fastforce
  note db = begin_db [OF b] q [OF r]
  show thesis
  proof (cases b; cases y; cases c)
    fix u x e' assume *: "b = Inr u" "y = Inr x" "c = Inl e'"
    then have e: "w' = w3" "e = Wrapf ''store: commit tx: %w'' [e']"
      using assms(1) b r c by (auto simp: WithTx_def)
    show thesis
    proof (cases "errors_as_pg e'")
      case (Some code)
      then show thesis using that(1) e db commit_refused c *(3) by metis
    next
      case None
      then show thesis using that e db commit_err [of d' w2 e' w3] c r * by auto
    qed
  qed (use assms(1) b r c db that(1) in \<open>auto simp: WithTx_def\<close>)
qed

end

section \<open>The canonical form of an identifier\<close>

definition hex_value :: "char \<Rightarrow> nat option" where
  "hex_value c = (let n = of_char c :: nat in
     if 48 \<le> n \<and> n < 58 then Some (n - 48) else if 97 \<le> n \<and> n < 103 then Some (n - 87) else None)"

fun unhex :: "string \<Rightarrow> 8 word list option" where
  "unhex [] = Some []"
| "unhex [c] = None"
| "unhex (c # d # s) =
     (case (hex_value c, hex_value d, unhex s) of
        (Some a, Some b, Some r) \<Rightarrow> Some (word_of_nat (16 * a + b) # r)
      | _ \<Rightarrow> None)"

lemma hex_append [simp]: "hex (xs @ ys) = hex xs @ hex ys"
  by (simp add: hex_def)

lemma length_hex [simp]: "length (hex bs) = 2 * length bs"
  by (induction bs) (auto simp: hex_def)

lemma hex_value_digit: "n < 16 \<Longrightarrow> hex_value (hex_digit n) = Some n"
proof -
  have "list_all (\<lambda>n. hex_value (hex_digit n) = Some n) [0..<16]" by code_simp
  then show "n < 16 \<Longrightarrow> ?thesis" by (simp add: list_all_iff)
qed

lemma unhex_hex [simp]: "unhex (hex bs) = Some bs"
proof (induction bs)
  case (Cons b bs)
  have "unat b div 16 < 16" "unat b mod 16 < 16"
    using unat_less_byte [of b] by (simp_all add: div_less_iff_less_mult)
  then show ?case using Cons by (simp add: hex_def hex_value_digit)
qed (simp add: hex_def)

definition scan_uuid :: "string \<Rightarrow> UUID res" where
  "scan_uuid s =
     (if length s = 36
      then (case unhex (take 8 s @ take 4 (drop 9 s) @ take 4 (drop 14 s) @ take 4 (drop 19 s) @ drop 24 s) of
              Some b \<Rightarrow> if length b = 16 then Inr \<lparr>u_Bytes = b, u_Valid = True\<rparr>
                else Inl (Leaf (OtherErr ''cannot parse UUID''))
            | None \<Rightarrow> Inl (Leaf (OtherErr ''cannot parse UUID'')))
      else Inl (Leaf (OtherErr ''cannot parse UUID'')))"

lemma scan_uuidString: "uuid_ok u \<Longrightarrow> scan_uuid (uuidString u) = Inr u"
proof -
  assume ok: "uuid_ok u"
  define b where "b = u_Bytes u"
  have len: "length b = 16" using ok by (simp add: uuid_ok_def b_def)
  have seg: "take n (drop m b) @ drop (m + n) b = drop m b" for m n
    by (metis append_take_drop_id drop_drop add.commute)
  have "take 6 (drop 10 b) = drop 10 b" using len by simp
  then have "take 4 b @ take 2 (drop 4 b) @ take 2 (drop 6 b) @ take 2 (drop 8 b) @ take 6 (drop 10 b) = b"
    using seg [where m = 4 and n = 2] seg [where m = 6 and n = 2] seg [where m = 8 and n = 2] by simp
  then have "hex (take 4 b) @ hex (take 2 (drop 4 b)) @ hex (take 2 (drop 6 b)) @ hex (take 2 (drop 8 b)) @
      hex (take 6 (drop 10 b)) = hex b"
    by (metis hex_append)
  then show ?thesis
    using ok len by (simp add: scan_uuid_def uuidString_def uuid_ok_def Let_def b_def [symmetric])
qed

lemma uuidString_inject: "uuid_ok u \<Longrightarrow> uuid_ok v \<Longrightarrow> uuidString u = uuidString v \<longleftrightarrow> u = v"
  using scan_uuidString by (metis Inr_inject)

section \<open>The schema is kept\<close>

lemma db_wf_new_user:
  assumes "db_wf d" "user_ok u" "u_ID u \<notin> u_ID ` set (users d)" "u_Username u \<notin> u_Username ` set (users d)"
  shows "db_wf (d\<lparr>users := users d @ [u]\<rparr>)"
  using assms by (auto simp: db_wf_def account_ok_def transfer_ok_def)

lemma db_wf_new_account:
  assumes "db_wf d" "account_ok d a" "a_ID a \<notin> a_ID ` set (accounts d)"
  shows "db_wf (d\<lparr>accounts := accounts d @ [a]\<rparr>)"
  using assms by (auto simp: db_wf_def account_ok_def transfer_ok_def)

lemma db_wf_new_transfer:
  assumes "db_wf d" "transfer_ok d t" "t_ID t \<notin> t_ID ` set (transfers d)"
  shows "db_wf (d\<lparr>transfers := transfers d @ [t]\<rparr>)"
  using assms by (auto simp: db_wf_def account_ok_def transfer_ok_def)

lemma db_wf_map_users:
  assumes "db_wf d" "\<And>u. u_ID (f u) = u_ID u" "\<And>u. u_Username (f u) = u_Username u" "\<And>u. u_Role (f u) = u_Role u"
  shows "db_wf (d\<lparr>users := map f (users d)\<rparr>)"
proof -
  have "map u_ID (map f (users d)) = map u_ID (users d)"
    "map u_Username (map f (users d)) = map u_Username (users d)"
    by (simp_all add: assms(2,3))
  moreover have "u_ID ` f ` set (users d) = u_ID ` set (users d)"
    by (simp add: image_image assms(2))
  ultimately show ?thesis
    using assms unfolding db_wf_def account_ok_def transfer_ok_def user_ok_def by (simp del: map_map)
qed

section \<open>Users\<close>

lemma RegisterUser_WithTx:
  "RegisterUser P params w = (Inr u, w') \<Longrightarrow> \<exists>c. WithTx P (register_tx P params) w = (Inr c, w') \<and>
     u = \<lparr>ID = uuidString (cr_ID c), Username = cr_Username c, Role = cr_Role c\<rparr>"
  "RegisterUser P params w = (Inl e, w') \<Longrightarrow> WithTx P (register_tx P params) w = (Inl e, w')"
  by (auto simp: RegisterUser_def split: prod.splits sum.splits)

context pg_service
begin

lemma register_tx_db: "register_tx P params (d, w) = (y, d', w') \<Longrightarrow> pg_db P w' = pg_db P w"
  unfolding register_tx_def
  by (auto split: prod.splits sum.splits if_splits dest!: CreateUser_err CreateAccount_err CreateAccount_ok(1)
      elim!: CreateUser_ok)

text \<open>A registration that went through: one user, one starter account, nothing else.\<close>

lemma register_tx_ok:
  assumes "register_tx P params (d, w) = (Inr row, d', w')"
  obtains u a where
    "u_ID u = cr_ID row" "u_Username u = nu_Username params" "u_PasswordHash u = nu_PasswordHash params"
    "u_Role u = nu_Role params" "cr_Username row = nu_Username params" "cr_Role row = nu_Role params"
    "user_ok u" "u_ID u \<notin> u_ID ` set (users d)" "u_Username u \<notin> u_Username ` set (users d)"
    "uuid_ok (a_ID a)" "a_ID a \<notin> a_ID ` set (accounts d)" "a_UserID a = u_ID u"
    "a_Name a = starterAccountName" "a_BalanceCents a = starterAccountBalance"
    "d' = d\<lparr>users := users d @ [u], accounts := accounts d @ [a]\<rparr>"
proof -
  obtain d1 w1 a where c: "CreateUser P \<lparr>cu_Username = nu_Username params,
        cu_PasswordHash = nu_PasswordHash params, cu_Role = nu_Role params\<rparr> (d, w) = (Inr row, d1, w1)"
      and ca: "CreateAccount P \<lparr>ca_UserID = cr_ID row, ca_Name = starterAccountName,
        ca_BalanceCents = starterAccountBalance\<rparr> (d1, w1) = (Inr a, d', w')"
    using assms by (auto simp: register_tx_def split: prod.splits sum.splits if_splits)
  note a = CreateAccount_ok [OF ca]
  from c show thesis
  proof (rule CreateUser_ok)
    fix t
    let ?u = "\<lparr>u_ID = cr_ID row, u_Username = nu_Username params, u_PasswordHash = nu_PasswordHash params,
      u_Role = nu_Role params, u_CreatedAt = t, u_UpdatedAt = t\<rparr>"
    assume u: "uuid_ok (cr_ID row)" "cr_ID row \<notin> u_ID ` set (users d)"
      "cu_Username \<lparr>cu_Username = nu_Username params, cu_PasswordHash = nu_PasswordHash params,
         cu_Role = nu_Role params\<rparr> \<notin> u_Username ` set (users d)"
      "cu_Role \<lparr>cu_Username = nu_Username params, cu_PasswordHash = nu_PasswordHash params,
         cu_Role = nu_Role params\<rparr> \<in> {''user'', ''admin''}"
      and row: "row = \<lparr>cr_ID = cr_ID row, cr_Username = cu_Username \<lparr>cu_Username = nu_Username params,
          cu_PasswordHash = nu_PasswordHash params, cu_Role = nu_Role params\<rparr>,
         cr_Role = cu_Role \<lparr>cu_Username = nu_Username params, cu_PasswordHash = nu_PasswordHash params,
          cu_Role = nu_Role params\<rparr>, cr_CreatedAt = t, cr_UpdatedAt = t\<rparr>"
      and d1: "d1 = d\<lparr>users := users d @ [\<lparr>u_ID = cr_ID row,
          u_Username = cu_Username \<lparr>cu_Username = nu_Username params, cu_PasswordHash = nu_PasswordHash params,
            cu_Role = nu_Role params\<rparr>,
          u_PasswordHash = cu_PasswordHash \<lparr>cu_Username = nu_Username params,
            cu_PasswordHash = nu_PasswordHash params, cu_Role = nu_Role params\<rparr>,
          u_Role = cu_Role \<lparr>cu_Username = nu_Username params, cu_PasswordHash = nu_PasswordHash params,
            cu_Role = nu_Role params\<rparr>, u_CreatedAt = t, u_UpdatedAt = t\<rparr>]\<rparr>"
    have "cr_Username row = nu_Username params" "cr_Role row = nu_Role params"
      by (subst row, simp)+
    then show thesis
      by (intro that [of ?u a]) (use u d1 a in \<open>auto simp: user_ok_def\<close>)
  qed
qed

lemma register_tx_wf:
  assumes "register_tx P params (d, w) = (Inr row, d', w')" "db_wf d"
  shows "db_wf d'"
  using assms(1)
proof (rule register_tx_ok)
  fix u a
  assume u: "user_ok u" "u_ID u \<notin> u_ID ` set (users d)" "u_Username u \<notin> u_Username ` set (users d)"
    and a: "uuid_ok (a_ID a)" "a_ID a \<notin> a_ID ` set (accounts d)" "a_UserID a = u_ID u"
      "a_BalanceCents a = starterAccountBalance"
    and d': "d' = d\<lparr>users := users d @ [u], accounts := accounts d @ [a]\<rparr>"
  have "account_ok (d\<lparr>users := users d @ [u]\<rparr>) a"
    using a by (simp add: account_ok_def starterAccountBalance_def)
  from db_wf_new_account [OF db_wf_new_user [OF assms(2) u] this] a(2) show ?thesis
    by (simp add: d')
qed

lemma UserByUsername_db:
  assumes "UserByUsername P n w = (x, w')"
  shows "pg_db P w' = pg_db P w"
    and "x = Inr u \<Longrightarrow> \<exists>row \<in> set (users (pg_db P w)). u_Username row = n \<and> u = with_hash row"
proof -
  obtain y where q: "pool_query P (GetUserByUsername P n) w = (y, w')"
    and x: "x = Inr u \<Longrightarrow> \<exists>row. y = Inr row \<and> u = with_hash row"
    using assms by (auto simp: UserByUsername_def split: prod.splits sum.splits if_splits)
  note r = pool_read [OF q read_only_queries(2)]
  show "pg_db P w' = pg_db P w" by (rule r(1))
  assume "x = Inr u"
  then obtain row w1 where "u = with_hash row" "GetUserByUsername P n (pg_db P w, w) = (Inr row, pg_db P w, w1)"
    using x r(2) by blast
  then show "\<exists>row \<in> set (users (pg_db P w)). u_Username row = n \<and> u = with_hash row"
    by (auto simp: GetUserByUsername_def sent_def find_Some_iff split: prod.splits option.splits)
qed

lemma UserByID_db:
  assumes "UserByID P i w = (x, w')"
  shows "pg_db P w' = pg_db P w"
    and "x = Inr u \<Longrightarrow> \<exists>row \<in> set (users (pg_db P w)). pg_scan_uuid P i = Inr (u_ID row) \<and> u = with_hash row"
proof -
  consider "w' = w" "\<forall>u. x \<noteq> Inr u"
    | uid y where "pg_scan_uuid P i = Inr uid" "pool_query P (GetUserByID P uid) w = (y, w')"
        "\<And>u. x = Inr u \<Longrightarrow> \<exists>row. y = Inr row \<and> u = with_hash row"
    using assms by (auto simp: UserByID_def parseUUID_def split: prod.splits sum.splits if_splits)
  then show "pg_db P w' = pg_db P w"
    and "x = Inr u \<Longrightarrow> \<exists>row \<in> set (users (pg_db P w)). pg_scan_uuid P i = Inr (u_ID row) \<and> u = with_hash row"
  proof (atomize(full), cases)
    case (2 uid y)
    note r = pool_read [OF 2(2) read_only_queries(1)]
    have "\<exists>row \<in> set (users (pg_db P w)). pg_scan_uuid P i = Inr (u_ID row) \<and> u = with_hash row" if xu: "x = Inr u"
    proof -
      obtain row w1 where "u = with_hash row" "GetUserByID P uid (pg_db P w, w) = (Inr row, pg_db P w, w1)"
        using 2(3) [OF xu] r(2) by blast
      then show ?thesis
        using 2(1) by (auto simp: GetUserByID_def sent_def find_Some_iff split: prod.splits option.splits)
    qed
    with r(1) show "pg_db P w' = pg_db P w \<and> (x = Inr u \<longrightarrow>
        (\<exists>row \<in> set (users (pg_db P w)). pg_scan_uuid P i = Inr (u_ID row) \<and> u = with_hash row))"
      by blast
  qed auto
qed

lemma UserByUsername_found:
  assumes "UserByUsername P n w = (x, w')" "row \<in> set (users (pg_db P w))" "u_Username row = n"
  shows "x \<noteq> Inl (Leaf ErrUserNotFound)"
proof
  assume "x = Inl (Leaf ErrUserNotFound)"
  then obtain e where q: "pool_query P (GetUserByUsername P n) w = (Inl e, w')" "errors_is e ErrNoRows"
    using assms(1) by (auto simp: UserByUsername_def split: prod.splits sum.splits if_splits)
  have f: "find (\<lambda>u. u_Username u = n) (users (pg_db P w)) \<noteq> None"
    using assms(2,3) by (auto simp: find_None_iff)
  with q show False using no_rows_is_an_answer
    by (auto simp: pool_query_def GetUserByUsername_def sent_def split: prod.splits option.splits sum.splits)
qed

lemma UserByID_found:
  assumes "UserByID P i w = (x, w')" "row \<in> set (users (pg_db P w))" "pg_scan_uuid P i = Inr (u_ID row)"
  shows "x \<noteq> Inl (Leaf ErrUserNotFound)"
proof
  assume "x = Inl (Leaf ErrUserNotFound)"
  then obtain e where q: "pool_query P (GetUserByID P (u_ID row)) w = (Inl e, w')" "errors_is e ErrNoRows"
    using assms(1,3) by (auto simp: UserByID_def parseUUID_def split: prod.splits sum.splits if_splits)
  have f: "find (\<lambda>u. u_ID u = u_ID row) (users (pg_db P w)) \<noteq> None"
    using assms(2) by (auto simp: find_None_iff)
  with q show False using no_rows_is_an_answer
    by (auto simp: pool_query_def GetUserByID_def sent_def split: prod.splits option.splits sum.splits)
qed

lemma UpdatePassword_ok:
  assumes "UpdatePassword P i h w = (Inr v, w')"
  obtains uid t where "pg_scan_uuid P i = Inr uid" "uid \<in> u_ID ` set (users (pg_db P w))"
    "pg_db P w' = (pg_db P w)\<lparr>users := map (\<lambda>u. if u_ID u = uid
        then u\<lparr>u_PasswordHash := h, u_UpdatedAt := t\<rparr> else u) (users (pg_db P w))\<rparr>"
proof -
  obtain uid y where s: "pg_scan_uuid P i = Inr uid"
    and q: "pool_query P (UpdateUserPassword P \<lparr>up_ID = uid, up_PasswordHash = h\<rparr>) w = (Inr y, w')"
    using assms by (auto simp: UpdatePassword_def parseUUID_def split: prod.splits sum.splits if_splits)
  from q obtain d' w1 where u: "UpdateUserPassword P \<lparr>up_ID = uid, up_PasswordHash = h\<rparr> (pg_db P w, w) = (Inr y, d', w1)"
      "pg_db P w' = d'"
    by (rule pool_write_ok)
  from u(1) show thesis
    by (rule UpdateUserPassword_ok) (use that [OF s] u(2) in \<open>simp cong del: if_weak_cong\<close>)
qed

end

section \<open>The admin listings\<close>

text \<open>Each account of a well-formed database joins exactly one owner.\<close>

lemma ListAllAccounts_rows_accounts:
  assumes "db_wf d"
  shows "map (\<lambda>r. (la_ID r, la_Name r, la_BalanceCents r)) (ListAllAccounts_rows d) =
    map (\<lambda>a. (a_ID a, a_Name a, a_BalanceCents a)) (accounts d)"
proof -
  have one: "\<exists>u. filter (\<lambda>u. u_ID u = a_UserID a) (users d) = [u]" if "a \<in> set (accounts d)" for a
  proof -
    obtain u where "u \<in> set (users d)" "a_UserID a = u_ID u"
      using assms \<open>a \<in> set (accounts d)\<close> by (auto simp: db_wf_def account_ok_def)
    then show ?thesis using filter_key [of u_ID "users d" u] assms by (auto simp: db_wf_def)
  qed
  have "map (\<lambda>r. (la_ID r, la_Name r, la_BalanceCents r))
      (concat (map (\<lambda>a. map (\<lambda>u. \<lparr>la_ID = a_ID a, la_OwnerUsername = u_Username u, la_Name = a_Name a,
          la_BalanceCents = a_BalanceCents a, la_CreatedAt = a_CreatedAt a\<rparr>)
        (filter (\<lambda>u. u_ID u = a_UserID a) (users d))) as)) =
      map (\<lambda>a. (a_ID a, a_Name a, a_BalanceCents a)) as" if "set as \<subseteq> set (accounts d)" for as
    using that
  proof (induction as)
    case (Cons a as)
    then obtain u where "filter (\<lambda>u. u_ID u = a_UserID a) (users d) = [u]" using one by auto
    with Cons show ?case by simp
  qed simp
  then show ?thesis by (simp add: ListAllAccounts_rows_def)
qed

section \<open>A database in memory\<close>

record appmem = seeded +
  mem_db :: db
  mem_next :: nat

definition mem_uuid :: "nat \<Rightarrow> UUID" where
  "mem_uuid n = \<lparr>u_Bytes = replicate 15 0 @ [word_of_nat n], u_Valid = True\<rparr>"

definition mem_pg :: "'a appmem_scheme pg" where
  "mem_pg = \<lparr>pg_db = mem_db, pg_send = (\<lambda>w. (None, w)),
     pg_uuid = (\<lambda>w. (mem_uuid (mem_next w), w\<lparr>mem_next := Suc (mem_next w)\<rparr>)),
     pg_now = mem_now, pg_collate = map of_char, pg_begin = (\<lambda>lvl w. (Inr (), w)),
     pg_commit = (\<lambda>d w. (Inr (), w\<lparr>mem_db := d\<rparr>)), pg_scan_uuid = scan_uuid\<rparr>"

interpretation mem_pg: pg_service mem_pg
proof (unfold_locales, goal_cases)
  case (9 u)
  then show ?case by (simp add: mem_pg_def scan_uuidString)
next
  case (10 s u)
  then show ?case
    by (auto simp: mem_pg_def scan_uuid_def uuid_ok_def split: option.splits if_splits)
qed (auto simp: mem_pg_def mem_uuid_def uuid_ok_def)

definition app_start :: appmem where
  "app_start = \<lparr>mem_now = 0, mem_keys = Map.empty, mem_seed = 7,
     mem_db = \<lparr>users = [], accounts = [], transfers = []\<rparr>, mem_next = 1\<rparr>"

definition new_alice :: NewUser where
  "new_alice = \<lparr>nu_Username = ''alice'', nu_PasswordHash = ''$2a$pw'', nu_Role = ''user''\<rparr>"

definition app_alice :: appmem where
  "app_alice = snd (RegisterUser mem_pg new_alice app_start)"

lemma app_start_db [simp]: "pg_db mem_pg app_start = \<lparr>users = [], accounts = [], transfers = []\<rparr>"
  by (simp add: mem_pg_def app_start_def)

lemma db_wf_empty [simp]: "db_wf \<lparr>users = [], accounts = [], transfers = []\<rparr>"
  by (simp add: db_wf_def)

section \<open>What a registration leaves\<close>

lemma registered_rows:
  assumes "pg_service P" and "db_wf (pg_db P w)" and "RegisterUser P params w = (Inr u, w')"
  obtains row acct where "pg_db P w' = (pg_db P w)\<lparr>users := users (pg_db P w) @ [row],
      accounts := accounts (pg_db P w) @ [acct]\<rparr>" "users (pg_db P w') = users (pg_db P w) @ [row]"
    "db_wf (pg_db P w')"
    "u = \<lparr>ID = uuidString (u_ID row), Username = nu_Username params, Role = nu_Role params\<rparr>"
    "u_Username row = nu_Username params" "u_PasswordHash row = nu_PasswordHash params"
    "u_Role row = nu_Role params" "nu_Username params \<notin> u_Username ` set (users (pg_db P w))"
    "a_UserID acct = u_ID row" "a_BalanceCents acct = 100000"
proof -
  obtain c where tx: "WithTx P (register_tx P params) w = (Inr c, w')"
    and u: "u = \<lparr>ID = uuidString (cr_ID c), Username = cr_Username c, Role = cr_Role c\<rparr>"
    using RegisterUser_WithTx(1) [OF assms(3)] by blast
  obtain w1 d' w2 where r: "register_tx P params (pg_db P w, w1) = (Inr c, d', w2)" and d: "pg_db P w' = d'"
    using pg_service.WithTx_ok [OF assms(1) tx] by metis
  have wf: "db_wf d'" by (rule pg_service.register_tx_wf [OF assms(1) r assms(2)])
  from r show thesis
  proof (rule pg_service.register_tx_ok [OF assms(1)], goal_cases)
    case (1 row acct)
    show ?case
      by (rule that [of acct row]) (use 1 u d wf in \<open>simp_all add: starterAccountBalance_def\<close>)
  qed
qed

section \<open>Properties\<close>

text \<open>
  C16: registration. A call of \<^verbatim>\<open>RegisterUser\<close> that succeeds adds one user with the given name,
  hash and role, whose name was free, and one account of 100000 cents that belongs to it; it
  changes nothing else, keeps the schema, and returns the identifier of the new row.
\<close>

theorem RegisterUser_creates_user_and_account:
  assumes "pg_service P" and "db_wf (pg_db P w)" and "RegisterUser P params w = (Inr u, w')"
  shows "\<exists>row acct. pg_db P w' = (pg_db P w)\<lparr>users := users (pg_db P w) @ [row],
      accounts := accounts (pg_db P w) @ [acct]\<rparr> \<and> db_wf (pg_db P w') \<and>
    u = \<lparr>ID = uuidString (u_ID row), Username = nu_Username params, Role = nu_Role params\<rparr> \<and>
    u_Username row = nu_Username params \<and> u_PasswordHash row = nu_PasswordHash params \<and>
    u_Role row = nu_Role params \<and> nu_Username params \<notin> u_Username ` set (users (pg_db P w)) \<and>
    a_UserID acct = u_ID row \<and> a_BalanceCents acct = 100000"
proof (rule registered_rows [OF assms], goal_cases)
  case (1 row acct)
  show ?case by (intro exI [of _ row] exI [of _ acct]) (use 1 in simp)
qed

theorem RegisterUser_creates_user_and_account_witness:
  "db_wf (pg_db mem_pg app_alice) \<and>
   (\<exists>row acct. users (pg_db mem_pg app_alice) = [row] \<and> u_Username row = ''alice'' \<and>
     accounts (pg_db mem_pg app_alice) = [acct] \<and> a_BalanceCents acct = 100000)"
proof -
  have "\<not> isl (fst (RegisterUser mem_pg new_alice app_start))" by code_simp
  then have "RegisterUser mem_pg new_alice app_start =
      (Inr (projr (fst (RegisterUser mem_pg new_alice app_start))), app_alice)"
    by (simp add: app_alice_def prod_eq_iff)
  from RegisterUser_creates_user_and_account [OF mem_pg.pg_service_axioms _ this]
  show ?thesis by (auto simp: new_alice_def)
qed

text \<open>
  C29: registration is all or nothing. When \<^verbatim>\<open>RegisterUser\<close> fails, the tables are as before, or the
  connection was lost while committing (the one failure that leaves the outcome open) and both the
  user and the account are there; there is never a user without an account.
\<close>

theorem RegisterUser_failure_is_atomic:
  assumes "pg_service P" and "RegisterUser P params w = (Inl e, w')"
  shows "pg_db P w' = pg_db P w \<or>
    (\<exists>row acct e'. pg_db P w' = (pg_db P w)\<lparr>users := users (pg_db P w) @ [row],
        accounts := accounts (pg_db P w) @ [acct]\<rparr> \<and> a_UserID acct = u_ID row \<and>
      e = Wrapf ''store: commit tx: %w'' [e'] \<and> errors_as_pg e' = None)"
proof -
  note tx = RegisterUser_WithTx(2) [OF assms(2)]
  from assms(1) tx show ?thesis
  proof (rule pg_service.WithTx_err)
    show "pg_db P w2 = pg_db P w1" if "register_tx P params (d, w1) = (y, d', w2)" for d y d' w1 w2
      by (rule pg_service.register_tx_db [OF assms(1) that])
  next
    fix w1 r d' w2 e'
    assume r: "register_tx P params (pg_db P w, w1) = (Inr r, d', w2)" and d: "pg_db P w' = d'"
      and e: "e = Wrapf ''store: commit tx: %w'' [e']" "errors_as_pg e' = None"
    from r show ?thesis
    proof (rule pg_service.register_tx_ok [OF assms(1)], goal_cases)
      case (1 row acct)
      have "pg_db P w' = (pg_db P w)\<lparr>users := users (pg_db P w) @ [row],
          accounts := accounts (pg_db P w) @ [acct]\<rparr>" "a_UserID acct = u_ID row"
        using 1(12,15) d by simp_all
      with e show ?case by blast
    qed
  qed simp
qed

theorem RegisterUser_failure_is_atomic_witness:
  "pg_db mem_pg (snd (RegisterUser mem_pg new_alice app_alice)) = pg_db mem_pg app_alice"
proof -
  have e: "fst (RegisterUser mem_pg new_alice app_alice) = Inl (Leaf ErrUsernameTaken)" by code_simp
  then have "RegisterUser mem_pg new_alice app_alice =
      (Inl (Leaf ErrUsernameTaken), snd (RegisterUser mem_pg new_alice app_alice))"
    by (simp add: prod_eq_iff)
  from RegisterUser_failure_is_atomic [OF mem_pg.pg_service_axioms this] show ?thesis by simp
qed

text \<open>
  C30: a user name is registered once. When the name is already there, and the database answers,
  \<^verbatim>\<open>RegisterUser\<close> returns \<^verbatim>\<open>ErrUsernameTaken\<close> and the tables are as before.
\<close>

theorem RegisterUser_duplicate_name:
  assumes "pg_service P" and "nu_Username params \<in> u_Username ` set (users (pg_db P w))"
    and "nu_Role params \<in> {''user'', ''admin''}"
    and "pg_begin P None w = (Inr (), w1)" and "pg_send P w1 = (None, w2)"
    and "RegisterUser P params w = (x, w')"
  shows "x = Inl (Leaf ErrUsernameTaken) \<and> pg_db P w' = pg_db P w"
proof -
  have d: "pg_db P w1 = pg_db P w" "pg_db P w2 = pg_db P w1"
    using pg_service.begin_db [OF assms(1,4)] pg_service.send_db [OF assms(1,5)] by simp_all
  obtain i w3 where i: "pg_uuid P w2 = (i, w3)" by fastforce
  have "register_tx P params (pg_db P w1, w1) = (Inl (Leaf ErrUsernameTaken), pg_db P w1, w3)"
    using assms(2,3,5) i d
    by (auto simp: register_tx_def CreateUser_def sent_def Let_def isUniqueViolation_def)
  then have "x = Inl (Leaf ErrUsernameTaken)" "w' = w3"
    using assms(4,6) by (auto simp: RegisterUser_def WithTx_def)
  then show ?thesis using pg_service.uuid_db [OF assms(1) i] d by simp
qed

theorem RegisterUser_duplicate_name_witness:
  "fst (RegisterUser mem_pg new_alice app_alice) = Inl (Leaf ErrUsernameTaken)"
proof -
  have "u_Username ` set (users (pg_db mem_pg app_alice)) = {''alice''}" by code_simp
  then show ?thesis
    using RegisterUser_duplicate_name [OF mem_pg.pg_service_axioms _ _ _ _ prod.collapse [symmetric],
        of new_alice app_alice app_alice app_alice]
    by (simp add: new_alice_def mem_pg_def)
qed

text \<open>
  What was registered is found. After a registration, a lookup of the name and a lookup of the
  returned identifier do not report a missing user, and what they return is the registered user
  with its hash.
\<close>

theorem registered_user_is_found:
  assumes "pg_service P" and "db_wf (pg_db P w)" and "RegisterUser P params w = (Inr u, w')"
    and "UserByUsername P (nu_Username params) w' = (x, w1)" and "UserByID P (ID u) w' = (y, w2)"
  shows "x \<noteq> Inl (Leaf ErrUserNotFound) \<and> y \<noteq> Inl (Leaf ErrUserNotFound) \<and>
    (\<forall>r. x = Inr r \<or> y = Inr r \<longrightarrow> r = \<lparr>ID = ID u, Username = nu_Username params, Role = nu_Role params,
      PasswordHash = nu_PasswordHash params\<rparr>)"
proof -
  obtain row acct where d: "users (pg_db P w') = users (pg_db P w) @ [row]" and wf: "db_wf (pg_db P w')"
      and u: "u = \<lparr>ID = uuidString (u_ID row), Username = nu_Username params, Role = nu_Role params\<rparr>"
      and row: "u_Username row = nu_Username params" "u_PasswordHash row = nu_PasswordHash params"
        "u_Role row = nu_Role params"
    using registered_rows [OF assms(1-3)] by metis
  have mem: "row \<in> set (users (pg_db P w'))" using d by simp
  have ok: "uuid_ok (u_ID row)" "distinct (map u_ID (users (pg_db P w')))"
      "distinct (map u_Username (users (pg_db P w')))"
    using wf mem by (auto simp: db_wf_def user_ok_def)
  note scan = pg_service.scan_canonical [OF assms(1) ok(1)]
  have w: "with_hash row = \<lparr>ID = ID u, Username = nu_Username params, Role = nu_Role params,
      PasswordHash = nu_PasswordHash params\<rparr>"
    using u row by (simp add: with_hash_def)
  have "r = with_hash row" if "x = Inr r" for r
    using pg_service.UserByUsername_db(2) [OF assms(1,4) that] mem row(1) ok(3)
    by (metis find_key option.inject)
  moreover have "r = with_hash row" if "y = Inr r" for r
    using pg_service.UserByID_db(2) [OF assms(1,5) that] mem scan u ok(2)
    by (metis User.select_convs(1) Inr_inject find_key option.inject)
  moreover have "x \<noteq> Inl (Leaf ErrUserNotFound)"
    using pg_service.UserByUsername_found [OF assms(1,4) mem row(1)] .
  moreover have "y \<noteq> Inl (Leaf ErrUserNotFound)"
    using pg_service.UserByID_found [OF assms(1,5) mem] scan u by simp
  ultimately show ?thesis using w by auto
qed

theorem registered_user_is_found_witness:
  "fst (UserByUsername mem_pg ''alice'' app_alice) = Inr \<lparr>ID = uuidString (mem_uuid 1), Username = ''alice'',
     Role = ''user'', PasswordHash = ''$2a$pw''\<rparr>"
proof -
  have i: "fst (RegisterUser mem_pg new_alice app_start) =
      Inr \<lparr>ID = uuidString (mem_uuid 1), Username = ''alice'', Role = ''user''\<rparr>" by code_simp
  have ok: "\<not> isl (fst (UserByUsername mem_pg ''alice'' app_alice))" by code_simp
  have r: "RegisterUser mem_pg new_alice app_start =
      (Inr \<lparr>ID = uuidString (mem_uuid 1), Username = ''alice'', Role = ''user''\<rparr>, app_alice)"
    using i by (simp add: app_alice_def prod_eq_iff)
  have "\<forall>r. fst (UserByUsername mem_pg (nu_Username new_alice) app_alice) = Inr r \<longrightarrow>
      r = \<lparr>ID = uuidString (mem_uuid 1), Username = ''alice'', Role = ''user'', PasswordHash = ''$2a$pw''\<rparr>"
    using registered_user_is_found [OF mem_pg.pg_service_axioms _ r prod.collapse [symmetric] prod.collapse [symmetric]]
    by (simp add: new_alice_def)
  with ok show ?thesis by (cases "fst (UserByUsername mem_pg ''alice'' app_alice)") (auto simp: new_alice_def)
qed

text \<open>
  Changing a password. \<^verbatim>\<open>UpdatePassword\<close> that succeeds gives the user with that identifier the
  new hash and leaves every other user, the names, the roles, the accounts and the ledger as they
  were; a later lookup by the identifier that succeeds returns the new hash.
\<close>

theorem UpdatePassword_replaces_hash:
  assumes "pg_service P" and "db_wf (pg_db P w)" and "UpdatePassword P i h w = (Inr (), w')"
    and "UserByID P i w' = (x, w2)"
  shows "accounts (pg_db P w') = accounts (pg_db P w) \<and> transfers (pg_db P w') = transfers (pg_db P w) \<and>
    db_wf (pg_db P w') \<and> x \<noteq> Inl (Leaf ErrUserNotFound) \<and> (\<forall>r. x = Inr r \<longrightarrow> PasswordHash r = h) \<and>
    (\<exists>uid \<in> u_ID ` set (users (pg_db P w)). pg_scan_uuid P i = Inr uid \<and>
      list_all2 (\<lambda>u u'. u_ID u' = u_ID u \<and> u_Username u' = u_Username u \<and> u_Role u' = u_Role u \<and>
        u_PasswordHash u' = (if u_ID u = uid then h else u_PasswordHash u))
        (users (pg_db P w)) (users (pg_db P w')))"
proof (rule pg_service.UpdatePassword_ok [OF assms(1,3)], goal_cases)
  case (1 uid t)
  let ?f = "\<lambda>u. if u_ID u = uid then u\<lparr>u_PasswordHash := h, u_UpdatedAt := t\<rparr> else u"
  have wf: "db_wf (pg_db P w')" unfolding 1(3) by (rule db_wf_map_users [OF assms(2)]) auto
  have u: "users (pg_db P w') = map ?f (users (pg_db P w))" using 1(3) by simp
  have "PasswordHash r = h" if xr: "x = Inr r" for r
  proof -
    obtain row where row: "row \<in> set (users (pg_db P w'))" "u_ID row = uid" "r = with_hash row"
      using pg_service.UserByID_db(2) [OF assms(1,4) xr] 1(1) by auto
    have "row \<in> ?f ` set (users (pg_db P w))" using row(1) unfolding u set_map .
    then obtain u0 where "row = ?f u0" by blast
    with row(2,3) show ?thesis by (auto simp: with_hash_def split: if_splits)
  qed
  moreover obtain row where "row \<in> set (users (pg_db P w'))" "u_ID row = uid"
  proof -
    obtain u0 where "u0 \<in> set (users (pg_db P w))" "u_ID u0 = uid" using 1(2) by auto
    then show thesis using that [of "?f u0"] unfolding u by simp
  qed
  then have "x \<noteq> Inl (Leaf ErrUserNotFound)"
    using pg_service.UserByID_found [OF assms(1,4)] 1(1) by simp
  moreover have "list_all2 (\<lambda>u u'. u_ID u' = u_ID u \<and> u_Username u' = u_Username u \<and> u_Role u' = u_Role u \<and>
        u_PasswordHash u' = (if u_ID u = uid then h else u_PasswordHash u))
        (users (pg_db P w)) (users (pg_db P w'))"
    unfolding u by (simp add: list_all2_conv_all_nth)
  ultimately show ?case using wf 1 by auto
qed

theorem UpdatePassword_replaces_hash_witness:
  "PasswordHash (projr (fst (UserByID mem_pg (uuidString (mem_uuid 1))
     (snd (UpdatePassword mem_pg (uuidString (mem_uuid 1)) ''$2a$new'' app_alice))))) = ''$2a$new''"
proof -
  let ?x = "UserByID mem_pg (uuidString (mem_uuid 1))
    (snd (UpdatePassword mem_pg (uuidString (mem_uuid 1)) ''$2a$new'' app_alice))"
  have "fst (UpdatePassword mem_pg (uuidString (mem_uuid 1)) ''$2a$new'' app_alice) = Inr ()" by code_simp
  then have u: "UpdatePassword mem_pg (uuidString (mem_uuid 1)) ''$2a$new'' app_alice =
      (Inr (), snd (UpdatePassword mem_pg (uuidString (mem_uuid 1)) ''$2a$new'' app_alice))"
    by (simp add: prod_eq_iff)
  have wf: "db_wf (pg_db mem_pg app_alice)" by code_simp
  have "isl (fst ?x) = False" by code_simp
  then have "fst ?x = Inr (projr (fst ?x))" by simp
  then show ?thesis
    using UpdatePassword_replaces_hash [OF mem_pg.pg_service_axioms wf u prod.collapse [symmetric]] by blast
qed

text \<open>
  The admin listing of accounts is complete. Whatever the collation, the rows returned are
  exactly the accounts of the database, each once, with its name and balance; so the balances
  listed add up to the money in the system.
\<close>

theorem ListAllAccounts_lists_every_account_once:
  assumes "pg_service P" and "db_wf (pg_db P w)" and "ListAllAccounts_admin P w = (Inr rows, w')"
  shows "mset (map (\<lambda>r. (aa_ID r, aa_Name r, aa_BalanceCents r)) rows) =
      mset (map (\<lambda>a. (uuidString (a_ID a), a_Name a, a_BalanceCents a)) (accounts (pg_db P w))) \<and>
    sum_list (map aa_BalanceCents rows) = sum_list (map a_BalanceCents (accounts (pg_db P w))) \<and>
    pg_db P w' = pg_db P w"
proof -
  obtain rs where q: "pool_query P (ListAllAccounts P) w = (Inr rs, w')"
    and rows: "rows = map (\<lambda>row. \<lparr>aa_ID = uuidString (la_ID row), aa_OwnerUsername = la_OwnerUsername row,
      aa_Name = la_Name row, aa_BalanceCents = la_BalanceCents row, aa_CreatedAt = la_CreatedAt row\<rparr>) rs"
    using assms(3) by (auto simp: ListAllAccounts_admin_def split: prod.splits sum.splits)
  note r = pg_service.pool_read [OF assms(1) q pg_service.read_only_queries(6) [OF assms(1)]]
  have "mset rs = mset (ListAllAccounts_rows (pg_db P w))"
    using r(2) by (auto simp: ListAllAccounts_def sent_def split: prod.splits option.splits)
  then have m: "image_mset (\<lambda>r. (la_ID r, la_Name r, la_BalanceCents r)) (mset rs) =
      mset (map (\<lambda>a. (a_ID a, a_Name a, a_BalanceCents a)) (accounts (pg_db P w)))"
    using ListAllAccounts_rows_accounts [OF assms(2)] by (simp flip: mset_map)
  have "mset (map (\<lambda>r. (aa_ID r, aa_Name r, aa_BalanceCents r)) rows) =
      image_mset (\<lambda>(i, n, b). (uuidString i, n, b)) (image_mset (\<lambda>r. (la_ID r, la_Name r, la_BalanceCents r)) (mset rs))"
    by (simp add: rows image_mset.compositionality comp_def)
  then have 1: "mset (map (\<lambda>r. (aa_ID r, aa_Name r, aa_BalanceCents r)) rows) =
      mset (map (\<lambda>a. (uuidString (a_ID a), a_Name a, a_BalanceCents a)) (accounts (pg_db P w)))"
    by (simp add: m image_mset.compositionality comp_def)
  have "image_mset (\<lambda>(i, n, b). b) (mset (map (\<lambda>r. (aa_ID r, aa_Name r, aa_BalanceCents r)) rows)) =
      image_mset (\<lambda>(i, n, b). b) (mset (map (\<lambda>a. (uuidString (a_ID a), a_Name a, a_BalanceCents a)) (accounts (pg_db P w))))"
    by (simp only: 1)
  then have "mset (map aa_BalanceCents rows) = mset (map a_BalanceCents (accounts (pg_db P w)))"
    by (simp add: image_mset.compositionality comp_def)
  then have "sum_list (map aa_BalanceCents rows) = sum_list (map a_BalanceCents (accounts (pg_db P w)))"
    by (metis sum_mset_sum_list)
  with 1 r(1) show ?thesis by simp
qed

theorem ListAllAccounts_lists_every_account_once_witness:
  "sum_list (map aa_BalanceCents (projr (fst (ListAllAccounts_admin mem_pg app_alice)))) = 100000"
proof -
  have "\<not> isl (fst (ListAllAccounts_admin mem_pg app_alice))" by code_simp
  then have l: "ListAllAccounts_admin mem_pg app_alice =
      (Inr (projr (fst (ListAllAccounts_admin mem_pg app_alice))), snd (ListAllAccounts_admin mem_pg app_alice))"
    by (simp add: prod_eq_iff)
  have wf: "db_wf (pg_db mem_pg app_alice)"
    and "sum_list (map a_BalanceCents (accounts (pg_db mem_pg app_alice))) = 100000" by code_simp+
  with ListAllAccounts_lists_every_account_once [OF mem_pg.pg_service_axioms wf l] show ?thesis by simp
qed

end
