(* ===== verification/Store_Transfer.thy ===== *)
theory Store_Transfer
  imports Store
begin

text \<open>
  \<^verbatim>\<open>internal/store/transfer.go\<close>: money transfers in one transaction, with the whole transaction
  replayed on a serialization failure or a deadlock, up to a budget.

  The record \<open>'w rt\<close> holds what the retry loop takes from the runtime: the random source of
  \<^verbatim>\<open>math/rand/v2\<close> and the \<^verbatim>\<open>select\<close> between the timer and the cancellation of the request
  (\<open>Some err\<close>: cancelled first, with \<^verbatim>\<open>ctx.Err()\<close>).
\<close>

section \<open>Data and operations\<close>

record 'w rt =
  rt_Int64N :: "int \<Rightarrow> 'w \<Rightarrow> int \<times> 'w"
  rt_After :: "Duration \<Rightarrow> 'w \<Rightarrow> goerr option \<times> 'w"

definition serializationFailureCode :: string where
  "serializationFailureCode = ''40001''"

definition deadlockDetectedCode :: string where
  "deadlockDetectedCode = ''40P01''"

definition defaultTransferMaxRetries :: int where
  "defaultTransferMaxRetries = 5"

definition transferRetryBaseBackoff :: Duration where
  "transferRetryBaseBackoff = 1 * Millisecond"

definition transferRetryMaxBackoff :: Duration where
  "transferRetryMaxBackoff = 50 * Millisecond"

definition backoff_bound :: "int \<Rightarrow> Duration" where
  "backoff_bound attempt =
     (let maxDelay = wrap64 (push_bit (nat (attempt - 1)) transferRetryBaseBackoff)
      in if maxDelay \<le> 0 \<or> maxDelay > transferRetryMaxBackoff then transferRetryMaxBackoff else maxDelay)"

definition retryBackoff :: "'w rt \<Rightarrow> int \<Rightarrow> 'w \<Rightarrow> Duration \<times> 'w" where
  "retryBackoff T attempt w = rt_Int64N T (backoff_bound attempt) w"

record TransferParams =
  tp_SessionUserID :: string
  tp_FromAccountID :: string
  tp_ToAccountID :: string
  tp_AmountCents :: int
  tp_Isolation :: string
  tp_HoldMs :: int
  tp_MaxRetries :: int

record TransferResult =
  tr_TransferID :: string
  tr_FromAccountID :: string
  tr_ToAccountID :: string
  tr_FromBalanceCents :: int
  tr_ToBalanceCents :: int
  tr_AmountCents :: int
  tr_CreatedAt :: Time
  tr_Attempts :: int

definition isolationLevel :: "string \<Rightarrow> TxIsoLevel" where
  "isolationLevel name =
     (if name = ''repeatable-read'' then RepeatableRead
      else if name = ''read-committed'' then ReadCommitted
      else Serializable)"

definition isRetryableConflict :: "goerr \<Rightarrow> bool" where
  "isRetryableConflict err =
     (case errors_as_pg err of
        None \<Rightarrow> False
      | Some code \<Rightarrow> code = serializationFailureCode \<or> code = deadlockDetectedCode)"

text \<open>The two maps built from the locked rows; a later row with the same key would win.\<close>

definition balances_of :: "GetAccountsForUpdateRow list \<Rightarrow> string \<Rightarrow> int option" where
  "balances_of rows = foldl (\<lambda>m row. m(uuidString (gf_ID row) \<mapsto> gf_BalanceCents row)) Map.empty rows"

definition owners_of :: "GetAccountsForUpdateRow list \<Rightarrow> string \<Rightarrow> string option" where
  "owners_of rows = foldl (\<lambda>m row. m(uuidString (gf_ID row) \<mapsto> uuidString (gf_UserID row))) Map.empty rows"

definition hold :: "'w pg \<Rightarrow> int \<Rightarrow> ('w, unit) query" where
  "hold P holdMs s =
     (if holdMs > 0
      then (case sent P (\<lambda>(d, w). (Inr (), d, w)) s of
              (Inl err, s1) \<Rightarrow> (Inl (Wrapf ''store: hold transfer: %w'' [err]), s1)
            | (Inr _, s1) \<Rightarrow> (Inr (), s1))
      else (Inr (), s))"

text \<open>The statements of one attempt, between begin and commit.\<close>

definition transfer_tx ::
    "'w pg \<Rightarrow> TransferParams \<Rightarrow> UUID \<Rightarrow> UUID \<Rightarrow> ('w, int \<times> int \<times> InsertTransferRow) query" where
  "transfer_tx P params fromID toID s =
     (case GetAccountsForUpdate P [fromID, toID] s of
        (Inl err, s1) \<Rightarrow> (Inl (Wrapf ''store: lock accounts: %w'' [err]), s1)
      | (Inr locked, s1) \<Rightarrow>
     (case balances_of locked (tp_FromAccountID params) of
        None \<Rightarrow> (Inl (Leaf ErrAccountNotFound), s1)
      | Some fromBalance \<Rightarrow>
          if balances_of locked (tp_ToAccountID params) = None then (Inl (Leaf ErrAccountNotFound), s1)
          else if (case owners_of locked (tp_FromAccountID params) of Some o' \<Rightarrow> o' | None \<Rightarrow> '''')
                    \<noteq> tp_SessionUserID params then (Inl (Leaf ErrNotAccountOwner), s1)
          else if fromBalance < tp_AmountCents params then (Inl (Leaf ErrInsufficientFunds), s1)
          else
     (case hold P (tp_HoldMs params) s1 of
        (Inl err, s2) \<Rightarrow> (Inl err, s2)
      | (Inr _, s2) \<Rightarrow>
     (case AdjustBalance P \<lparr>ab_DeltaCents = wrap64 (- tp_AmountCents params), ab_ID = fromID\<rparr> s2 of
        (Inl err, s3) \<Rightarrow> (Inl (Wrapf ''store: debit source: %w'' [err]), s3)
      | (Inr newFrom, s3) \<Rightarrow>
     (case AdjustBalance P \<lparr>ab_DeltaCents = tp_AmountCents params, ab_ID = toID\<rparr> s3 of
        (Inl err, s4) \<Rightarrow> (Inl (Wrapf ''store: credit destination: %w'' [err]), s4)
      | (Inr newTo, s4) \<Rightarrow>
     (case InsertTransfer P \<lparr>it_FromAccountID = fromID, it_ToAccountID = toID,
                             it_AmountCents = tp_AmountCents params\<rparr> s4 of
        (Inl err, s5) \<Rightarrow> (Inl (Wrapf ''store: record transfer: %w'' [err]), s5)
      | (Inr ledger, s5) \<Rightarrow> (Inr (newFrom, newTo, ledger), s5)))))))"

definition transferOnce ::
    "'w pg \<Rightarrow> TxIsoLevel \<Rightarrow> TransferParams \<Rightarrow> UUID \<Rightarrow> UUID \<Rightarrow> UUID \<Rightarrow> ('w, TransferResult) act" where
  "transferOnce P isoLevel params fromID toID ownerID w =
     (case pg_begin P (Some isoLevel) w of
        (Inl err, w1) \<Rightarrow> (Inl (Wrapf ''store: begin transfer tx: %w'' [err]), w1)
      | (Inr _, w1) \<Rightarrow>
     (case transfer_tx P params fromID toID (pg_db P w1, w1) of
        (Inl err, d, w2) \<Rightarrow> (Inl err, w2)
      | (Inr (newFrom, newTo, ledger), d, w2) \<Rightarrow>
     (case pg_commit P d w2 of
        (Inl err, w3) \<Rightarrow>
          (if isRetryableConflict err then (Inl err, w3)
           else (Inl (Wrapf ''store: commit transfer: %w'' [err]), w3))
      | (Inr _, w3) \<Rightarrow>
          (Inr \<lparr>tr_TransferID = uuidString (ir_ID ledger), tr_FromAccountID = tp_FromAccountID params,
                tr_ToAccountID = tp_ToAccountID params, tr_FromBalanceCents = newFrom,
                tr_ToBalanceCents = newTo, tr_AmountCents = tp_AmountCents params,
                tr_CreatedAt = ir_CreatedAt ledger, tr_Attempts = 0\<rparr>, w3))))"

text \<open>
  The retry loop: the first argument counts the attempts that are left, so \<^verbatim>\<open>attempt < maxRetries\<close>
  is that one more is left after this one.
\<close>

fun transfer_loop ::
    "'w rt \<Rightarrow> ('w, TransferResult) act \<Rightarrow> nat \<Rightarrow> int \<Rightarrow> ('w, TransferResult) act" where
  "transfer_loop T once 0 attempt w = (Inl (Wrapf ''%w: %d attempts: %v'' [Leaf ErrRetriesExhausted]), w)"
| "transfer_loop T once (Suc left) attempt w =
     (case once w of
        (Inr result, w1) \<Rightarrow> (Inr (result\<lparr>tr_Attempts := attempt\<rparr>), w1)
      | (Inl err, w1) \<Rightarrow>
          if \<not> isRetryableConflict err then (Inl err, w1)
          else if left = 0 then transfer_loop T once left (attempt + 1) w1
          else (case retryBackoff T attempt w1 of (d, w2) \<Rightarrow>
                 (case rt_After T d w2 of
                    (Some ctxErr, w3) \<Rightarrow> (Inl (Wrapf ''%w: %w'' [ctxErr, err]), w3)
                  | (None, w3) \<Rightarrow> transfer_loop T once left (attempt + 1) w3)))"

definition Transfer :: "'w pg \<Rightarrow> 'w rt \<Rightarrow> TransferParams \<Rightarrow> ('w, TransferResult) act" where
  "Transfer P T params w =
     (if tp_AmountCents params \<le> 0 then (Inl (Leaf ErrInvalidTransfer), w)
      else if tp_FromAccountID params = tp_ToAccountID params then (Inl (Leaf ErrInvalidTransfer), w)
      else
     (case parseUUID P (tp_FromAccountID params) of
        Inl _ \<Rightarrow> (Inl (Leaf ErrAccountNotFound), w)
      | Inr fromID \<Rightarrow>
     (case parseUUID P (tp_ToAccountID params) of
        Inl _ \<Rightarrow> (Inl (Leaf ErrAccountNotFound), w)
      | Inr toID \<Rightarrow>
     (case parseUUID P (tp_SessionUserID params) of
        Inl _ \<Rightarrow> (Inl (Leaf ErrNotAccountOwner), w)
      | Inr ownerID \<Rightarrow>
          (let maxRetries = (if tp_MaxRetries params \<le> 0 then defaultTransferMaxRetries
                             else tp_MaxRetries params);
               isoLevel = isolationLevel (tp_Isolation params)
           in transfer_loop T (transferOnce P isoLevel params fromID toID ownerID)
                (nat maxRetries) 1 w)))))"

section \<open>The locked rows\<close>

lemma foldl_upd_Some:
  "foldl (\<lambda>m x. m(k x \<mapsto> v x)) m0 xs s = Some b \<Longrightarrow> m0 s = Some b \<or> (\<exists>x \<in> set xs. k x = s \<and> v x = b)"
proof (induction xs arbitrary: m0)
  case (Cons x xs)
  then show ?case using Cons.IH [of "m0(k x \<mapsto> v x)"] by (auto split: if_splits)
qed simp

lemma foldl_upd_None:
  "foldl (\<lambda>m x. m(k x \<mapsto> v x)) m0 xs s = None \<longleftrightarrow> m0 s = None \<and> s \<notin> k ` set xs"
proof (induction xs arbitrary: m0)
  case (Cons x xs)
  show ?case using Cons.IH [of "m0(k x \<mapsto> v x)"] by auto
qed simp

definition locked_row :: "Account \<Rightarrow> GetAccountsForUpdateRow" where
  "locked_row a = \<lparr>gf_ID = a_ID a, gf_UserID = a_UserID a, gf_BalanceCents = a_BalanceCents a\<rparr>"

lemma balances_of_Some:
  "balances_of (map locked_row as) s = Some b \<Longrightarrow> \<exists>a \<in> set as. uuidString (a_ID a) = s \<and> a_BalanceCents a = b"
  unfolding balances_of_def by (drule foldl_upd_Some) (auto simp: locked_row_def)

lemma balances_of_None: "balances_of (map locked_row as) s = None \<longleftrightarrow> s \<notin> (\<lambda>a. uuidString (a_ID a)) ` set as"
  unfolding balances_of_def foldl_upd_None by (simp add: image_image locked_row_def)

lemma owners_of_Some:
  "owners_of (map locked_row as) s = Some b \<Longrightarrow> \<exists>a \<in> set as. uuidString (a_ID a) = s \<and> uuidString (a_UserID a) = b"
  unfolding owners_of_def by (drule foldl_upd_Some) (auto simp: locked_row_def)

lemma owners_of_None: "owners_of (map locked_row as) s = None \<longleftrightarrow> s \<notin> (\<lambda>a. uuidString (a_ID a)) ` set as"
  unfolding owners_of_def foldl_upd_None by (simp add: image_image locked_row_def)

text \<open>The accounts a transfer locks.\<close>

definition locked_accounts :: "db \<Rightarrow> UUID list \<Rightarrow> Account list" where
  "locked_accounts d ids = sort_key (\<lambda>a. uuid_key (a_ID a)) (filter (\<lambda>a. a_ID a \<in> set ids) (accounts d))"

lemma set_locked_accounts [simp]: "set (locked_accounts d ids) = {a \<in> set (accounts d). a_ID a \<in> set ids}"
  by (simp add: locked_accounts_def)

text \<open>Looking an account up by its canonical name is looking it up by its identifier.\<close>

lemma locked_lookup:
  assumes "db_wf d" "a \<in> set (accounts d)" "a_ID a \<in> set ids"
  shows "balances_of (map locked_row (locked_accounts d ids)) (uuidString (a_ID a)) = Some (a_BalanceCents a)"
    and "owners_of (map locked_row (locked_accounts d ids)) (uuidString (a_ID a)) = Some (uuidString (a_UserID a))"
proof -
  have same: "b = a" if "b \<in> set (accounts d)" "uuidString (a_ID b) = uuidString (a_ID a)" for b
  proof -
    have "uuid_ok (a_ID a)" "uuid_ok (a_ID b)" "distinct (map a_ID (accounts d))"
      using assms(1,2) that(1) by (auto simp: db_wf_def account_ok_def)
    then show ?thesis using that assms(2) uuidString_inject by (metis distinct_map inj_onD)
  qed
  let ?l = "map locked_row (locked_accounts d ids)"
  have "balances_of ?l (uuidString (a_ID a)) \<noteq> None" "owners_of ?l (uuidString (a_ID a)) \<noteq> None"
    using assms(2,3) by (auto simp: balances_of_None owners_of_None)
  then obtain b o' where b: "balances_of ?l (uuidString (a_ID a)) = Some b"
      "owners_of ?l (uuidString (a_ID a)) = Some o'" by auto
  show "balances_of ?l (uuidString (a_ID a)) = Some (a_BalanceCents a)"
    using balances_of_Some [OF b(1)] b(1) same by auto
  show "owners_of ?l (uuidString (a_ID a)) = Some (uuidString (a_UserID a))"
    using owners_of_Some [OF b(2)] b(2) same by auto
qed

section \<open>One adjustment\<close>

definition adjusted :: "UUID \<Rightarrow> int \<Rightarrow> Time \<Rightarrow> Account \<Rightarrow> Account" where
  "adjusted i delta t a =
     (if a_ID a = i then a\<lparr>a_BalanceCents := a_BalanceCents a + delta, a_UpdatedAt := t\<rparr> else a)"

lemma adjusted_simps [simp]:
  "a_ID (adjusted i delta t a) = a_ID a" "a_UserID (adjusted i delta t a) = a_UserID a"
  "a_Name (adjusted i delta t a) = a_Name a"
  "a_BalanceCents (adjusted i delta t a) = a_BalanceCents a + (if a_ID a = i then delta else 0)"
  by (simp_all add: adjusted_def)

definition total :: "db \<Rightarrow> int" where
  "total d = sum_list (map a_BalanceCents (accounts d))"

lemma total_adjusted:
  assumes "distinct (map a_ID (accounts d))" "i \<in> a_ID ` set (accounts d)"
  shows "total (d\<lparr>accounts := map (adjusted i delta t) (accounts d)\<rparr>) = total d + delta"
proof -
  have "sum_list (map a_BalanceCents (map (adjusted i delta t) as)) =
      sum_list (map a_BalanceCents as) + (if i \<in> a_ID ` set as then delta else 0)"
    if "distinct (map a_ID as)" for as
    using that by (induction as) auto
  with assms show ?thesis by (simp add: total_def del: map_map)
qed

lemma db_wf_adjusted:
  assumes "db_wf d" "\<And>a. a \<in> set (accounts d) \<Longrightarrow> a_ID a = i \<Longrightarrow> 0 \<le> a_BalanceCents a + delta \<and> a_BalanceCents a + delta < 2 ^ 63"
  shows "db_wf (d\<lparr>accounts := map (adjusted i delta t) (accounts d)\<rparr>)"
proof -
  have ids: "map a_ID (map (adjusted i delta t) (accounts d)) = map a_ID (accounts d)" by simp
  have img: "a_ID ` adjusted i delta t ` set (accounts d) = a_ID ` set (accounts d)"
    by (simp add: image_image)
  show ?thesis
    using assms unfolding db_wf_def account_ok_def transfer_ok_def
    by (simp add: ids img del: map_map)
qed

context pg_service
begin

lemma AdjustBalance_ok:
  assumes "AdjustBalance P arg (d, w) = (Inr b, d', w')" "db_wf d"
  obtains a t where "a \<in> set (accounts d)" "a_ID a = ab_ID arg" "b = a_BalanceCents a + ab_DeltaCents arg"
    "0 \<le> b" "b < 2 ^ 63" "d' = d\<lparr>accounts := map (adjusted (ab_ID arg) (ab_DeltaCents arg) t) (accounts d)\<rparr>"
    "db_wf d'" "pg_db P w' = pg_db P w"
proof -
  obtain w1 a where w1: "pg_db P w1 = pg_db P w" "w' = w1"
    and f: "find (\<lambda>a. a_ID a = ab_ID arg) (accounts d) = Some a"
    and b: "b = a_BalanceCents a + ab_DeltaCents arg" "0 \<le> b" "is_int64 b"
    and d': "d' = d\<lparr>accounts := map (\<lambda>a. if a_ID a = ab_ID arg
        then a\<lparr>a_BalanceCents := a_BalanceCents a + ab_DeltaCents arg, a_UpdatedAt := pg_now P w1\<rparr> else a) (accounts d)\<rparr>"
    using assms(1) unfolding AdjustBalance_def
    by - (erule sent_ok, auto simp: Let_def split: option.splits if_splits)
  have a: "a \<in> set (accounts d)" "a_ID a = ab_ID arg" using f by (auto simp: find_Some_iff)
  have d'': "d' = d\<lparr>accounts := map (adjusted (ab_ID arg) (ab_DeltaCents arg) (pg_now P w1)) (accounts d)\<rparr>"
    unfolding d' adjusted_def ..
  have lt: "b < 2 ^ 63" using b(3) by (simp add: is_int64_def)
  have "c = a" if "c \<in> set (accounts d)" "a_ID c = ab_ID arg" for c
    using that a assms(2) by (metis db_wf_def distinct_map inj_onD)
  then have "db_wf d'" unfolding d'' using b lt by (intro db_wf_adjusted [OF assms(2)]) auto
  with that [OF a b(1,2) lt d''] w1 show thesis by simp
qed

lemma AdjustBalance_db: "AdjustBalance P arg (d, w) = (x, d', w') \<Longrightarrow> pg_db P w' = pg_db P w"
  by (auto simp: AdjustBalance_def sent_def Let_def split: prod.splits option.splits if_splits dest!: send_db)

lemma InsertTransfer_ok:
  assumes "InsertTransfer P arg (d, w) = (Inr row, d', w')"
  obtains t where "pg_db P w' = pg_db P w" "d' = d\<lparr>transfers := transfers d @ [t]\<rparr>" "transfer_ok d t"
    "t_ID t = ir_ID row" "t_ID t \<notin> t_ID ` set (transfers d)" "t_FromAccountID t = it_FromAccountID arg"
    "t_ToAccountID t = it_ToAccountID arg" "t_AmountCents t = it_AmountCents arg" "t_CreatedAt t = ir_CreatedAt row"
proof -
  obtain w1 where w1: "pg_db P w1 = pg_db P w" and
    f: "(case pg_uuid P w1 of (i, w2) \<Rightarrow>
       (let t = pg_now P w2;
            r = \<lparr>t_ID = i, t_FromAccountID = it_FromAccountID arg, t_ToAccountID = it_ToAccountID arg,
                 t_AmountCents = it_AmountCents arg, t_CreatedAt = t\<rparr>
        in if it_AmountCents arg \<le> 0 then (Inl (sql_error check_violation), d, w2)
           else if i \<in> t_ID ` set (transfers d) then (Inl (sql_error uniqueViolationCode), d, w2)
           else if it_FromAccountID arg \<notin> a_ID ` set (accounts d) \<or>
                   it_ToAccountID arg \<notin> a_ID ` set (accounts d)
             then (Inl (sql_error foreign_key_violation), d, w2)
           else (Inr \<lparr>ir_ID = i, ir_CreatedAt = t\<rparr>, d\<lparr>transfers := transfers d @ [r]\<rparr>, w2))) = (Inr row, d', w')"
    using assms unfolding InsertTransfer_def by (rule sent_ok) auto
  obtain i w2 where i: "pg_uuid P w1 = (i, w2)" by fastforce
  let ?t = "\<lparr>t_ID = i, t_FromAccountID = it_FromAccountID arg, t_ToAccountID = it_ToAccountID arg,
      t_AmountCents = it_AmountCents arg, t_CreatedAt = pg_now P w2\<rparr>"
  show thesis
    by (rule that [of ?t])
      (use f i uuid_db [OF i] w1 in \<open>auto simp: Let_def transfer_ok_def split: if_splits\<close>)
qed

lemma InsertTransfer_db: "InsertTransfer P arg (d, w) = (x, d', w') \<Longrightarrow> pg_db P w' = pg_db P w"
  by (auto simp: InsertTransfer_def sent_def Let_def split: prod.splits option.splits if_splits
      dest!: send_db uuid_db)

lemma hold_effect: "hold P ms (d, w) = (x, d', w') \<Longrightarrow> d' = d \<and> pg_db P w' = pg_db P w"
  by (auto simp: hold_def sent_def split: if_splits prod.splits option.splits sum.splits dest!: send_db)

lemma GetAccountsForUpdate_effect:
  assumes "GetAccountsForUpdate P ids (d, w) = (x, d', w')"
  shows "d' = d" "pg_db P w' = pg_db P w" "x = Inr rows \<Longrightarrow> rows = map locked_row (locked_accounts d ids)"
  using assms by (auto simp: GetAccountsForUpdate_def sent_def locked_accounts_def locked_row_def
      split: prod.splits option.splits dest!: send_db)

end

section \<open>The specification of a transfer\<close>

text \<open>
  What a transfer means: the source loses the amount, the destination gains it, every other
  account, owner and name stays, the users stay, and the ledger gets one entry for it.
\<close>

definition moved :: "UUID \<Rightarrow> UUID \<Rightarrow> int \<Rightarrow> db \<Rightarrow> db \<Rightarrow> bool" where
  "moved fromID toID amount d d' \<longleftrightarrow>
     users d' = users d \<and>
     list_all2 (\<lambda>a a'. a_ID a' = a_ID a \<and> a_UserID a' = a_UserID a \<and> a_Name a' = a_Name a \<and>
         a_BalanceCents a' = a_BalanceCents a + (if a_ID a = fromID then - amount else 0) +
           (if a_ID a = toID then amount else 0)) (accounts d) (accounts d') \<and>
     (\<exists>t. transfers d' = transfers d @ [t] \<and> t_FromAccountID t = fromID \<and> t_ToAccountID t = toID \<and>
       t_AmountCents t = amount)"

text \<open>The request as the first checks leave it: parsed, positive, two different names.\<close>

definition parsed :: "'w pg \<Rightarrow> TransferParams \<Rightarrow> UUID \<Rightarrow> UUID \<Rightarrow> bool" where
  "parsed P params fromID toID \<longleftrightarrow>
     0 < tp_AmountCents params \<and> tp_AmountCents params < 2 ^ 63 \<and>
     tp_FromAccountID params \<noteq> tp_ToAccountID params \<and>
     pg_scan_uuid P (tp_FromAccountID params) = Inr fromID \<and>
     pg_scan_uuid P (tp_ToAccountID params) = Inr toID"

definition may_transfer :: "TransferParams \<Rightarrow> UUID \<Rightarrow> UUID \<Rightarrow> db \<Rightarrow> bool" where
  "may_transfer params fromID toID d \<longleftrightarrow>
     fromID \<noteq> toID \<and>
     (\<exists>a \<in> set (accounts d). a_ID a = fromID \<and> uuidString (a_UserID a) = tp_SessionUserID params \<and>
       tp_AmountCents params \<le> a_BalanceCents a) \<and>
     toID \<in> a_ID ` set (accounts d)"

context pg_service
begin

text \<open>The checks pass only for two distinct accounts of the table, by their canonical names.\<close>

lemma locked_by_name:
  assumes "db_wf d" "balances_of (map locked_row (locked_accounts d [fromID, toID])) s = Some b"
    and "pg_scan_uuid P s = Inr i"
  obtains a where "a \<in> set (accounts d)" "a_ID a = i" "s = uuidString i" "b = a_BalanceCents a" "i \<in> {fromID, toID}"
proof -
  obtain a where a: "a \<in> set (accounts d)" "a_ID a \<in> {fromID, toID}" "uuidString (a_ID a) = s" "a_BalanceCents a = b"
    using balances_of_Some [OF assms(2)] by auto
  have "uuid_ok (a_ID a)" using assms(1) a(1) by (auto simp: db_wf_def account_ok_def)
  then have "pg_scan_uuid P s = Inr (a_ID a)" using scan_canonical a(3) by metis
  with that a assms(3) show thesis by auto
qed

lemma transfer_tx_steps:
  assumes run: "transfer_tx P params fromID toID (d, w) = (Inr (newFrom, newTo, ledger), d', w')"
  obtains b w2 d3 w3 d4 w4 where
    "balances_of (map locked_row (locked_accounts d [fromID, toID])) (tp_FromAccountID params) = Some b"
    "balances_of (map locked_row (locked_accounts d [fromID, toID])) (tp_ToAccountID params) \<noteq> None"
    "(case owners_of (map locked_row (locked_accounts d [fromID, toID])) (tp_FromAccountID params) of
        Some o' \<Rightarrow> o' | None \<Rightarrow> '''') = tp_SessionUserID params"
    "tp_AmountCents params \<le> b" "pg_db P w2 = pg_db P w"
    "AdjustBalance P \<lparr>ab_DeltaCents = wrap64 (- tp_AmountCents params), ab_ID = fromID\<rparr> (d, w2) = (Inr newFrom, d3, w3)"
    "AdjustBalance P \<lparr>ab_DeltaCents = tp_AmountCents params, ab_ID = toID\<rparr> (d3, w3) = (Inr newTo, d4, w4)"
    "InsertTransfer P \<lparr>it_FromAccountID = fromID, it_ToAccountID = toID,
       it_AmountCents = tp_AmountCents params\<rparr> (d4, w4) = (Inr ledger, d', w')"
proof -
  let ?l = "map locked_row (locked_accounts d [fromID, toID])"
  obtain x d1 w1 where g: "GetAccountsForUpdate P [fromID, toID] (d, w) = (x, d1, w1)" by (metis prod_cases3)
  note g' = GetAccountsForUpdate_effect [OF g]
  obtain rows where x: "x = Inr rows" using run g by (cases x) (auto simp: transfer_tx_def)
  have rows: "rows = ?l" using g'(3) x by simp
  obtain b where b: "balances_of ?l (tp_FromAccountID params) = Some b"
    using run g x rows by (auto simp: transfer_tx_def split: option.splits)
  have chk: "balances_of ?l (tp_ToAccountID params) \<noteq> None"
      "(case owners_of ?l (tp_FromAccountID params) of Some o' \<Rightarrow> o' | None \<Rightarrow> '''') = tp_SessionUserID params"
      "tp_AmountCents params \<le> b"
    using run g x rows b by (auto simp: transfer_tx_def split: if_splits)
  obtain y d2 w2 where h: "hold P (tp_HoldMs params) (d1, w1) = (y, d2, w2)" by (metis prod_cases3)
  have y: "y = Inr ()" using run g x rows b chk h by (cases y) (auto simp: transfer_tx_def)
  note h' = hold_effect [OF h]
  have "(case AdjustBalance P \<lparr>ab_DeltaCents = wrap64 (- tp_AmountCents params), ab_ID = fromID\<rparr> (d, w2) of
        (Inl err, s3) \<Rightarrow> (Inl (Wrapf ''store: debit source: %w'' [err]), s3)
      | (Inr newFrom, s3) \<Rightarrow>
     (case AdjustBalance P \<lparr>ab_DeltaCents = tp_AmountCents params, ab_ID = toID\<rparr> s3 of
        (Inl err, s4) \<Rightarrow> (Inl (Wrapf ''store: credit destination: %w'' [err]), s4)
      | (Inr newTo, s4) \<Rightarrow>
     (case InsertTransfer P \<lparr>it_FromAccountID = fromID, it_ToAccountID = toID,
                             it_AmountCents = tp_AmountCents params\<rparr> s4 of
        (Inl err, s5) \<Rightarrow> (Inl (Wrapf ''store: record transfer: %w'' [err]), s5)
      | (Inr ledger, s5) \<Rightarrow> (Inr (newFrom, newTo, ledger), s5)))) = (Inr (newFrom, newTo, ledger), d', w')"
    using run g x rows b chk h y g'(1) h' by (simp add: transfer_tx_def not_less)
  then obtain d3 w3 d4 w4 where
    "AdjustBalance P \<lparr>ab_DeltaCents = wrap64 (- tp_AmountCents params), ab_ID = fromID\<rparr> (d, w2) = (Inr newFrom, d3, w3)"
    "AdjustBalance P \<lparr>ab_DeltaCents = tp_AmountCents params, ab_ID = toID\<rparr> (d3, w3) = (Inr newTo, d4, w4)"
    "InsertTransfer P \<lparr>it_FromAccountID = fromID, it_ToAccountID = toID,
       it_AmountCents = tp_AmountCents params\<rparr> (d4, w4) = (Inr ledger, d', w')"
    by (auto split: prod.splits sum.splits)
  with that b chk g'(2) h' show thesis by metis
qed

lemma transfer_tx_ok:
  assumes run: "transfer_tx P params fromID toID (d, w) = (Inr (newFrom, newTo, ledger), d', w')"
    and wf: "db_wf d" and p: "parsed P params fromID toID"
  shows "pg_db P w' = pg_db P w \<and> db_wf d' \<and> moved fromID toID (tp_AmountCents params) d d' \<and>
    may_transfer params fromID toID d \<and> total d' = total d \<and>
    (\<exists>a \<in> set (accounts d'). a_ID a = fromID \<and> a_BalanceCents a = newFrom) \<and>
    (\<exists>a \<in> set (accounts d'). a_ID a = toID \<and> a_BalanceCents a = newTo) \<and>
    (\<exists>t \<in> set (transfers d'). t_ID t = ir_ID ledger \<and> t_CreatedAt t = ir_CreatedAt ledger)"
  using run
proof (rule transfer_tx_steps, goal_cases)
  case (1 b w2 d3 w3 d4 w4)
  let ?amt = "tp_AmountCents params"
  have neg: "wrap64 (- ?amt) = - ?amt"
    using p by (intro wrap64_id) (auto simp: parsed_def is_int64_def)
  obtain c where c: "balances_of (map locked_row (locked_accounts d [fromID, toID])) (tp_ToAccountID params) = Some c"
    using 1(2) by blast
  have scan: "pg_scan_uuid P (tp_FromAccountID params) = Inr fromID" "pg_scan_uuid P (tp_ToAccountID params) = Inr toID"
    using p by (auto simp: parsed_def)
  obtain a where a: "a \<in> set (accounts d)" "a_ID a = fromID" "tp_FromAccountID params = uuidString fromID" "b = a_BalanceCents a"
    by (rule locked_by_name [OF wf 1(1) scan(1)])
  obtain a' where a': "a' \<in> set (accounts d)" "a_ID a' = toID" "tp_ToAccountID params = uuidString toID"
    by (rule locked_by_name [OF wf c scan(2)])
  have ne: "fromID \<noteq> toID" using a(3) a'(3) p by (auto simp: parsed_def)
  have own: "uuidString (a_UserID a) = tp_SessionUserID params"
    using locked_lookup(2) [OF wf a(1), of "[fromID, toID]"] a 1(3) by simp
  have may: "may_transfer params fromID toID d"
    using ne a a' own 1(4) unfolding may_transfer_def by blast
  from 1(6) wf show ?case
  proof (rule AdjustBalance_ok, goal_cases)
    case f: (1 x t)
    from 1(7) f(7) show ?case
    proof (rule AdjustBalance_ok, goal_cases)
      case g: (1 y u)
      from 1(8) show ?case
      proof (rule InsertTransfer_ok, goal_cases)
        case i: (1 l)
        have acc: "accounts d' = map (adjusted toID ?amt u \<circ> adjusted fromID (- ?amt) t) (accounts d)"
          using i(2) g(6) f(6) neg by simp
        have "moved fromID toID ?amt d d'"
          unfolding moved_def acc using i g(6) f(6) ne
          by (auto simp: list_all2_conv_all_nth)
        moreover have "total d' = total d"
        proof -
          have "total d3 = total d - ?amt"
            using total_adjusted [of d fromID "- ?amt" t] a wf f(6) neg by (auto simp: db_wf_def)
          moreover have "total d4 = total d3 + ?amt"
            using total_adjusted [of d3 toID ?amt u] g(1,2) f(7) g(6) by (auto simp: db_wf_def)
          ultimately show ?thesis using i(2) by (simp add: total_def)
        qed
        moreover have "\<exists>a \<in> set (accounts d'). a_ID a = fromID \<and> a_BalanceCents a = newFrom"
          unfolding acc using f(1-3) ne neg by auto
        moreover have "\<exists>a \<in> set (accounts d'). a_ID a = toID \<and> a_BalanceCents a = newTo"
        proof -
          have "accounts d' = map (adjusted toID ?amt u) (accounts d3)" using i(2) g(6) by simp
          then show ?thesis using g(1-3) by auto
        qed
        moreover have "db_wf d'" unfolding i(2) by (rule db_wf_new_transfer [OF g(7) i(3,5)])
        moreover have "\<exists>t \<in> set (transfers d'). t_ID t = ir_ID ledger \<and> t_CreatedAt t = ir_CreatedAt ledger"
          using i(2,4,9) by auto
        ultimately show ?case using may i(1) g(8) f(8) 1(5) by simp
      qed
    qed
  qed
qed

lemma transfer_tx_db:
  assumes "transfer_tx P params fromID toID (d, w) = (x, d', w')"
  shows "pg_db P w' = pg_db P w"
proof -
  obtain g d1 w1 where g: "GetAccountsForUpdate P [fromID, toID] (d, w) = (g, d1, w1)" by (metis prod_cases3)
  obtain h d2 w2 where h: "hold P (tp_HoldMs params) (d1, w1) = (h, d2, w2)" by (metis prod_cases3)
  obtain a d3 w3 where a: "AdjustBalance P \<lparr>ab_DeltaCents = wrap64 (- tp_AmountCents params), ab_ID = fromID\<rparr> (d2, w2) = (a, d3, w3)"
    by (metis prod_cases3)
  obtain c d4 w4 where c: "AdjustBalance P \<lparr>ab_DeltaCents = tp_AmountCents params, ab_ID = toID\<rparr> (d3, w3) = (c, d4, w4)"
    by (metis prod_cases3)
  obtain i d5 w5 where i: "InsertTransfer P \<lparr>it_FromAccountID = fromID, it_ToAccountID = toID,
       it_AmountCents = tp_AmountCents params\<rparr> (d4, w4) = (i, d5, w5)" by (metis prod_cases3)
  have "w' \<in> {w1, w2, w3, w4, w5}"
    using assms(1) g h a c i by (auto simp: transfer_tx_def split: sum.splits option.splits if_splits)
  moreover have "pg_db P w1 = pg_db P w" "pg_db P w2 = pg_db P w1"
    using GetAccountsForUpdate_effect(2) [OF g] hold_effect [OF h] by auto
  moreover have "pg_db P w3 = pg_db P w2" "pg_db P w4 = pg_db P w3" "pg_db P w5 = pg_db P w4"
    using AdjustBalance_db [OF a] AdjustBalance_db [OF c] InsertTransfer_db [OF i] .
  ultimately show ?thesis by auto
qed

end

section \<open>One attempt\<close>

definition commit_lost :: "goerr \<Rightarrow> bool" where
  "commit_lost e \<longleftrightarrow> (\<exists>e'. e = Wrapf ''store: commit transfer: %w'' [e'] \<and> errors_as_pg e' = None)"

lemma commit_lost_not_retryable: "commit_lost e \<Longrightarrow> \<not> isRetryableConflict e"
  by (auto simp: commit_lost_def isRetryableConflict_def)

text \<open>What a committed transfer guarantees of the tables before and after it.\<close>

definition settled :: "TransferParams \<Rightarrow> UUID \<Rightarrow> UUID \<Rightarrow> db \<Rightarrow> db \<Rightarrow> bool" where
  "settled params fromID toID d d' \<longleftrightarrow>
     db_wf d' \<and> moved fromID toID (tp_AmountCents params) d d' \<and> may_transfer params fromID toID d \<and>
     total d' = total d"

definition reported :: "TransferParams \<Rightarrow> UUID \<Rightarrow> UUID \<Rightarrow> db \<Rightarrow> TransferResult \<Rightarrow> bool" where
  "reported params fromID toID d r \<longleftrightarrow>
     tr_FromAccountID r = tp_FromAccountID params \<and> tr_ToAccountID r = tp_ToAccountID params \<and>
     tr_AmountCents r = tp_AmountCents params \<and>
     (\<exists>a \<in> set (accounts d). a_ID a = fromID \<and> a_BalanceCents a = tr_FromBalanceCents r) \<and>
     (\<exists>a \<in> set (accounts d). a_ID a = toID \<and> a_BalanceCents a = tr_ToBalanceCents r) \<and>
     (\<exists>t \<in> set (transfers d). uuidString (t_ID t) = tr_TransferID r \<and> t_CreatedAt t = tr_CreatedAt r)"

context pg_service
begin

lemma transferOnce_ok:
  assumes run: "transferOnce P lvl params fromID toID ownerID w = (Inr r, w')"
    and wf: "db_wf (pg_db P w)" and p: "parsed P params fromID toID"
  shows "settled params fromID toID (pg_db P w) (pg_db P w')" and "reported params fromID toID (pg_db P w') r"
proof -
  obtain w1 where b: "pg_begin P (Some lvl) w = (Inr (), w1)"
    using run by (auto simp: transferOnce_def split: prod.splits sum.splits)
  note d1 = begin_db [OF b]
  obtain nf nt l d w2 where tx: "transfer_tx P params fromID toID (pg_db P w, w1) = (Inr (nf, nt, l), d, w2)"
    and c: "pg_commit P d w2 = (Inr (), w')"
    and r: "r = \<lparr>tr_TransferID = uuidString (ir_ID l), tr_FromAccountID = tp_FromAccountID params,
                tr_ToAccountID = tp_ToAccountID params, tr_FromBalanceCents = nf,
                tr_ToBalanceCents = nt, tr_AmountCents = tp_AmountCents params,
                tr_CreatedAt = ir_CreatedAt l, tr_Attempts = 0\<rparr>"
    using run b d1 by (auto simp: transferOnce_def split: prod.splits sum.splits if_splits)
  note ok = transfer_tx_ok [OF tx wf p]
  have "pg_db P w' = d" by (rule commit_ok [OF c])
  then show "settled params fromID toID (pg_db P w) (pg_db P w')" and "reported params fromID toID (pg_db P w') r"
    using ok r by (auto simp: settled_def reported_def intro: bexI [rotated])
qed

lemma transferOnce_conflict:
  assumes run: "transferOnce P lvl params fromID toID ownerID w = (Inl e, w')" and e: "isRetryableConflict e"
  shows "pg_db P w' = pg_db P w"
proof -
  obtain b w1 where b: "pg_begin P (Some lvl) w = (b, w1)" by fastforce
  obtain y d w2 where tx: "transfer_tx P params fromID toID (pg_db P w1, w1) = (y, d, w2)" by (metis prod_cases3)
  obtain c w3 where c: "pg_commit P d w2 = (c, w3)" by fastforce
  consider "w' = w1" | "w' = w2" | "c = Inl e" "w' = w3"
    | e' where "e = Wrapf ''store: commit transfer: %w'' [e']" "\<not> isRetryableConflict e'"
    using run b tx c by (auto simp: transferOnce_def split: sum.splits if_splits)
  then show ?thesis
  proof cases
    case 3
    then obtain code where "errors_as_pg e = Some code"
      using e by (auto simp: isRetryableConflict_def split: option.splits)
    then have "pg_db P w3 = pg_db P w2" using commit_refused [of d w2 e w3 code] c 3 by simp
    then show ?thesis using 3 begin_db [OF b] transfer_tx_db [OF tx] by simp
  next
    case (4 e')
    then show ?thesis using e by (auto simp: isRetryableConflict_def split: option.splits)
  qed (use begin_db [OF b] transfer_tx_db [OF tx] in auto)
qed

lemma transferOnce_err:
  assumes run: "transferOnce P lvl params fromID toID ownerID w = (Inl e, w')"
    and wf: "db_wf (pg_db P w)" and p: "parsed P params fromID toID"
  shows "pg_db P w' = pg_db P w \<or> commit_lost e \<and> settled params fromID toID (pg_db P w) (pg_db P w')"
proof -
  obtain b w1 where b: "pg_begin P (Some lvl) w = (b, w1)" by fastforce
  note d1 = begin_db [OF b]
  obtain y d w2 where tx: "transfer_tx P params fromID toID (pg_db P w1, w1) = (y, d, w2)" by (metis prod_cases3)
  note d2 = transfer_tx_db [OF tx]
  obtain c w3 where c: "pg_commit P d w2 = (c, w3)" by fastforce
  consider "w' = w1" | "w' = w2"
    | nf nt l e' where "y = Inr (nf, nt, l)" "c = Inl e'" "w' = w3"
        "isRetryableConflict e' \<or> e = Wrapf ''store: commit transfer: %w'' [e']"
    using run b tx c by (auto simp: transferOnce_def split: sum.splits if_splits)
  then show ?thesis
  proof cases
    case (3 nf nt l e')
    show ?thesis
    proof (cases "errors_as_pg e'")
      case (Some code)
      then show ?thesis using commit_refused [of d w2 e' w3 code] c 3 d1 d2 by simp
    next
      case None
      have "transfer_tx P params fromID toID (pg_db P w, w1) = (Inr (nf, nt, l), d, w2)" using tx 3(1) d1 by simp
      note ok = transfer_tx_ok [OF this wf p]
      have "\<not> isRetryableConflict e'" using None by (simp add: isRetryableConflict_def)
      then have "commit_lost e" using 3(4) None by (simp add: commit_lost_def)
      then show ?thesis using commit_err [of d w2 e' w3] c 3(2,3) d1 d2 ok by (auto simp: settled_def)
    qed
  qed (use d1 d2 in auto)
qed

end

section \<open>The retry loop\<close>

text \<open>
  The loop by itself: nobody else changes the tables while it waits. Attempts of several callers are
  interleaved in \<open>Store_Locks\<close>.
\<close>

locale retry_service = pg_service P for P :: "'w pg" +
  fixes T :: "'w rt"
  assumes Int64N_db: "rt_Int64N T n w = (k, w') \<Longrightarrow> pg_db P w' = pg_db P w"
    and After_db: "rt_After T dur w = (c, w') \<Longrightarrow> pg_db P w' = pg_db P w"
begin

lemma retryBackoff_db: "retryBackoff T attempt w = (k, w') \<Longrightarrow> pg_db P w' = pg_db P w"
  by (auto simp: retryBackoff_def dest: Int64N_db)

text \<open>
  The last attempt decides: the ones before it failed with a conflict and left the tables alone.
\<close>

lemma transfer_loop_last:
  assumes "transfer_loop T once n k w = (x, w')"
    and conflict: "\<And>w e w'. once w = (Inl e, w') \<Longrightarrow> isRetryableConflict e \<Longrightarrow> pg_db P w' = pg_db P w"
  shows "case x of
      Inr r \<Rightarrow> \<exists>w1 r0 k'. pg_db P w1 = pg_db P w \<and> once w1 = (Inr r0, w') \<and> r = r0\<lparr>tr_Attempts := k'\<rparr> \<and>
        k \<le> k' \<and> k' < k + int n
    | Inl e \<Rightarrow> pg_db P w' = pg_db P w \<or>
        (\<exists>w1. pg_db P w1 = pg_db P w \<and> once w1 = (Inl e, w') \<and> \<not> isRetryableConflict e)"
  using assms(1)
proof (induction n arbitrary: k w)
  case (Suc n)
  obtain y w1 where o: "once w = (y, w1)" by fastforce
  show ?case
  proof (cases y)
    case (Inr r0)
    then have "x = Inr (r0\<lparr>tr_Attempts := k\<rparr>)" "w' = w1" using Suc.prems o by auto
    then show ?thesis using o Inr by fastforce
  next
    case (Inl e)
    show ?thesis
    proof (cases "isRetryableConflict e")
      case False
      then have "x = Inl e" "w' = w1" using Suc.prems o Inl by auto
      then show ?thesis using o Inl False by auto
    next
      case True
      have d1: "pg_db P w1 = pg_db P w" using conflict o Inl True by blast
      obtain d w2 where b: "retryBackoff T k w1 = (d, w2)" by fastforce
      obtain c w3 where a: "rt_After T d w2 = (c, w3)" by fastforce
      have d3: "pg_db P w2 = pg_db P w" "pg_db P w3 = pg_db P w"
        using retryBackoff_db [OF b] After_db [OF a] d1 by simp_all
      consider "transfer_loop T once n (k + 1) w1 = (x, w')" | "transfer_loop T once n (k + 1) w3 = (x, w')"
        | ce where "x = Inl (Wrapf ''%w: %w'' [ce, e])" "w' = w3"
        using Suc.prems o Inl True b a by (cases c) (auto split: if_splits)
      then show ?thesis
      proof cases
        case 1
        from Suc.IH [OF 1] d1 show ?thesis by (cases x) fastforce+
      next
        case 2
        from Suc.IH [OF 2] d3 show ?thesis by (cases x) fastforce+
      qed (use d3 in simp)
    qed
  qed
qed auto

end

definition budget :: "TransferParams \<Rightarrow> int" where
  "budget params = (if tp_MaxRetries params \<le> 0 then 5 else tp_MaxRetries params)"

context retry_service
begin

lemma Transfer_run:
  assumes "Transfer P T params w = (x, w')" and "tp_AmountCents params < 2 ^ 63"
  obtains k where "x = Inl (Leaf k)" "w' = w" "k \<in> {ErrInvalidTransfer, ErrAccountNotFound, ErrNotAccountOwner}"
  | fromID toID ownerID where "parsed P params fromID toID"
      "transfer_loop T (transferOnce P (isolationLevel (tp_Isolation params)) params fromID toID ownerID)
        (nat (budget params)) 1 w = (x, w')"
proof -
  consider (refused) k where "x = Inl (Leaf k)" "w' = w" "k \<in> {ErrInvalidTransfer, ErrAccountNotFound, ErrNotAccountOwner}"
    | (ok) fromID toID ownerID where "0 < tp_AmountCents params" "tp_FromAccountID params \<noteq> tp_ToAccountID params"
      "parseUUID P (tp_FromAccountID params) = Inr fromID" "parseUUID P (tp_ToAccountID params) = Inr toID"
      "parseUUID P (tp_SessionUserID params) = Inr ownerID"
    using assms(1) by (auto simp: Transfer_def split: if_splits sum.splits)
  then show thesis
  proof cases
    case refused
    then show ?thesis by (rule that(1))
  next
    case (ok fromID toID ownerID)
    have "parsed P params fromID toID"
      using ok(1-4) assms(2) by (auto simp: parsed_def parseUUID_def split: sum.splits)
    moreover have "transfer_loop T (transferOnce P (isolationLevel (tp_Isolation params)) params fromID toID ownerID)
        (nat (budget params)) 1 w = (x, w')"
      using ok assms(1) by (auto simp: Transfer_def Let_def budget_def defaultTransferMaxRetries_def split: if_splits)
    ultimately show ?thesis by (rule that(2))
  qed
qed

end

section \<open>The outcome of a request\<close>

lemma transfer_succeeded:
  assumes "retry_service P T" and "db_wf (pg_db P w)" and "tp_AmountCents params < 2 ^ 63"
    and "Transfer P T params w = (Inr r, w')"
  shows "\<exists>fromID toID. parsed P params fromID toID \<and>
    settled params fromID toID (pg_db P w) (pg_db P w') \<and> reported params fromID toID (pg_db P w') r \<and>
    1 \<le> tr_Attempts r \<and> tr_Attempts r \<le> budget params"
proof (rule retry_service.Transfer_run [OF assms(1,4,3)], goal_cases)
  case (2 fromID toID ownerID)
  have pg: "pg_service P" using assms(1) by (simp add: retry_service_def)
  let ?once = "transferOnce P (isolationLevel (tp_Isolation params)) params fromID toID ownerID"
  have "case Inr r of
      Inr r \<Rightarrow> \<exists>w1 r0 k'. pg_db P w1 = pg_db P w \<and> ?once w1 = (Inr r0, w') \<and> r = r0\<lparr>tr_Attempts := k'\<rparr> \<and>
        1 \<le> k' \<and> k' < 1 + int (nat (budget params))
    | Inl e \<Rightarrow> pg_db P w' = pg_db P w \<or>
        (\<exists>w1. pg_db P w1 = pg_db P w \<and> ?once w1 = (Inl e, w') \<and> \<not> isRetryableConflict e)"
    by (rule retry_service.transfer_loop_last [OF assms(1) 2(2)]) (rule pg_service.transferOnce_conflict [OF pg])
  then obtain w1 r0 k where w1: "pg_db P w1 = pg_db P w" and o: "?once w1 = (Inr r0, w')"
    and r: "r = r0\<lparr>tr_Attempts := k\<rparr>" "1 \<le> k" "k < 1 + int (nat (budget params))" by auto
  have "settled params fromID toID (pg_db P w) (pg_db P w')" "reported params fromID toID (pg_db P w') r0"
    using pg_service.transferOnce_ok [OF pg o] assms(2) 2(1) w1 by auto
  with 2(1) r show ?case
    by (intro exI [of _ fromID] exI [of _ toID]) (auto simp: reported_def budget_def)
qed auto

lemma transfer_failed:
  assumes "retry_service P T" and "db_wf (pg_db P w)" and "tp_AmountCents params < 2 ^ 63"
    and "Transfer P T params w = (Inl e, w')"
  shows "pg_db P w' = pg_db P w \<or>
    commit_lost e \<and> (\<exists>fromID toID. settled params fromID toID (pg_db P w) (pg_db P w'))"
proof (rule retry_service.Transfer_run [OF assms(1,4,3)], goal_cases)
  case (2 fromID toID ownerID)
  have pg: "pg_service P" using assms(1) by (simp add: retry_service_def)
  let ?once = "transferOnce P (isolationLevel (tp_Isolation params)) params fromID toID ownerID"
  have "case Inl e of
      Inr r \<Rightarrow> \<exists>w1 r0 k'. pg_db P w1 = pg_db P w \<and> ?once w1 = (Inr r0, w') \<and> r = r0\<lparr>tr_Attempts := k'\<rparr> \<and>
        1 \<le> k' \<and> k' < 1 + int (nat (budget params))
    | Inl e \<Rightarrow> pg_db P w' = pg_db P w \<or>
        (\<exists>w1. pg_db P w1 = pg_db P w \<and> ?once w1 = (Inl e, w') \<and> \<not> isRetryableConflict e)"
    by (rule retry_service.transfer_loop_last [OF assms(1) 2(2)]) (rule pg_service.transferOnce_conflict [OF pg])
  then show ?case
    using pg_service.transferOnce_err [OF pg, of _ params fromID toID ownerID _ e w'] assms(2) 2(1) by fastforce
qed auto

section \<open>The ledger\<close>

definition ledger_net :: "Transfer list \<Rightarrow> UUID \<Rightarrow> int" where
  "ledger_net ts i =
     sum_list (map (\<lambda>t. (if t_ToAccountID t = i then t_AmountCents t else 0) -
                        (if t_FromAccountID t = i then t_AmountCents t else 0)) ts)"

text \<open>What an account would hold had the ledger's transfers not happened.\<close>

definition opening_balances :: "db \<Rightarrow> (UUID \<times> int) list" where
  "opening_balances d = map (\<lambda>a. (a_ID a, a_BalanceCents a - ledger_net (transfers d) (a_ID a))) (accounts d)"

lemma moved_opening_balances: "moved fromID toID amount d d' \<Longrightarrow> opening_balances d' = opening_balances d"
  by (auto simp: moved_def opening_balances_def ledger_net_def list_all2_conv_all_nth intro!: nth_equalityI)

section \<open>The verdict on a request\<close>

text \<open>
  The answer that a request deserves in a given database, read off the documentation of the
  errors: \<open>None\<close> if it is to be carried out.
\<close>

definition account_named :: "db \<Rightarrow> string \<Rightarrow> Account option" where
  "account_named d s = find (\<lambda>a. uuidString (a_ID a) = s) (accounts d)"

definition transfer_verdict :: "'w pg \<Rightarrow> TransferParams \<Rightarrow> db \<Rightarrow> errkind option" where
  "transfer_verdict P params d =
     (if tp_AmountCents params \<le> 0 \<or> tp_FromAccountID params = tp_ToAccountID params
      then Some ErrInvalidTransfer
      else if isl (pg_scan_uuid P (tp_FromAccountID params)) \<or> isl (pg_scan_uuid P (tp_ToAccountID params))
      then Some ErrAccountNotFound
      else if isl (pg_scan_uuid P (tp_SessionUserID params)) then Some ErrNotAccountOwner
      else (case (account_named d (tp_FromAccountID params), account_named d (tp_ToAccountID params)) of
         (Some a, Some b) \<Rightarrow>
           if uuidString (a_UserID a) \<noteq> tp_SessionUserID params then Some ErrNotAccountOwner
           else if a_BalanceCents a < tp_AmountCents params then Some ErrInsufficientFunds
           else None
       | _ \<Rightarrow> Some ErrAccountNotFound))"

text \<open>A database that answers: no statement, begin or commit fails.\<close>

definition answering :: "'w pg \<Rightarrow> bool" where
  "answering P \<longleftrightarrow> (\<forall>lvl w. fst (pg_begin P lvl w) = Inr ()) \<and> (\<forall>w. fst (pg_send P w) = None) \<and>
     (\<forall>d w. fst (pg_commit P d w) = Inr ())"

lemma account_named_Some: "account_named d s = Some a \<Longrightarrow> a \<in> set (accounts d) \<and> uuidString (a_ID a) = s"
  by (auto simp: account_named_def find_Some_iff)

context pg_service
begin

lemma send_answering:
  assumes "answering P"
  obtains w1 where "pg_db P w1 = pg_db P w" "pg_send P w = (None, w1)"
  using assms send_db [of w] by (metis answering_def prod.collapse)

lemma locked_named:
  assumes wf: "db_wf d" and scan: "pg_scan_uuid P s = Inr i" and i: "i \<in> {fromID, toID}"
  shows "balances_of (map locked_row (locked_accounts d [fromID, toID])) s = map_option a_BalanceCents (account_named d s)"
    and "owners_of (map locked_row (locked_accounts d [fromID, toID])) s =
      map_option (\<lambda>a. uuidString (a_UserID a)) (account_named d s)"
proof -
  let ?l = "map locked_row (locked_accounts d [fromID, toID])"
  have "balances_of ?l s = map_option a_BalanceCents (account_named d s) \<and>
      owners_of ?l s = map_option (\<lambda>a. uuidString (a_UserID a)) (account_named d s)"
  proof (cases "account_named d s")
    case None
    then have "s \<notin> (\<lambda>a. uuidString (a_ID a)) ` set (locked_accounts d [fromID, toID])"
      by (auto simp: account_named_def find_None_iff)
    then show ?thesis using None balances_of_None owners_of_None by (metis option.map_disc_iff)
  next
    case (Some a)
    note a = account_named_Some [OF Some]
    then have "uuid_ok (a_ID a)" using wf by (auto simp: db_wf_def account_ok_def)
    then have "a_ID a = i" using scan_canonical [of "a_ID a"] a scan by simp
    then show ?thesis using locked_lookup [OF wf, of a "[fromID, toID]"] a i Some by auto
  qed
  then show "balances_of ?l s = map_option a_BalanceCents (account_named d s)"
    and "owners_of ?l s = map_option (\<lambda>a. uuidString (a_UserID a)) (account_named d s)" by blast+
qed

lemma hold_answering:
  assumes "answering P"
  obtains w1 where "pg_db P w1 = pg_db P w" "hold P ms (d, w) = (Inr (), d, w1)"
proof (cases "ms > 0")
  case True
  obtain w1 where "pg_db P w1 = pg_db P w" "pg_send P w = (None, w1)" by (rule send_answering [OF assms])
  then show thesis using that True by (simp add: hold_def sent_def)
qed (use that in \<open>simp add: hold_def\<close>)

lemma AdjustBalance_answering:
  assumes "answering P" "db_wf d" "a \<in> set (accounts d)" "a_ID a = i"
    and "0 \<le> a_BalanceCents a + delta" "a_BalanceCents a + delta < 2 ^ 63"
  obtains w1 t where "pg_db P w1 = pg_db P w"
    "AdjustBalance P \<lparr>ab_DeltaCents = delta, ab_ID = i\<rparr> (d, w) =
      (Inr (a_BalanceCents a + delta), d\<lparr>accounts := map (adjusted i delta t) (accounts d)\<rparr>, w1)"
proof -
  obtain w1 where w1: "pg_db P w1 = pg_db P w" "pg_send P w = (None, w1)" by (rule send_answering [OF assms(1)])
  have f: "find (\<lambda>b. a_ID b = i) (accounts d) = Some a"
    using find_key [of a_ID "accounts d" a] assms(2-4) by (auto simp: db_wf_def)
  have "is_int64 (a_BalanceCents a + delta)" using assms(5,6) by (simp add: is_int64_def)
  then have "AdjustBalance P \<lparr>ab_DeltaCents = delta, ab_ID = i\<rparr> (d, w) =
      (Inr (a_BalanceCents a + delta), d\<lparr>accounts := map (adjusted i delta (pg_now P w1)) (accounts d)\<rparr>, w1)"
    using assms(5) by (simp add: AdjustBalance_def sent_def w1(2) f Let_def adjusted_def [abs_def] cong del: if_weak_cong)
  with that w1(1) show thesis by blast
qed

lemma InsertTransfer_answering:
  assumes "answering P" "0 < amount" "f \<in> a_ID ` set (accounts d)" "t \<in> a_ID ` set (accounts d)"
    and "\<And>w'. pg_db P w' = pg_db P w \<Longrightarrow> fst (pg_uuid P w') \<notin> t_ID ` set (transfers d)"
  shows "\<not> isl (fst (InsertTransfer P \<lparr>it_FromAccountID = f, it_ToAccountID = t, it_AmountCents = amount\<rparr> (d, w)))"
proof -
  obtain w1 where w1: "pg_db P w1 = pg_db P w" "pg_send P w = (None, w1)" by (rule send_answering [OF assms(1)])
  obtain i w2 where i: "pg_uuid P w1 = (i, w2)" by fastforce
  have "i \<notin> t_ID ` set (transfers d)" using assms(5) [OF w1(1)] i by simp
  then show ?thesis using assms(2-4) i by (simp add: InsertTransfer_def sent_def w1(2) Let_def)
qed

end

context pg_service
begin

lemma transfer_tx_refused:
  assumes ans: "answering P" and wf: "db_wf d" and p: "parsed P params fromID toID"
    and ses: "\<not> isl (pg_scan_uuid P (tp_SessionUserID params))"
    and v: "transfer_verdict P params d = Some k"
  shows "fst (transfer_tx P params fromID toID (d, w)) = Inl (Leaf k)"
proof -
  obtain w1 where w1: "pg_db P w1 = pg_db P w" "pg_send P w = (None, w1)" by (rule send_answering [OF ans])
  have g: "GetAccountsForUpdate P [fromID, toID] (d, w) = (Inr (map locked_row (locked_accounts d [fromID, toID])), d, w1)"
    by (simp add: GetAccountsForUpdate_def sent_def w1(2) locked_row_def [abs_def] locked_accounts_def)
  have scan: "pg_scan_uuid P (tp_FromAccountID params) = Inr fromID" "pg_scan_uuid P (tp_ToAccountID params) = Inr toID"
    using p by (auto simp: parsed_def)
  note n = locked_named [OF wf scan(1), of fromID toID] locked_named(1) [OF wf scan(2), of fromID toID]
  have k: "(case (account_named d (tp_FromAccountID params), account_named d (tp_ToAccountID params)) of
         (Some a, Some b) \<Rightarrow>
           if uuidString (a_UserID a) \<noteq> tp_SessionUserID params then Some ErrNotAccountOwner
           else if a_BalanceCents a < tp_AmountCents params then Some ErrInsufficientFunds
           else None
       | _ \<Rightarrow> Some ErrAccountNotFound) = Some k"
    using v p ses scan by (auto simp: transfer_verdict_def parsed_def)
  show ?thesis
    using k by (cases "account_named d (tp_FromAccountID params)"; cases "account_named d (tp_ToAccountID params)")
      (auto simp: transfer_tx_def g n split: if_splits)
qed

lemma transfer_tx_carried_out:
  assumes ans: "answering P" and wf: "db_wf d" and p: "parsed P params fromID toID"
    and v: "transfer_verdict P params d = None"
    and room: "\<And>b. b \<in> set (accounts d) \<Longrightarrow> a_ID b = toID \<Longrightarrow> a_BalanceCents b + tp_AmountCents params < 2 ^ 63"
    and fresh: "\<And>w'. pg_db P w' = pg_db P w \<Longrightarrow> fst (pg_uuid P w') \<notin> t_ID ` set (transfers d)"
  shows "\<not> isl (fst (transfer_tx P params fromID toID (d, w)))"
proof -
  let ?amt = "tp_AmountCents params"
  obtain w1 where w1: "pg_db P w1 = pg_db P w" "pg_send P w = (None, w1)" by (rule send_answering [OF ans])
  have g: "GetAccountsForUpdate P [fromID, toID] (d, w) = (Inr (map locked_row (locked_accounts d [fromID, toID])), d, w1)"
    by (simp add: GetAccountsForUpdate_def sent_def w1(2) locked_row_def [abs_def] locked_accounts_def)
  have scan: "pg_scan_uuid P (tp_FromAccountID params) = Inr fromID" "pg_scan_uuid P (tp_ToAccountID params) = Inr toID"
    and amt: "0 < ?amt" "wrap64 (- ?amt) = - ?amt"
    using p by (auto simp: parsed_def is_int64_def intro!: wrap64_id)
  obtain a b where n: "account_named d (tp_FromAccountID params) = Some a" "account_named d (tp_ToAccountID params) = Some b"
    and ok: "uuidString (a_UserID a) = tp_SessionUserID params" "?amt \<le> a_BalanceCents a"
    using v p by (auto simp: transfer_verdict_def parsed_def split: option.splits if_splits)
  note look = locked_named [OF wf scan(1), of fromID toID] locked_named(1) [OF wf scan(2), of fromID toID]
  have ids: "a \<in> set (accounts d)" "a_ID a = fromID" "b \<in> set (accounts d)" "a_ID b = toID" "fromID \<noteq> toID"
  proof -
    note na = account_named_Some [OF n(1)] and nb = account_named_Some [OF n(2)]
    have "uuid_ok (a_ID a)" "uuid_ok (a_ID b)" using wf na nb by (auto simp: db_wf_def account_ok_def)
    then have "a_ID a = fromID" "a_ID b = toID"
      using scan_canonical [of "a_ID a"] scan_canonical [of "a_ID b"] na nb scan by simp_all
    with na nb p show "a \<in> set (accounts d)" "a_ID a = fromID" "b \<in> set (accounts d)" "a_ID b = toID" "fromID \<noteq> toID"
      by (auto simp: parsed_def)
  qed
  obtain w2 where h: "pg_db P w2 = pg_db P w1" "hold P (tp_HoldMs params) (d, w1) = (Inr (), d, w2)"
    by (rule hold_answering [OF ans])
  have bal: "0 \<le> a_BalanceCents a" "a_BalanceCents a < 2 ^ 63" "0 \<le> a_BalanceCents b"
    using wf ids(1,3) by (auto simp: db_wf_def account_ok_def)
  obtain w3 t where a1: "pg_db P w3 = pg_db P w2" "AdjustBalance P \<lparr>ab_DeltaCents = - ?amt, ab_ID = fromID\<rparr> (d, w2) =
      (Inr (a_BalanceCents a + - ?amt), d\<lparr>accounts := map (adjusted fromID (- ?amt) t) (accounts d)\<rparr>, w3)"
    by (rule AdjustBalance_answering [OF ans wf ids(1,2), of "- ?amt" w2]) (use bal amt ok in auto)
  let ?d3 = "d\<lparr>accounts := map (adjusted fromID (- ?amt) t) (accounts d)\<rparr>"
  have wf3: "db_wf ?d3"
    using a1(2) wf by (rule AdjustBalance_ok) simp
  have b3: "b \<in> set (accounts ?d3)" using ids(3-5) by (force simp: adjusted_def)
  obtain w4 u where a2: "pg_db P w4 = pg_db P w3" "AdjustBalance P \<lparr>ab_DeltaCents = ?amt, ab_ID = toID\<rparr> (?d3, w3) =
      (Inr (a_BalanceCents b + ?amt), ?d3\<lparr>accounts := map (adjusted toID ?amt u) (accounts ?d3)\<rparr>, w4)"
    by (rule AdjustBalance_answering [OF ans wf3 b3 ids(4), of ?amt w3]) (use bal amt room ids in auto)
  let ?d4 = "?d3\<lparr>accounts := map (adjusted toID ?amt u) (accounts ?d3)\<rparr>"
  have "\<not> isl (fst (InsertTransfer P \<lparr>it_FromAccountID = fromID, it_ToAccountID = toID, it_AmountCents = ?amt\<rparr> (?d4, w4)))"
    by (rule InsertTransfer_answering [OF ans amt(1)])
      (use ids fresh h(1) w1(1) a1(1) a2(1) in \<open>auto simp: image_image\<close>)
  then show ?thesis
    using ok amt h(2) a1(2) a2(2) n by (auto simp: transfer_tx_def g look n split: prod.splits sum.splits)
qed

end

lemma verdict_kind:
  "transfer_verdict P params d = Some k \<Longrightarrow>
   k \<in> {ErrInvalidTransfer, ErrAccountNotFound, ErrNotAccountOwner, ErrInsufficientFunds}"
  by (auto simp: transfer_verdict_def split: if_splits option.splits)

lemma transfer_answered:
  assumes "retry_service P T" and "db_wf (pg_db P w)" and "tp_AmountCents params < 2 ^ 63" and "answering P"
    and "\<And>w'. pg_db P w' = pg_db P w \<Longrightarrow> fst (pg_uuid P w') \<notin> t_ID ` set (transfers (pg_db P w))"
    and "\<And>a. a \<in> set (accounts (pg_db P w)) \<Longrightarrow> a_BalanceCents a + tp_AmountCents params < 2 ^ 63"
  shows "case transfer_verdict P params (pg_db P w) of
      Some k \<Rightarrow> fst (Transfer P T params w) = Inl (Leaf k)
    | None \<Rightarrow> \<exists>r. fst (Transfer P T params w) = Inr r \<and> tr_Attempts r = 1"
proof -
  have pg: "pg_service P" using assms(1) by (simp add: retry_service_def)
  show ?thesis
  proof (cases "0 < tp_AmountCents params \<and> tp_FromAccountID params \<noteq> tp_ToAccountID params \<and>
      \<not> isl (pg_scan_uuid P (tp_FromAccountID params)) \<and> \<not> isl (pg_scan_uuid P (tp_ToAccountID params)) \<and>
      \<not> isl (pg_scan_uuid P (tp_SessionUserID params))")
    case False
    then show ?thesis
      by (auto simp: transfer_verdict_def Transfer_def parseUUID_def isl_def split: sum.splits)
  next
    case True
    then obtain f t o' where s: "pg_scan_uuid P (tp_FromAccountID params) = Inr f" "pg_scan_uuid P (tp_ToAccountID params) = Inr t"
        "pg_scan_uuid P (tp_SessionUserID params) = Inr o'"
      by (auto simp: isl_def) (metis sum.exhaust)
    have p: "parsed P params f t" using True s assms(3) by (simp add: parsed_def)
    let ?once = "transferOnce P (isolationLevel (tp_Isolation params)) params f t o'"
    obtain n where n: "nat (budget params) = Suc n"
      by (metis Suc_pred budget_def nat_0_iff neq0_conv not_numeral_le_zero)
    have T: "Transfer P T params w = transfer_loop T ?once (Suc n) 1 w"
      using True s by (simp add: Transfer_def parseUUID_def Let_def n [symmetric] budget_def defaultTransferMaxRetries_def)
    obtain w1 where b: "pg_begin P (Some (isolationLevel (tp_Isolation params))) w = (Inr (), w1)"
      using assms(4) by (metis answering_def prod.collapse)
    have d1: "pg_db P w1 = pg_db P w" by (rule pg_service.begin_db [OF pg b])
    show ?thesis
    proof (cases "transfer_verdict P params (pg_db P w)")
      case (Some k)
      have "fst (transfer_tx P params f t (pg_db P w1, w1)) = Inl (Leaf k)"
        using pg_service.transfer_tx_refused [OF pg assms(4,2) p] s(3) Some d1 by simp
      then have "fst (?once w) = Inl (Leaf k)"
        using b by (auto simp: transferOnce_def split: prod.splits)
      then have "fst (Transfer P T params w) = Inl (Leaf k)"
        using verdict_kind [OF Some] unfolding T
        by (auto simp: isRetryableConflict_def split: prod.splits)
      then show ?thesis using Some by simp
    next
      case None
      have "\<not> isl (fst (transfer_tx P params f t (pg_db P w1, w1)))"
        using pg_service.transfer_tx_carried_out [OF pg assms(4,2) p None] assms(5,6) d1 by simp
      moreover have "fst (pg_commit P d w2) = Inr ()" for d w2 using assms(4) by (simp add: answering_def)
      ultimately have "\<not> isl (fst (?once w))"
        using b by (auto simp: transferOnce_def split: prod.splits sum.splits) (metis fst_conv sum.distinct(1))+
      then have "\<exists>r. fst (Transfer P T params w) = Inr r \<and> tr_Attempts r = 1"
        unfolding T by (cases "?once w"; cases "fst (?once w)") auto
      then show ?thesis using None by simp
    qed
  qed
qed

context retry_service
begin

lemma transfer_loop_exhausted:
  assumes "transfer_loop T (transferOnce P lvl params fromID toID ownerID) n k w = (x, w')"
    and "\<And>w. \<exists>e. fst (transferOnce P lvl params fromID toID ownerID w) = Inl e \<and> isRetryableConflict e"
    and "\<And>dur w. fst (rt_After T dur w) = None"
  shows "\<exists>e. x = Inl e \<and> errors_is e ErrRetriesExhausted \<and> \<not> isRetryableConflict e \<and> pg_db P w' = pg_db P w"
  using assms(1)
proof (induction n arbitrary: k w)
  case 0
  then show ?case by (auto simp: isRetryableConflict_def)
next
  case (Suc n)
  obtain e w1 where o: "transferOnce P lvl params fromID toID ownerID w = (Inl e, w1)" "isRetryableConflict e"
    using assms(2) [of w] by (metis prod.collapse)
  obtain d w2 where b: "retryBackoff T k w1 = (d, w2)" by fastforce
  obtain w3 where a: "rt_After T d w2 = (None, w3)" using assms(3) [of d w2] by (metis prod.collapse)
  have db: "pg_db P w1 = pg_db P w" "pg_db P w3 = pg_db P w"
    using transferOnce_conflict [OF o] retryBackoff_db [OF b] After_db [OF a] by simp_all
  have "transfer_loop T (transferOnce P lvl params fromID toID ownerID) n (k + 1) (if n = 0 then w1 else w3) = (x, w')"
    using Suc.prems o b a by (auto split: if_splits)
  from Suc.IH [OF this] db show ?case by (auto split: if_splits)
qed

end

lemma dvd_wrap64: "2 ^ 26 dvd x \<Longrightarrow> 2 ^ 26 dvd wrap64 x"
proof -
  assume "2 ^ 26 dvd x"
  then have "take_bit 26 (wrap64 x) = 0"
    unfolding wrap64_def by (subst take_bit_signed_take_bit) (simp_all add: take_bit_eq_mod mod_eq_0_iff_dvd)
  then show ?thesis by (simp add: take_bit_eq_mod mod_eq_0_iff_dvd)
qed

lemma backoff_bound_eq:
  assumes "1 \<le> attempt"
  shows "backoff_bound attempt = min (50 * Millisecond) (2 ^ nat (attempt - 1) * Millisecond)"
proof -
  define k where "k = nat (attempt - 1)"
  define m where "m = wrap64 (2 ^ k * Millisecond)"
  have b: "backoff_bound attempt = (if m \<le> 0 \<or> m > 50 * Millisecond then 50 * Millisecond else m)"
    by (simp add: backoff_bound_def transferRetryBaseBackoff_def transferRetryMaxBackoff_def m_def k_def
        push_bit_eq_mult mult.commute Let_def)
  show ?thesis
  proof (cases "k < 20")
    case True
    then have le: "(2::int) ^ k \<le> 2 ^ 19"
      by (intro power_increasing) auto
    have "0 \<le> (2::int) ^ k * Millisecond" "(2::int) ^ k * Millisecond \<le> 2 ^ 19 * Millisecond"
      using le by (simp_all only: mult_right_mono zero_le_power zero_le_mult_iff zero_le_numeral) simp_all
    then have "- (2 ^ 63) \<le> (2::int) ^ k * Millisecond" "(2::int) ^ k * Millisecond < 2 ^ 63"
      by (simp_all add: order_trans [of _ 0])

    then have "m = 2 ^ k * Millisecond" unfolding m_def by (intro wrap64_id) (simp add: is_int64_def)
    then show ?thesis unfolding b k_def [symmetric] by (simp add: min_def)
  next
    case False
    then have "(2::int) ^ 20 dvd 2 ^ k" by (intro le_imp_power_dvd) simp
    then have "(2::int) ^ 20 * 2 ^ 6 dvd 2 ^ k * Millisecond" by (intro mult_dvd_mono) simp_all
    then have "2 ^ 26 dvd m" unfolding m_def by (intro dvd_wrap64) simp
    then have "m \<le> 0 \<or> 2 ^ 26 \<le> m" using zdvd_imp_le by force
    moreover have "(2::int) ^ 20 \<le> 2 ^ k" using False by (intro power_increasing) auto
    ultimately show ?thesis unfolding b k_def [symmetric] by (auto simp: min_def)
  qed
qed

section \<open>A request in memory\<close>

definition mem_rt :: "appmem rt" where
  "mem_rt = \<lparr>rt_Int64N = (\<lambda>n w. (0, w)), rt_After = (\<lambda>d w. (None, w))\<rparr>"

interpretation mem_rt: retry_service mem_pg mem_rt
  by unfold_locales (auto simp: mem_rt_def)

definition new_bob :: NewUser where
  "new_bob = \<lparr>nu_Username = ''bob'', nu_PasswordHash = ''$2a$pw2'', nu_Role = ''user''\<rparr>"

definition app_both :: appmem where
  "app_both = snd (RegisterUser mem_pg new_bob app_alice)"

definition alice_to_bob :: "int \<Rightarrow> TransferParams" where
  "alice_to_bob amount = \<lparr>tp_SessionUserID = uuidString (mem_uuid 1), tp_FromAccountID = uuidString (mem_uuid 2),
     tp_ToAccountID = uuidString (mem_uuid 4), tp_AmountCents = amount, tp_Isolation = '''', tp_HoldMs = 0,
     tp_MaxRetries = 0\<rparr>"

lemma app_both_wf: "db_wf (pg_db mem_pg app_both)"
  by code_simp

section \<open>Properties\<close>

text \<open>
  C1: a transfer that succeeds moves the money. The source account exists, belongs to the caller
  and held at least the amount; the source then holds the amount less and the destination the
  amount more, no other account changes, the ledger gets exactly one entry for it, and the money in
  the system stays the same. The response reports the balances that were stored, the identifier
  of the ledger entry, and a number of attempts within the budget. The schema, with every balance non-negative and a 64-bit number, is
  kept.
\<close>

theorem Transfer_moves_the_money:
  assumes "retry_service P T" and "db_wf (pg_db P w)" and "tp_AmountCents params < 2 ^ 63"
    and "Transfer P T params w = (Inr r, w')"
  shows "\<exists>fromID toID. parsed P params fromID toID \<and>
    settled params fromID toID (pg_db P w) (pg_db P w') \<and> reported params fromID toID (pg_db P w') r \<and>
    1 \<le> tr_Attempts r \<and> tr_Attempts r \<le> budget params"
  by (rule transfer_succeeded [OF assms])

theorem Transfer_moves_the_money_witness:
  "total (pg_db mem_pg (snd (Transfer mem_pg mem_rt (alice_to_bob 2500) app_both))) = 200000 \<and>
   tr_FromBalanceCents (projr (fst (Transfer mem_pg mem_rt (alice_to_bob 2500) app_both))) = 97500"
proof -
  define x where "x = Transfer mem_pg mem_rt (alice_to_bob 2500) app_both"
  have ok: "\<not> isl (fst x)" unfolding x_def by code_simp
  then have "Transfer mem_pg mem_rt (alice_to_bob 2500) app_both = (Inr (projr (fst x)), snd x)"
    by (simp add: x_def prod_eq_iff)
  from Transfer_moves_the_money [OF mem_rt.retry_service_axioms app_both_wf _ this]
  have "total (pg_db mem_pg (snd x)) = total (pg_db mem_pg app_both)"
    by (auto simp: settled_def alice_to_bob_def)
  moreover have "total (pg_db mem_pg app_both) = 200000" "tr_FromBalanceCents (projr (fst x)) = 97500"
    unfolding x_def by code_simp+
  ultimately show ?thesis by (simp add: x_def)
qed

text \<open>
  C4: a transfer that fails leaves no trace. Whatever the error, the tables are as before, unless
  the connection was lost while committing; then the complete transfer may be there, never a part
  of it. Conflicts that were retried leave nothing behind, so a transfer is never applied twice.
\<close>

theorem Transfer_failure_is_atomic:
  assumes "retry_service P T" and "db_wf (pg_db P w)" and "tp_AmountCents params < 2 ^ 63"
    and "Transfer P T params w = (Inl e, w')"
  shows "pg_db P w' = pg_db P w \<or>
    commit_lost e \<and> (\<exists>fromID toID. settled params fromID toID (pg_db P w) (pg_db P w'))"
  by (rule transfer_failed [OF assms])

theorem Transfer_failure_is_atomic_witness:
  "pg_db mem_pg (snd (Transfer mem_pg mem_rt (alice_to_bob 100001) app_both)) = pg_db mem_pg app_both"
proof -
  define x where "x = Transfer mem_pg mem_rt (alice_to_bob 100001) app_both"
  have e: "fst x = Inl (Leaf ErrInsufficientFunds)" unfolding x_def by code_simp
  then have "Transfer mem_pg mem_rt (alice_to_bob 100001) app_both = (Inl (Leaf ErrInsufficientFunds), snd x)"
    by (simp add: x_def prod_eq_iff)
  from Transfer_failure_is_atomic [OF mem_rt.retry_service_axioms app_both_wf _ this]
  show ?thesis by (auto simp: alice_to_bob_def commit_lost_def x_def)
qed

text \<open>
  C6: the ledger explains the balances. Whatever the outcome of a transfer, what an account holds
  less its incoming and plus its outgoing ledger entries stays the same for every account: money
  never moves without a ledger entry and no entry is recorded without the money moving.
\<close>

theorem Transfer_keeps_the_ledger_balanced:
  assumes "retry_service P T" and "db_wf (pg_db P w)" and "tp_AmountCents params < 2 ^ 63"
    and "Transfer P T params w = (x, w')"
  shows "opening_balances (pg_db P w') = opening_balances (pg_db P w)"
proof (cases x)
  case (Inl e)
  from transfer_failed [OF assms(1-3) assms(4) [unfolded Inl]] show ?thesis
    by (auto simp: settled_def dest: moved_opening_balances)
next
  case (Inr r)
  from transfer_succeeded [OF assms(1-3) assms(4) [unfolded Inr]] show ?thesis
    by (auto simp: settled_def dest: moved_opening_balances)
qed

theorem Transfer_keeps_the_ledger_balanced_witness:
  "opening_balances (pg_db mem_pg (snd (Transfer mem_pg mem_rt (alice_to_bob 2500) app_both))) = opening_balances (pg_db mem_pg app_both)"
  by (rule Transfer_keeps_the_ledger_balanced [OF mem_rt.retry_service_axioms app_both_wf _ prod.collapse [symmetric]])
    (simp add: alice_to_bob_def)

text \<open>
  C11: every request gets the answer it deserves. When the database answers, a request that the
  documentation says to refuse (amount not positive, the same account twice, a malformed or unknown
  account, an account of someone else, not enough money) is refused with exactly that error, at the
  first check that fails in the order of the code; every other request is carried out at the first
  attempt, provided the destination can hold the sum in 64 bits.
\<close>

theorem Transfer_follows_the_verdict:
  assumes "retry_service P T" and "db_wf (pg_db P w)" and "tp_AmountCents params < 2 ^ 63" and "answering P"
    and "\<And>w'. pg_db P w' = pg_db P w \<Longrightarrow> fst (pg_uuid P w') \<notin> t_ID ` set (transfers (pg_db P w))"
    and "\<And>a. a \<in> set (accounts (pg_db P w)) \<Longrightarrow> a_BalanceCents a + tp_AmountCents params < 2 ^ 63"
  shows "case transfer_verdict P params (pg_db P w) of
      Some k \<Rightarrow> fst (Transfer P T params w) = Inl (Leaf k)
    | None \<Rightarrow> \<exists>r. fst (Transfer P T params w) = Inr r \<and> tr_Attempts r = 1"
  by (rule transfer_answered [OF assms])

theorem Transfer_follows_the_verdict_witness:
  "fst (Transfer mem_pg mem_rt (alice_to_bob 100001) app_both) = Inl (Leaf ErrInsufficientFunds) \<and>
   (\<exists>r. fst (Transfer mem_pg mem_rt (alice_to_bob 100000) app_both) = Inr r)"
proof -
  have ans: "answering (mem_pg :: appmem pg)" by (simp add: answering_def mem_pg_def)
  have none: "transfers (pg_db mem_pg app_both) = []" by code_simp
  have small: "list_all (\<lambda>a. a_BalanceCents a \<le> 100000) (accounts (pg_db mem_pg app_both))" by code_simp
  have v: "transfer_verdict (mem_pg :: appmem pg) (alice_to_bob 100001) (pg_db mem_pg app_both) = Some ErrInsufficientFunds"
    "transfer_verdict (mem_pg :: appmem pg) (alice_to_bob 100000) (pg_db mem_pg app_both) = None" by code_simp+
  have t: "case transfer_verdict (mem_pg :: appmem pg) (alice_to_bob n) (pg_db mem_pg app_both) of
      Some k \<Rightarrow> fst (Transfer mem_pg mem_rt (alice_to_bob n) app_both) = Inl (Leaf k)
    | None \<Rightarrow> \<exists>r. fst (Transfer mem_pg mem_rt (alice_to_bob n) app_both) = Inr r \<and> tr_Attempts r = 1"
    if n: "n \<le> 100001" for n
  proof (rule Transfer_follows_the_verdict [OF mem_rt.retry_service_axioms app_both_wf _ ans])
    show "a_BalanceCents a + tp_AmountCents (alice_to_bob n) < 2 ^ 63"
      if a: "a \<in> set (accounts (pg_db mem_pg app_both))" for a
    proof -
      have "a_BalanceCents a \<le> 100000" using small a by (simp only: list_all_iff)
      then show ?thesis using n by (simp add: alice_to_bob_def)
    qed
  qed (use n in \<open>simp_all add: none alice_to_bob_def\<close>)
  show ?thesis using t [of 100001] t [of 100000] v by auto
qed

text \<open>
  C31: the retry loop ends. If every attempt runs into a conflict and the caller does not go away,
  a well-formed request is given up with \<^verbatim>\<open>ErrRetriesExhausted\<close>, an error that no longer counts as
  a conflict, and the tables are as before.
\<close>

theorem Transfer_gives_up:
  assumes "retry_service P T" and "parsed P params fromID toID"
    and "pg_scan_uuid P (tp_SessionUserID params) = Inr ownerID"
    and "\<And>w. \<exists>e. fst (transferOnce P (isolationLevel (tp_Isolation params)) params fromID toID ownerID w) = Inl e \<and>
      isRetryableConflict e"
    and "\<And>dur w. fst (rt_After T dur w) = None"
    and "Transfer P T params w = (x, w')"
  shows "\<exists>e. x = Inl e \<and> errors_is e ErrRetriesExhausted \<and> \<not> isRetryableConflict e \<and> pg_db P w' = pg_db P w"
proof -
  have "transfer_loop T (transferOnce P (isolationLevel (tp_Isolation params)) params fromID toID ownerID)
      (nat (budget params)) 1 w = (x, w')"
    using assms(2,3,6)
    by (auto simp: parsed_def Transfer_def parseUUID_def Let_def budget_def defaultTransferMaxRetries_def
        split: if_splits)
  then show ?thesis by (rule retry_service.transfer_loop_exhausted [OF assms(1) _ assms(4,5)])
qed

definition conflict_pg :: "appmem pg" where
  "conflict_pg = mem_pg\<lparr>pg_send := \<lambda>w. (Some (Leaf (PgError ''40001'')), w)\<rparr>"

interpretation conflict: retry_service conflict_pg mem_rt
proof (unfold_locales, goal_cases)
  case (9 u)
  then show ?case by (simp add: conflict_pg_def mem_pg_def scan_uuidString)
next
  case (10 s u)
  then show ?case using mem_pg.scan_ok by (auto simp: conflict_pg_def mem_pg_def)
qed (auto simp: conflict_pg_def mem_pg_def mem_uuid_def uuid_ok_def mem_rt_def)

theorem Transfer_gives_up_witness:
  "\<exists>e. fst (Transfer conflict_pg mem_rt (alice_to_bob 1) app_both) = Inl e \<and> errors_is e ErrRetriesExhausted"
proof -
  have scan: "pg_scan_uuid conflict_pg (uuidString (mem_uuid n)) = Inr (mem_uuid n)" for n
    by (simp add: conflict_pg_def mem_pg_def scan_uuidString uuid_ok_def mem_uuid_def)
  have "uuidString (mem_uuid 2) \<noteq> uuidString (mem_uuid 4)" by code_simp
  then have p: "parsed conflict_pg (alice_to_bob 1) (mem_uuid 2) (mem_uuid 4)"
    by (simp add: parsed_def alice_to_bob_def scan)
  have "\<exists>e. fst (transferOnce conflict_pg lvl params f t o' w) = Inl e \<and> isRetryableConflict e" for lvl params f t o' w
    by (simp add: transferOnce_def transfer_tx_def GetAccountsForUpdate_def sent_def conflict_pg_def mem_pg_def
        isRetryableConflict_def serializationFailureCode_def)
  from Transfer_gives_up [OF conflict.retry_service_axioms p _ this _ prod.collapse [symmetric], of "mem_uuid 1" app_both]
  show ?thesis by (auto simp: alice_to_bob_def scan mem_rt_def)
qed

text \<open>
  C32: the backoff. The bound handed to the random source after attempt \<open>n\<close>, counted from 1, is one
  millisecond doubled \<open>n - 1\<close> times and capped at fifty, for every attempt number: the shift may overflow 64
  bits but the guard catches it, so the random source is never asked for a number below a bound of zero or
  less (which would panic). The comment on the constants names the bound \<^verbatim>\<open>base*2^attempt\<close>, which is
  twice this one.
\<close>

theorem backoff_bound_doubles_to_cap:
  "1 \<le> attempt \<Longrightarrow> backoff_bound attempt = min (50 * Millisecond) (2 ^ nat (attempt - 1) * Millisecond)"
  by (rule backoff_bound_eq)

theorem backoff_bound_doubles_to_cap_witness:
  "backoff_bound 1 = Millisecond \<and> backoff_bound 7 = 50 * Millisecond"
  using backoff_bound_doubles_to_cap [of 1] backoff_bound_doubles_to_cap [of 7] by simp

end
