(* ===== verification/Store_Locks.thy ===== *)
theory Store_Locks
  imports Store_Transfer
begin

text \<open>
  Transfers that run at the same time. \<^verbatim>\<open>transferOnce\<close> of \<^verbatim>\<open>internal/store/transfer.go\<close> locks its two
  account rows with \<^verbatim>\<open>SELECT ... ORDER BY id FOR UPDATE\<close> before it looks at them, and holds the locks
  until the transaction ends. Here the attempts of any number of callers are interleaved, one row
  lock at a time; a lock is granted only when no other transaction has it, statements see the committed
  tables and the rows written become visible when the transaction commits. A transaction can be
  rolled back at any moment (an error of a statement, a lost connection, a serialization failure of a
  stricter isolation level). The steps are those of the database as it is documented; of the program they
  take the statements of the transaction (\<open>run_tx\<close>) and the rows and order of the query that locks
  (\<open>lock_order\<close>).
\<close>

section \<open>Interleaved attempts\<close>

record attempt =
  at_params :: TransferParams
  at_from :: UUID
  at_to :: UUID

text \<open>
  A running transaction: the rows it still has to lock, in the order of the query, and, once its
  statements were executed, the tables and the world they were executed on.
\<close>

record 'w tx =
  tx_attempt :: attempt
  tx_pending :: "UUID list"
  tx_ran :: "(db \<times> 'w) option"

text \<open>\<open>cs_log\<close> lists the committed attempts with the values their statements returned.\<close>

record 'w conc =
  cs_db :: db
  cs_locks :: "UUID \<rightharpoonup> nat"
  cs_tx :: "nat \<rightharpoonup> 'w tx"
  cs_log :: "(attempt \<times> 'w \<times> int \<times> int \<times> InsertTransferRow) list"

datatype 'w event = Begin nat attempt | Lock nat | Run nat 'w | Commit nat | Rollback nat

text \<open>The rows that \<^verbatim>\<open>GetAccountsForUpdate\<close> locks, in the order in which it locks them.\<close>

definition lock_order :: "db \<Rightarrow> UUID list \<Rightarrow> UUID list" where
  "lock_order d ids = map a_ID (locked_accounts d ids)"

definition run_tx :: "'w pg \<Rightarrow> attempt \<Rightarrow> db \<times> 'w \<Rightarrow> (int \<times> int \<times> InsertTransferRow) res \<times> db \<times> 'w" where
  "run_tx P a = transfer_tx P (at_params a) (at_from a) (at_to a)"

text \<open>
  The writes of a transaction: the new versions of the rows it updated and the rows it inserted.
  Installing them leaves every other row of the committed tables alone.
\<close>

definition touched :: "attempt \<Rightarrow> Account \<Rightarrow> bool" where
  "touched a r \<longleftrightarrow> a_ID r = at_from a \<or> a_ID r = at_to a"

definition install :: "attempt \<Rightarrow> db \<Rightarrow> db \<Rightarrow> db \<Rightarrow> db" where
  "install a view new c =
     c\<lparr>accounts := map (\<lambda>r. case find (\<lambda>r'. a_ID r' = a_ID r) (filter (touched a) (accounts new)) of
                              Some r' \<Rightarrow> r' | None \<Rightarrow> r) (accounts c),
       transfers := transfers c @ drop (length (transfers view)) (transfers new)\<rparr>"

definition release :: "nat \<Rightarrow> (UUID \<rightharpoonup> nat) \<Rightarrow> UUID \<rightharpoonup> nat" where
  "release t locks = (\<lambda>i. if locks i = Some t then None else locks i)"

text \<open>One event; \<open>None\<close>: it cannot happen now. A commit that would repeat an identifier is refused by the primary key.\<close>

fun conc_step :: "'w pg \<Rightarrow> 'w event \<Rightarrow> 'w conc \<Rightarrow> 'w conc option" where
  "conc_step P (Begin t a) s =
     (if cs_tx s t \<noteq> None then None
      else Some (s\<lparr>cs_tx := (cs_tx s)(t \<mapsto>
        \<lparr>tx_attempt = a, tx_pending = lock_order (cs_db s) [at_from a, at_to a], tx_ran = None\<rparr>)\<rparr>))"
| "conc_step P (Lock t) s =
     (case cs_tx s t of
        None \<Rightarrow> None
      | Some x \<Rightarrow>
          (case tx_pending x of
             [] \<Rightarrow> None
           | i # rest \<Rightarrow>
               if cs_locks s i \<noteq> None then None
               else Some (s\<lparr>cs_locks := (cs_locks s)(i \<mapsto> t), cs_tx := (cs_tx s)(t \<mapsto> x\<lparr>tx_pending := rest\<rparr>)\<rparr>)))"
| "conc_step P (Run t w) s =
     (case cs_tx s t of
        None \<Rightarrow> None
      | Some x \<Rightarrow>
          if tx_pending x \<noteq> [] \<or> tx_ran x \<noteq> None then None
          else Some (s\<lparr>cs_tx := (cs_tx s)(t \<mapsto> x\<lparr>tx_ran := Some (cs_db s, w)\<rparr>)\<rparr>))"
| "conc_step P (Commit t) s =
     (case cs_tx s t of
        None \<Rightarrow> None
      | Some x \<Rightarrow>
          (case tx_ran x of
             None \<Rightarrow> None
           | Some (view, w) \<Rightarrow>
               (case run_tx P (tx_attempt x) (view, w) of
                  (Inl err, new, w') \<Rightarrow> None
                | (Inr (newFrom, newTo, ledger), new, w') \<Rightarrow>
                    if ir_ID ledger \<in> t_ID ` set (transfers (cs_db s)) then None
                    else Some (s\<lparr>cs_db := install (tx_attempt x) view new (cs_db s), cs_locks := release t (cs_locks s),
                           cs_tx := (cs_tx s)(t := None),
                           cs_log := cs_log s @ [(tx_attempt x, w, newFrom, newTo, ledger)]\<rparr>))))"
| "conc_step P (Rollback t) s =
     (if cs_tx s t = None then None
      else Some (s\<lparr>cs_locks := release t (cs_locks s), cs_tx := (cs_tx s)(t := None)\<rparr>))"

definition conc_start :: "db \<Rightarrow> 'w conc" where
  "conc_start d = \<lparr>cs_db = d, cs_locks = Map.empty, cs_tx = Map.empty, cs_log = []\<rparr>"

inductive interleaved :: "'w pg \<Rightarrow> db \<Rightarrow> 'w conc \<Rightarrow> bool" for P d0 where
  start: "interleaved P d0 (conc_start d0)"
| event: "interleaved P d0 s \<Longrightarrow> conc_step P e s = Some s' \<Longrightarrow> interleaved P d0 s'"

text \<open>\<open>waits s t t'\<close>: the transaction \<open>t\<close> waits for a row that \<open>t'\<close> has locked.\<close>

definition waits :: "'w conc \<Rightarrow> nat \<Rightarrow> nat \<Rightarrow> bool" where
  "waits s t t' \<longleftrightarrow>
     (case cs_tx s t of
        None \<Rightarrow> False
      | Some x \<Rightarrow> (case tx_pending x of [] \<Rightarrow> False | i # rest \<Rightarrow> cs_locks s i = Some t'))"

text \<open>The attempts of a log one after the other; \<open>None\<close> when one of them would not return the logged values.\<close>

fun serial :: "'w pg \<Rightarrow> db \<Rightarrow> (attempt \<times> 'w \<times> int \<times> int \<times> InsertTransferRow) list \<Rightarrow> db option" where
  "serial P d [] = Some d"
| "serial P d ((a, w, r) # rest) =
     (case run_tx P a (d, w) of
        (Inr r', d', w') \<Rightarrow> if r' = r then serial P d' rest else None
      | (Inl err, d', w') \<Rightarrow> None)"

section \<open>A transaction depends on its rows only\<close>

definition agree :: "attempt \<Rightarrow> db \<Rightarrow> db \<Rightarrow> bool" where
  "agree a d c \<longleftrightarrow> filter (touched a) (accounts d) = filter (touched a) (accounts c)"

lemma find_filter: "(\<And>r. r \<in> set rs \<Longrightarrow> p r \<Longrightarrow> q r) \<Longrightarrow> find p (filter q rs) = find p rs"
  by (induction rs) auto

lemma find_in_set: "find p rs = Some r \<Longrightarrow> r \<in> set rs \<and> p r"
  by (induction rs) (auto split: if_splits)

lemma agree_find: "agree a d c \<Longrightarrow> i = at_from a \<or> i = at_to a \<Longrightarrow>
   find (\<lambda>r. a_ID r = i) (accounts d) = find (\<lambda>r. a_ID r = i) (accounts c)"
  using find_filter [of "accounts d" "\<lambda>r. a_ID r = i" "touched a"] find_filter [of "accounts c" "\<lambda>r. a_ID r = i" "touched a"]
  by (auto simp: agree_def touched_def)

lemma agree_ids: "agree a d c \<Longrightarrow> i = at_from a \<or> i = at_to a \<Longrightarrow> i \<in> a_ID ` set (accounts d) \<Longrightarrow> i \<in> a_ID ` set (accounts c)"
proof -
  assume a: "agree a d c" "i = at_from a \<or> i = at_to a" "i \<in> a_ID ` set (accounts d)"
  then obtain r where "r \<in> set (filter (touched a) (accounts d))" "a_ID r = i" by (auto simp: touched_def)
  moreover from this have "r \<in> set (filter (touched a) (accounts c))" using a(1) unfolding agree_def by metis
  ultimately show ?thesis by auto
qed

text \<open>The effect of the statements as a change of rows and one new row of the ledger.\<close>

definition applied :: "(Account \<Rightarrow> Account) \<Rightarrow> Transfer list \<Rightarrow> db \<Rightarrow> db" where
  "applied g ts d = d\<lparr>accounts := map g (accounts d), transfers := transfers d @ ts\<rparr>"

definition row_change :: "attempt \<Rightarrow> (Account \<Rightarrow> Account) \<Rightarrow> bool" where
  "row_change a g \<longleftrightarrow> (\<forall>r. a_ID (g r) = a_ID r \<and> (\<not> touched a r \<longrightarrow> g r = r))"

lemma agree_applied: "agree a d c \<Longrightarrow> row_change a g \<Longrightarrow> agree a (applied g ts d) (applied g ts' c)"
proof -
  assume "agree a d c" "row_change a g"
  moreover have "filter (touched a) (map g rs) = map g (filter (touched a) rs)" if "row_change a g" for rs
    using that by (induction rs) (auto simp: row_change_def touched_def)
  ultimately show ?thesis by (simp add: agree_def applied_def)
qed

lemma AdjustBalance_local:
  assumes "AdjustBalance P arg (d, w) = (Inr b, d', w')" "agree a d c" "ab_ID arg = at_from a \<or> ab_ID arg = at_to a"
  obtains g where "row_change a g" "d' = applied g [] d" "AdjustBalance P arg (c, w) = (Inr b, applied g [] c, w')"
proof -
  let ?g = "\<lambda>r. if a_ID r = ab_ID arg then r\<lparr>a_BalanceCents := a_BalanceCents r + ab_DeltaCents arg,
    a_UpdatedAt := pg_now P w'\<rparr> else r"
  have "row_change a ?g" using assms(3) by (auto simp: row_change_def touched_def)
  moreover have "d' = applied ?g [] d" "AdjustBalance P arg (c, w) = (Inr b, applied ?g [] c, w')"
    using assms(1) agree_find [OF assms(2,3)]
    by (auto simp: AdjustBalance_def sent_def applied_def Let_def split: prod.splits option.splits if_splits)
  ultimately show thesis by (rule that)
qed

lemma InsertTransfer_local:
  assumes "InsertTransfer P arg (d, w) = (Inr row, d', w')" "agree a d c"
    and "it_FromAccountID arg = at_from a" "it_ToAccountID arg = at_to a"
    and "ir_ID row \<notin> t_ID ` set (transfers c)"
  obtains l where "t_ID l = ir_ID row" "d' = applied (\<lambda>r. r) [l] d"
    "InsertTransfer P arg (c, w) = (Inr row, applied (\<lambda>r. r) [l] c, w')"
proof -
  let ?l = "\<lparr>t_ID = ir_ID row, t_FromAccountID = it_FromAccountID arg, t_ToAccountID = it_ToAccountID arg,
      t_AmountCents = it_AmountCents arg, t_CreatedAt = ir_CreatedAt row\<rparr>"
  have ids: "it_FromAccountID arg \<in> a_ID ` set (accounts d) \<Longrightarrow> it_FromAccountID arg \<in> a_ID ` set (accounts c)"
      "it_ToAccountID arg \<in> a_ID ` set (accounts d) \<Longrightarrow> it_ToAccountID arg \<in> a_ID ` set (accounts c)"
    using agree_ids [OF assms(2)] assms(3,4) by auto
  have "d' = applied (\<lambda>r. r) [?l] d" "InsertTransfer P arg (c, w) = (Inr row, applied (\<lambda>r. r) [?l] c, w')"
    using assms(1,5) ids by (auto simp: InsertTransfer_def sent_def applied_def Let_def
      split: prod.splits option.splits if_splits)
  with that [of ?l] show thesis by simp
qed

lemma GetAccountsForUpdate_local:
  "agree a d c \<Longrightarrow> GetAccountsForUpdate P [at_from a, at_to a] (d, w) = (x, d', w') \<Longrightarrow>
   d' = d \<and> GetAccountsForUpdate P [at_from a, at_to a] (c, w) = (x, c, w')"
  by (auto simp: GetAccountsForUpdate_def sent_def agree_def touched_def [abs_def] split: prod.splits option.splits)

lemma hold_local: "hold P ms (d, w) = (x, d', w') \<Longrightarrow> d' = d \<and> hold P ms (c, w) = (x, c, w')"
  by (auto simp: hold_def sent_def split: if_splits prod.splits option.splits sum.splits)

text \<open>The statements that write, after the rows were read and the checks passed.\<close>

definition tx_writes :: "'w pg \<Rightarrow> attempt \<Rightarrow> db \<times> 'w \<Rightarrow> (int \<times> int \<times> InsertTransferRow) res \<times> db \<times> 'w" where
  "tx_writes P a s =
     (case AdjustBalance P \<lparr>ab_DeltaCents = wrap64 (- tp_AmountCents (at_params a)), ab_ID = at_from a\<rparr> s of
        (Inl err, s3) \<Rightarrow> (Inl (Wrapf ''store: debit source: %w'' [err]), s3)
      | (Inr newFrom, s3) \<Rightarrow>
     (case AdjustBalance P \<lparr>ab_DeltaCents = tp_AmountCents (at_params a), ab_ID = at_to a\<rparr> s3 of
        (Inl err, s4) \<Rightarrow> (Inl (Wrapf ''store: credit destination: %w'' [err]), s4)
      | (Inr newTo, s4) \<Rightarrow>
     (case InsertTransfer P \<lparr>it_FromAccountID = at_from a, it_ToAccountID = at_to a,
             it_AmountCents = tp_AmountCents (at_params a)\<rparr> s4 of
        (Inl err, s5) \<Rightarrow> (Inl (Wrapf ''store: record transfer: %w'' [err]), s5)
      | (Inr ledger, s5) \<Rightarrow> (Inr (newFrom, newTo, ledger), s5))))"

lemma run_tx_reads:
  assumes run: "run_tx P a (d, w) = (Inr r, d', w')" and ag: "agree a d c"
  obtains w2 where "run_tx P a (d, w) = tx_writes P a (d, w2)" "run_tx P a (c, w) = tx_writes P a (c, w2)"
proof -
  let ?p = "at_params a" and ?f = "at_from a" and ?t = "at_to a"
  obtain x d1 w1 where g1: "GetAccountsForUpdate P [?f, ?t] (d, w) = (x, d1, w1)" by (metis prod_cases3)
  have g: "d1 = d" "GetAccountsForUpdate P [?f, ?t] (c, w) = (x, c, w1)"
    using GetAccountsForUpdate_local [OF ag g1] by simp_all
  obtain rows where x: "x = Inr rows" using run g1 by (cases x) (auto simp: run_tx_def transfer_tx_def)
  obtain b b' where b: "balances_of rows (tp_FromAccountID ?p) = Some b" "balances_of rows (tp_ToAccountID ?p) = Some b'"
      "(case owners_of rows (tp_FromAccountID ?p) of Some o' \<Rightarrow> o' | None \<Rightarrow> '''') = tp_SessionUserID ?p" "\<not> b < tp_AmountCents ?p"
    using run g1 x by (auto simp: run_tx_def transfer_tx_def split: option.splits if_splits)
  obtain y d2 w2 where h1: "hold P (tp_HoldMs ?p) (d, w1) = (y, d2, w2)" by (metis prod_cases3)
  have h: "d2 = d" "hold P (tp_HoldMs ?p) (c, w1) = (y, c, w2)" using hold_local [OF h1] by simp_all
  have y: "y = Inr ()" using run g1 g x b h1 by (cases y) (auto simp: run_tx_def transfer_tx_def)
  have "run_tx P a (e, w) = tx_writes P a (e, w2)"
    if "GetAccountsForUpdate P [?f, ?t] (e, w) = (x, e, w1)" "hold P (tp_HoldMs ?p) (e, w1) = (y, e, w2)" for e
    using that x y b by (simp add: run_tx_def transfer_tx_def tx_writes_def)
  with that g1 g h1 h show thesis by metis
qed

lemma tx_writes_local:
  assumes run: "tx_writes P a (d, w) = (Inr (newFrom, newTo, ledger), d', w')" and ag: "agree a d c"
    and fresh: "ir_ID ledger \<notin> t_ID ` set (transfers c)"
  obtains g l where "row_change a g" "t_ID l = ir_ID ledger" "d' = applied g [l] d"
    "tx_writes P a (c, w) = (Inr (newFrom, newTo, ledger), applied g [l] c, w')"
proof -
  let ?f = "\<lparr>ab_DeltaCents = wrap64 (- tp_AmountCents (at_params a)), ab_ID = at_from a\<rparr>"
  let ?t = "\<lparr>ab_DeltaCents = tp_AmountCents (at_params a), ab_ID = at_to a\<rparr>"
  let ?i = "\<lparr>it_FromAccountID = at_from a, it_ToAccountID = at_to a, it_AmountCents = tp_AmountCents (at_params a)\<rparr>"
  obtain d3 w3 d4 w4 where s: "AdjustBalance P ?f (d, w) = (Inr newFrom, d3, w3)"
    "AdjustBalance P ?t (d3, w3) = (Inr newTo, d4, w4)" "InsertTransfer P ?i (d4, w4) = (Inr ledger, d', w')"
    using run unfolding tx_writes_def by (auto split: prod.splits sum.splits)
  obtain g3 where g3: "row_change a g3" "d3 = applied g3 [] d"
      "AdjustBalance P ?f (c, w) = (Inr newFrom, applied g3 [] c, w3)"
    by (rule AdjustBalance_local [OF s(1) ag]) simp_all
  have ag3: "agree a d3 (applied g3 [] c)" unfolding g3(2) by (rule agree_applied [OF ag g3(1)])
  obtain g4 where g4: "row_change a g4" "d4 = applied g4 [] d3"
      "AdjustBalance P ?t (applied g3 [] c, w3) = (Inr newTo, applied g4 [] (applied g3 [] c), w4)"
    by (rule AdjustBalance_local [OF s(2) ag3]) simp_all
  have ag4: "agree a d4 (applied g4 [] (applied g3 [] c))" unfolding g4(2) by (rule agree_applied [OF ag3 g4(1)])
  obtain l where l: "t_ID l = ir_ID ledger" "d' = applied (\<lambda>r. r) [l] d4"
      "InsertTransfer P ?i (applied g4 [] (applied g3 [] c), w4) = (Inr ledger, applied (\<lambda>r. r) [l] (applied g4 [] (applied g3 [] c)), w')"
    by (rule InsertTransfer_local [OF s(3) ag4]) (use fresh in \<open>simp_all add: applied_def\<close>)
  have comp: "applied (\<lambda>r. r) [l] (applied g4 [] (applied g3 [] e)) = applied (g4 \<circ> g3) [l] e" for e
    by (simp add: applied_def)
  have "touched a (g3 r) = touched a r" for r using g3(1) by (simp add: row_change_def touched_def)
  then have "row_change a (g4 \<circ> g3)" using g3(1) g4(1) by (auto simp: row_change_def)
  moreover have "tx_writes P a (c, w) = (Inr (newFrom, newTo, ledger), applied (g4 \<circ> g3) [l] c, w')"
    unfolding tx_writes_def using g3(3) g4(3) l(3) comp by simp
  ultimately show thesis using that l(1,2) g4(2) g3(2) comp by blast
qed

lemma run_tx_local:
  assumes run: "run_tx P a (d, w) = (Inr (newFrom, newTo, ledger), d', w')" and ag: "agree a d c"
    and fresh: "ir_ID ledger \<notin> t_ID ` set (transfers c)"
  obtains g l where "row_change a g" "t_ID l = ir_ID ledger" "d' = applied g [l] d"
    "run_tx P a (c, w) = (Inr (newFrom, newTo, ledger), applied g [l] c, w')"
proof -
  obtain w2 where "run_tx P a (d, w) = tx_writes P a (d, w2)" and c: "run_tx P a (c, w) = tx_writes P a (c, w2)"
    by (rule run_tx_reads [OF run ag])
  with run have "tx_writes P a (d, w2) = (Inr (newFrom, newTo, ledger), d', w')" by simp
  then show thesis by (rule tx_writes_local [OF _ ag fresh]) (use that c in simp)
qed

text \<open>So what is installed at the commit is what the statements would have done to the tables of that moment.\<close>

lemma install_applied:
  assumes "row_change a g" "agree a d c" "distinct (map a_ID (accounts c))"
  shows "install a d (applied g [l] d) c = applied g [l] c"
proof -
  have f: "filter (touched a) (map g rs) = map g (filter (touched a) rs)" for rs
    using assms(1) by (induction rs) (auto simp: row_change_def touched_def)
  have new: "filter (touched a) (accounts (applied g [l] d)) = map g (filter (touched a) (accounts c))"
    using assms(2) by (simp add: applied_def agree_def f)
  have "(case find (\<lambda>r'. a_ID r' = a_ID r) (map g (filter (touched a) (accounts c))) of Some r' \<Rightarrow> r' | None \<Rightarrow> r) = g r"
    if r: "r \<in> set (accounts c)" for r
  proof (cases "touched a r")
    case True
    have inj: "r' = r" if "r' \<in> set (accounts c)" "a_ID r' = a_ID r" for r'
      using that r assms(3) by (auto simp: distinct_map inj_on_def)
    have "find (\<lambda>r'. a_ID r' = a_ID r) (map g (filter (touched a) (accounts c))) \<noteq> None"
      using r True assms(1) by (auto simp: find_None_iff row_change_def)
    then obtain r' where r': "find (\<lambda>r'. a_ID r' = a_ID r) (map g (filter (touched a) (accounts c))) = Some r'" by blast
    then have "r' \<in> g ` set (accounts c)" "a_ID r' = a_ID r" using find_in_set by fastforce+
    then obtain q where "r' = g q" "q \<in> set (accounts c)" "a_ID q = a_ID r" using assms(1) by (auto simp: row_change_def)
    then have "r' = g r" using inj by blast
    with r' show ?thesis by simp
  next
    case False
    then have "find (\<lambda>r'. a_ID r' = a_ID r) (map g (filter (touched a) (accounts c))) = None"
      using assms(1) by (auto simp: find_None_iff row_change_def touched_def)
    then show ?thesis using False assms(1) by (simp add: row_change_def)
  qed
  then show ?thesis unfolding install_def new by (simp add: applied_def)
qed

section \<open>The invariant\<close>

text \<open>
  The order of identifiers: the bytes first, as the database compares them. The other components of
  the record only decide between values that are never both stored, so that the order is total.
\<close>

instantiation UUID_ext :: (linorder) linorder
begin

definition less_eq_UUID_ext :: "'a UUID_scheme \<Rightarrow> 'a UUID_scheme \<Rightarrow> bool" where
  "less_eq_UUID_ext u v \<longleftrightarrow> map unat (u_Bytes u) < map unat (u_Bytes v) \<or> map unat (u_Bytes u) = map unat (u_Bytes v) \<and>
     (u_Valid u < u_Valid v \<or> u_Valid u = u_Valid v \<and> UUID.more u \<le> UUID.more v)"

definition less_UUID_ext :: "'a UUID_scheme \<Rightarrow> 'a UUID_scheme \<Rightarrow> bool" where
  "less_UUID_ext u v \<longleftrightarrow> map unat (u_Bytes u) < map unat (u_Bytes v) \<or> map unat (u_Bytes u) = map unat (u_Bytes v) \<and>
     (u_Valid u < u_Valid v \<or> u_Valid u = u_Valid v \<and> UUID.more u < UUID.more v)"

instance
proof
  have inj: "inj (unat :: 8 word \<Rightarrow> nat)" by (rule injI) (simp add: word_unat_eq_iff)
  fix u v w :: "'a UUID_scheme"
  show "u < v \<longleftrightarrow> u \<le> v \<and> \<not> v \<le> u" by (auto simp: less_eq_UUID_ext_def less_UUID_ext_def)
  show "u \<le> u" by (simp add: less_eq_UUID_ext_def)
  show "u \<le> v \<Longrightarrow> v \<le> w \<Longrightarrow> u \<le> w" by (auto simp: less_eq_UUID_ext_def)
  show "u \<le> v \<Longrightarrow> v \<le> u \<Longrightarrow> u = v" by (auto simp: less_eq_UUID_ext_def inj_map_eq_map [OF inj])
  show "u \<le> v \<or> v \<le> u" by (auto simp: less_eq_UUID_ext_def)
qed

end

lemma uuid_key_less: "uuid_key i < uuid_key j \<Longrightarrow> i < j"
  by (simp add: less_UUID_ext_def uuid_key_def)

lemma uuid_key_inject: "uuid_ok i \<Longrightarrow> uuid_ok j \<Longrightarrow> uuid_key i = uuid_key j \<Longrightarrow> i = j"
proof -
  have "inj (unat :: 8 word \<Rightarrow> nat)" by (rule injI) (simp add: word_unat_eq_iff)
  then show "uuid_ok i \<Longrightarrow> uuid_ok j \<Longrightarrow> uuid_key i = uuid_key j \<Longrightarrow> i = j"
    by (cases i; cases j) (simp add: uuid_key_def uuid_ok_def inj_map_eq_map)
qed

lemma lock_order_sorted:
  assumes "distinct (map a_ID (accounts d))" "\<And>r. r \<in> set (accounts d) \<Longrightarrow> uuid_ok (a_ID r)"
  shows "sorted_wrt (<) (lock_order d ids)"
proof -
  let ?rs = "filter (\<lambda>r. a_ID r \<in> set ids) (accounts d)"
  have "inj_on (\<lambda>r. uuid_key (a_ID r)) (set ?rs)"
    using assms uuid_key_inject by (auto simp: distinct_map inj_on_def)
  moreover have "distinct ?rs" using assms(1) by (simp add: distinct_map)
  ultimately have "distinct (map (\<lambda>r. uuid_key (a_ID r)) (locked_accounts d ids))"
    by (simp add: locked_accounts_def distinct_map)
  moreover have "sorted (map (\<lambda>r. uuid_key (a_ID r)) (locked_accounts d ids))" by (simp add: locked_accounts_def)
  ultimately have "sorted_wrt (<) (map (\<lambda>r. uuid_key (a_ID r)) (locked_accounts d ids))"
    by (simp add: strict_sorted_iff)
  then show ?thesis
    by (auto simp: lock_order_def sorted_wrt_map intro: sorted_wrt_mono_rel [rotated] uuid_key_less)
qed

lemma set_lock_order: "i \<in> set (lock_order d ids) \<longleftrightarrow> i \<in> set ids \<and> i \<in> a_ID ` set (accounts d)"
  by (auto simp: lock_order_def)

text \<open>The rows are locked in ascending order, and a transaction has every row it does not still ask for.\<close>

definition ordered_locks :: "'w conc \<Rightarrow> bool" where
  "ordered_locks s \<longleftrightarrow> finite (dom (cs_tx s)) \<and>
     (\<forall>t x. cs_tx s t = Some x \<longrightarrow> sorted_wrt (<) (tx_pending x)) \<and>
     (\<forall>i t. cs_locks s i = Some t \<longrightarrow> (\<exists>x. cs_tx s t = Some x \<and> (\<forall>j \<in> set (tx_pending x). i < j)))"

definition rows_locked :: "'w conc \<Rightarrow> bool" where
  "rows_locked s \<longleftrightarrow> (\<forall>t x r. cs_tx s t = Some x \<longrightarrow> r \<in> set (accounts (cs_db s)) \<longrightarrow> touched (tx_attempt x) r \<longrightarrow>
     a_ID r \<in> set (tx_pending x) \<or> cs_locks s (a_ID r) = Some t)"

definition views_current :: "'w conc \<Rightarrow> bool" where
  "views_current s \<longleftrightarrow> (\<forall>t x view w. cs_tx s t = Some x \<longrightarrow> tx_ran x = Some (view, w) \<longrightarrow>
     tx_pending x = [] \<and> agree (tx_attempt x) view (cs_db s))"

definition ids_ok :: "db \<Rightarrow> bool" where
  "ids_ok d \<longleftrightarrow> distinct (map a_ID (accounts d)) \<and> (\<forall>r \<in> set (accounts d). uuid_ok (a_ID r))"

definition conc_ok :: "'w pg \<Rightarrow> db \<Rightarrow> 'w conc \<Rightarrow> bool" where
  "conc_ok P d0 s \<longleftrightarrow> ids_ok (cs_db s) \<and> ordered_locks s \<and> rows_locked s \<and> views_current s \<and>
     serial P d0 (cs_log s) = Some (cs_db s)"

lemma conc_ok_start: "ids_ok d0 \<Longrightarrow> conc_ok P d0 (conc_start d0)"
  by (simp add: conc_ok_def conc_start_def ordered_locks_def rows_locked_def views_current_def)

lemma conc_ok_Begin:
  assumes "conc_ok P d0 s" "conc_step P (Begin t a) s = Some s'"
  shows "conc_ok P d0 s'"
proof -
  let ?x = "\<lparr>tx_attempt = a, tx_pending = lock_order (cs_db s) [at_from a, at_to a], tx_ran = None\<rparr>"
  have s': "cs_tx s t = None" "s' = s\<lparr>cs_tx := (cs_tx s)(t \<mapsto> ?x)\<rparr>" using assms(2) by (auto split: if_splits)
  have "sorted_wrt (<) (tx_pending ?x)"
    using assms(1) lock_order_sorted [of "cs_db s"] by (simp add: conc_ok_def ids_ok_def)
  then have "ordered_locks s'" using assms(1) s' by (fastforce simp: conc_ok_def ordered_locks_def)
  moreover have "rows_locked s'" unfolding rows_locked_def
  proof (intro allI impI)
    fix u x r assume x: "cs_tx s' u = Some x" "r \<in> set (accounts (cs_db s'))" "touched (tx_attempt x) r"
    show "a_ID r \<in> set (tx_pending x) \<or> cs_locks s' (a_ID r) = Some u"
    proof (cases "u = t")
      case True
      have "a_ID r \<in> set [at_from a, at_to a]" "a_ID r \<in> a_ID ` set (accounts (cs_db s))"
        using True x s' by (auto simp: touched_def)
      then have "a_ID r \<in> set (lock_order (cs_db s) [at_from a, at_to a])" by (simp only: set_lock_order)
      then show ?thesis using True x(1) s' by auto
    next
      case False
      then show ?thesis using x s' assms(1) by (simp add: conc_ok_def rows_locked_def)
    qed
  qed
  moreover have "views_current s'" using assms(1) s' by (auto simp: conc_ok_def views_current_def)
  ultimately show ?thesis using assms(1) s' by (simp add: conc_ok_def)
qed

lemma conc_ok_Lock:
  assumes "conc_ok P d0 s" "conc_step P (Lock t) s = Some s'"
  shows "conc_ok P d0 s'"
proof -
  obtain x i rest where x: "cs_tx s t = Some x" "tx_pending x = i # rest" "cs_locks s i = None"
    and s': "s' = s\<lparr>cs_locks := (cs_locks s)(i \<mapsto> t), cs_tx := (cs_tx s)(t \<mapsto> x\<lparr>tx_pending := rest\<rparr>)\<rparr>"
    using assms(2) by (auto split: option.splits list.splits if_splits)
  have sorted: "sorted_wrt (<) (i # rest)" using assms(1) x(1,2) unfolding conc_ok_def ordered_locks_def by metis
  have "ordered_locks s'" unfolding ordered_locks_def
  proof (intro conjI allI impI)
    fix j t' assume "cs_locks s' j = Some t'"
    then show "\<exists>y. cs_tx s' t' = Some y \<and> (\<forall>k \<in> set (tx_pending y). j < k)"
      using assms(1) x s' by (fastforce simp: conc_ok_def ordered_locks_def split: if_splits)
  qed (use assms(1) x s' sorted in \<open>auto simp: conc_ok_def ordered_locks_def split: if_splits\<close>)
  moreover have "rows_locked s'" using assms(1) x s' by (fastforce simp: conc_ok_def rows_locked_def)
  moreover have "views_current s'" using assms(1) x s' by (fastforce simp: conc_ok_def views_current_def split: if_splits)
  ultimately show ?thesis using assms(1) s' by (simp add: conc_ok_def)
qed

lemma conc_ok_Run:
  assumes "conc_ok P d0 s" "conc_step P (Run t w) s = Some s'"
  shows "conc_ok P d0 s'"
proof -
  obtain x where x: "cs_tx s t = Some x" "tx_pending x = []"
    and s': "s' = s\<lparr>cs_tx := (cs_tx s)(t \<mapsto> x\<lparr>tx_ran := Some (cs_db s, w)\<rparr>)\<rparr>"
    using assms(2) by (auto split: option.splits if_splits)
  have "ordered_locks s'" using assms(1) x s' by (fastforce simp: conc_ok_def ordered_locks_def)
  moreover have "rows_locked s'" using assms(1) x s' by (fastforce simp: conc_ok_def rows_locked_def)
  moreover have "views_current s'" using assms(1) x s' by (auto simp: conc_ok_def views_current_def agree_def split: if_splits)
  ultimately show ?thesis using assms(1) s' by (simp add: conc_ok_def)
qed

lemma ordered_locks_end:
  "ordered_locks s \<Longrightarrow> ordered_locks (s\<lparr>cs_db := d, cs_locks := release t (cs_locks s), cs_tx := (cs_tx s)(t := None), cs_log := l\<rparr>)"
  unfolding ordered_locks_def release_def by (auto split: if_splits)

lemma conc_ok_Rollback:
  assumes "conc_ok P d0 s" "conc_step P (Rollback t) s = Some s'"
  shows "conc_ok P d0 s'"
proof -
  have s': "s' = s\<lparr>cs_locks := release t (cs_locks s), cs_tx := (cs_tx s)(t := None)\<rparr>"
    using assms(2) by (auto split: if_splits)
  have "ordered_locks s'"
    using ordered_locks_end [where s = s and d = "cs_db s" and t = t and l = "cs_log s"] assms(1) s' by (simp add: conc_ok_def)
  moreover have "rows_locked s'" using assms(1) s' by (fastforce simp: conc_ok_def rows_locked_def release_def)
  moreover have "views_current s'" using assms(1) s' by (auto simp: conc_ok_def views_current_def)
  ultimately show ?thesis using assms(1) s' by (simp add: conc_ok_def)
qed

lemma serial_append:
  "serial P d (l @ l') = (case serial P d l of None \<Rightarrow> None | Some d' \<Rightarrow> serial P d' l')"
  by (induction P d l rule: serial.induct) (auto split: prod.splits sum.splits)

lemma ids_ok_applied: "row_change a g \<Longrightarrow> ids_ok (applied g ts d) = ids_ok d"
  by (simp add: ids_ok_def applied_def row_change_def comp_def)

text \<open>
  The commit: the tables it installs are those of the statements executed at that moment, and no other
  transaction that has executed its statements looked at a row that changes, because it has locked them.
\<close>

abbreviation committed :: "nat \<Rightarrow> db \<Rightarrow> (attempt \<times> 'w \<times> int \<times> int \<times> InsertTransferRow) list \<Rightarrow> 'w conc \<Rightarrow> 'w conc" where
  "committed t d l s \<equiv> s\<lparr>cs_db := d, cs_locks := release t (cs_locks s), cs_tx := (cs_tx s)(t := None), cs_log := l\<rparr>"

lemma row_change_touched: "row_change a g \<Longrightarrow> a_ID (g r) = a_ID r \<and> touched b (g r) = touched b r"
  by (simp add: row_change_def touched_def)

lemma rows_locked_commit:
  assumes ok: "rows_locked s" and g: "row_change a g"
  shows "rows_locked (committed t (applied g ts (cs_db s)) l s)"
  unfolding rows_locked_def
proof (intro allI impI)
  let ?s' = "committed t (applied g ts (cs_db s)) l s"
  fix u y r assume y: "cs_tx ?s' u = Some y" "r \<in> set (accounts (cs_db ?s'))" "touched (tx_attempt y) r"
  then obtain q where q: "q \<in> set (accounts (cs_db s))" "r = g q" by (auto simp: applied_def)
  have u: "u \<noteq> t" "cs_tx s u = Some y" using y(1) by (auto split: if_splits)
  have "touched (tx_attempt y) q" using q(2) y(3) row_change_touched [OF g] by simp
  then have "a_ID q \<in> set (tx_pending y) \<or> cs_locks s (a_ID q) = Some u"
    using ok u(2) q(1) unfolding rows_locked_def by blast
  then show "a_ID r \<in> set (tx_pending y) \<or> cs_locks ?s' (a_ID r) = Some u"
    using u(1) q(2) row_change_touched [OF g] by (auto simp: release_def)
qed

lemma locked_row: "rows_locked s \<Longrightarrow> cs_tx s t = Some x \<Longrightarrow> tx_pending x = [] \<Longrightarrow> r \<in> set (accounts (cs_db s)) \<Longrightarrow>
   touched (tx_attempt x) r \<Longrightarrow> cs_locks s (a_ID r) = Some t"
  by (fastforce simp: rows_locked_def)

lemma views_current_commit:
  assumes ok: "rows_locked s" "views_current s" and x: "cs_tx s t = Some x" "tx_pending x = []"
    and g: "row_change (tx_attempt x) g"
  shows "views_current (committed t (applied g ts (cs_db s)) l s)"
  unfolding views_current_def
proof (intro allI impI)
  let ?s' = "committed t (applied g ts (cs_db s)) l s"
  fix u y view w assume y: "cs_tx ?s' u = Some y" "tx_ran y = Some (view, w)"
  then have u: "u \<noteq> t" "cs_tx s u = Some y" by (auto split: if_splits)
  have p: "tx_pending y = []" "agree (tx_attempt y) view (cs_db s)" using ok(2) y(2) u by (auto simp: views_current_def)
  have "g r = r" if r: "r \<in> set (accounts (cs_db s))" "touched (tx_attempt y) r" for r
    using locked_row [OF ok(1) u(2) p(1) r] locked_row [OF ok(1) x r(1)] u(1) g by (auto simp: row_change_def)
  then have "filter (touched (tx_attempt y)) (map g (accounts (cs_db s))) = filter (touched (tx_attempt y)) (accounts (cs_db s))"
    using row_change_touched [OF g] by (auto simp: filter_map comp_def intro: map_idI)
  then show "tx_pending y = [] \<and> agree (tx_attempt y) view (cs_db ?s')"
    using p by (simp add: agree_def applied_def)
qed

lemma conc_ok_Commit:
  assumes ok: "conc_ok P d0 s" and step: "conc_step P (Commit t) s = Some s'"
  shows "conc_ok P d0 s'"
proof -
  obtain x view w newFrom newTo ledger new w' where x: "cs_tx s t = Some x" "tx_ran x = Some (view, w)"
    and run: "run_tx P (tx_attempt x) (view, w) = (Inr (newFrom, newTo, ledger), new, w')"
    and fresh: "ir_ID ledger \<notin> t_ID ` set (transfers (cs_db s))"
    and s': "s' = committed t (install (tx_attempt x) view new (cs_db s)) (cs_log s @ [(tx_attempt x, w, newFrom, newTo, ledger)]) s"
    using step by (auto split: option.splits prod.splits sum.splits if_splits)
  have v: "tx_pending x = []" "agree (tx_attempt x) view (cs_db s)" using ok x by (auto simp: conc_ok_def views_current_def)
  obtain g l where g: "row_change (tx_attempt x) g" "new = applied g [l] view"
    "run_tx P (tx_attempt x) (cs_db s, w) = (Inr (newFrom, newTo, ledger), applied g [l] (cs_db s), w')"
    by (rule run_tx_local [OF run v(2) fresh])
  have "install (tx_attempt x) view new (cs_db s) = applied g [l] (cs_db s)"
    using install_applied [OF g(1) v(2)] g(2) ok by (simp add: conc_ok_def ids_ok_def)
  with s' have s'': "s' = committed t (applied g [l] (cs_db s)) (cs_log s @ [(tx_attempt x, w, newFrom, newTo, ledger)]) s" by simp
  have "ordered_locks s'" "rows_locked s'" "views_current s'" unfolding s''
    using ok ordered_locks_end rows_locked_commit [OF _ g(1)] views_current_commit [OF _ _ x(1) v(1) g(1)] by (auto simp: conc_ok_def)
  moreover have "serial P d0 (cs_log s') = Some (cs_db s')" "ids_ok (cs_db s')"
    using ok g(1,3) s'' by (simp_all add: conc_ok_def serial_append ids_ok_applied)
  ultimately show ?thesis by (simp add: conc_ok_def)
qed

lemma conc_ok_step: "conc_ok P d0 s \<Longrightarrow> conc_step P e s = Some s' \<Longrightarrow> conc_ok P d0 s'"
  by (cases e) (blast intro: conc_ok_Begin conc_ok_Lock conc_ok_Run conc_ok_Commit conc_ok_Rollback)+

lemma interleaved_ok: "interleaved P d0 s \<Longrightarrow> ids_ok d0 \<Longrightarrow> conc_ok P d0 s"
  by (induction rule: interleaved.induct) (auto intro: conc_ok_start conc_ok_step)

lemma db_wf_ids_ok: "db_wf d \<Longrightarrow> ids_ok d"
  by (auto simp: db_wf_def ids_ok_def account_ok_def)

section \<open>No deadlock\<close>

text \<open>The row a transaction asks for next.\<close>

definition wants :: "'w conc \<Rightarrow> nat \<Rightarrow> UUID" where
  "wants s t = hd (tx_pending (the (cs_tx s t)))"

lemma waits_ascend:
  assumes "ordered_locks s" "waits s t t'" "waits s t' t''"
  shows "wants s t < wants s t'"
proof -
  obtain x i rest where x: "cs_tx s t = Some x" "tx_pending x = i # rest" "cs_locks s i = Some t'"
    using assms(2) by (auto simp: waits_def split: option.splits list.splits)
  moreover obtain y j rest' where "cs_tx s t' = Some y" "tx_pending y = j # rest'"
    using assms(3) by (auto simp: waits_def split: option.splits list.splits)
  ultimately show ?thesis using assms(1) by (fastforce simp: ordered_locks_def wants_def)
qed

lemma waits_path_ascends:
  "(t, t') \<in> {(t, t'). waits s t t'}\<^sup>+ \<Longrightarrow> ordered_locks s \<Longrightarrow> waits s t' t'' \<Longrightarrow> wants s t < wants s t'"
proof (induction arbitrary: t'' rule: trancl_induct)
  case (base y)
  then show ?case using waits_ascend by fastforce
next
  case (step y z)
  then have "wants s t < wants s y" "wants s y < wants s z" using waits_ascend by fastforce+
  then show ?case by (rule less_trans)
qed

lemma waits_acyclic: "ordered_locks s \<Longrightarrow> acyclic {(t, t'). waits s t t'}"
proof (rule acyclicI, intro allI notI)
  fix t assume o: "ordered_locks s" and c: "(t, t) \<in> {(t, t'). waits s t t'}\<^sup>+"
  then obtain t'' where "waits s t t''" by (auto dest: tranclD)
  with waits_path_ascends [OF c o] show False by blast
qed

lemma waits_active: "ordered_locks s \<Longrightarrow> waits s t t' \<Longrightarrow> t \<in> dom (cs_tx s) \<and> t' \<in> dom (cs_tx s)"
  by (auto simp: waits_def ordered_locks_def split: option.splits list.splits) blast

lemma some_does_not_wait:
  assumes o: "ordered_locks s" and t: "cs_tx s t \<noteq> None"
  shows "\<exists>t'. cs_tx s t' \<noteq> None \<and> (\<forall>u. \<not> waits s t' u)"
proof -
  let ?R = "{(t, t'). waits s t t'}"
  have "?R \<subseteq> dom (cs_tx s) \<times> dom (cs_tx s)" using waits_active [OF o] by blast
  moreover have "finite (dom (cs_tx s))" using o by (simp add: ordered_locks_def)
  ultimately have "finite ?R" by (meson finite_SigmaI finite_subset)
  then have wf: "wf (?R\<inverse>)" using waits_acyclic [OF o] by (rule finite_acyclic_wf_converse)
  have "t \<in> dom (cs_tx s)" using t by blast
  then obtain z where z: "z \<in> dom (cs_tx s)" "\<And>y. (y, z) \<in> ?R\<inverse> \<Longrightarrow> y \<notin> dom (cs_tx s)"
    by (rule wfE_min [OF wf]) iprover
  then show ?thesis using waits_active [OF o] by blast
qed

lemma next_lock_is_free:
  assumes "ordered_locks s" "cs_tx s t = Some x" "\<forall>u. \<not> waits s t u"
  shows "tx_pending x = [] \<or> conc_step P (Lock t) s \<noteq> None"
  using assms by (cases "tx_pending x") (auto simp: waits_def)

section \<open>Serial execution\<close>

context pg_service
begin

lemma serial_keeps_the_books:
  "serial P d log = Some d' \<Longrightarrow> db_wf d \<Longrightarrow>
   (\<And>x. x \<in> set log \<Longrightarrow> parsed P (at_params (fst x)) (at_from (fst x)) (at_to (fst x))) \<Longrightarrow>
   db_wf d' \<and> total d' = total d \<and> opening_balances d' = opening_balances d"
proof (induction log arbitrary: d)
  case (Cons e log)
  obtain a w r where e: "e = (a, w, r)" by (cases e)
  obtain d1 w1 where run: "run_tx P a (d, w) = (Inr r, d1, w1)" and rest: "serial P d1 log = Some d'"
    using Cons.prems(1) e by (auto split: prod.splits sum.splits if_splits)
  obtain newFrom newTo ledger where r: "r = (newFrom, newTo, ledger)" by (cases r)
  have p: "parsed P (at_params a) (at_from a) (at_to a)" using Cons.prems(3) [of e] e by simp
  note ok = transfer_tx_ok [OF run [unfolded r run_tx_def] Cons.prems(2) p]
  have "opening_balances d1 = opening_balances d" using ok moved_opening_balances by blast
  with Cons.IH [OF rest] Cons.prems(3) ok show ?case by simp
qed simp

end

section \<open>A schedule in memory\<close>

fun conc_run :: "'w pg \<Rightarrow> 'w event list \<Rightarrow> 'w conc \<Rightarrow> 'w conc option" where
  "conc_run P [] s = Some s"
| "conc_run P (e # es) s = (case conc_step P e s of None \<Rightarrow> None | Some s' \<Rightarrow> conc_run P es s')"

lemma conc_run_interleaved: "interleaved P d0 s \<Longrightarrow> conc_run P es s = Some s' \<Longrightarrow> interleaved P d0 s'"
  by (induction es arbitrary: s) (auto split: option.splits intro: interleaved.event)

definition alice_pays :: attempt where
  "alice_pays = \<lparr>at_params = alice_to_bob 2500, at_from = mem_uuid 2, at_to = mem_uuid 4\<rparr>"

text \<open>Bob pays at the same time, from the row that Alice's transfer locks last.\<close>

definition bob_pays :: attempt where
  "bob_pays = \<lparr>at_params = (alice_to_bob 1000)\<lparr>tp_SessionUserID := uuidString (mem_uuid 3),
       tp_FromAccountID := uuidString (mem_uuid 4), tp_ToAccountID := uuidString (mem_uuid 2)\<rparr>,
     at_from = mem_uuid 4, at_to = mem_uuid 2\<rparr>"

definition both_begin :: "appmem event list" where
  "both_begin = [Begin 1 alice_pays, Begin 2 bob_pays, Lock 1]"

definition both_commit :: "appmem event list" where
  "both_commit = both_begin @ [Lock 1, Run 1 app_both, Commit 1, Lock 2, Lock 2, Run 2 (app_both\<lparr>mem_next := 9\<rparr>), Commit 2]"

definition after_events :: "appmem event list \<Rightarrow> appmem conc" where
  "after_events es = the (conc_run mem_pg es (conc_start (pg_db mem_pg app_both)))"

lemma after_events_interleaved:
  "conc_run mem_pg es (conc_start (pg_db mem_pg app_both)) \<noteq> None \<Longrightarrow>
   interleaved mem_pg (pg_db mem_pg app_both) (after_events es)"
  unfolding after_events_def by (auto intro: conc_run_interleaved [OF interleaved.start])

lemma schedules_run:
  "\<not> Option.is_none (conc_run mem_pg both_begin (conc_start (pg_db mem_pg app_both)))"
  "\<not> Option.is_none (conc_run mem_pg both_commit (conc_start (pg_db mem_pg app_both)))"
  by code_simp+

section \<open>Properties\<close>

text \<open>
  C9: concurrent transfers do not deadlock. However the attempts of any number of callers are
  interleaved, and whatever accounts they name, no transactions wait for each other in a circle, and while some
  transaction is running, one of them either has its rows or can lock the next one.
\<close>

theorem transfers_never_deadlock:
  assumes "db_wf d0" and "interleaved P d0 s"
  shows "acyclic {(t, t'). waits s t t'} \<and>
    (cs_tx s t \<noteq> None \<longrightarrow>
      (\<exists>t' x. cs_tx s t' = Some x \<and> (tx_pending x = [] \<or> conc_step P (Lock t') s \<noteq> None)))"
proof -
  have o: "ordered_locks s" using interleaved_ok [OF assms(2) db_wf_ids_ok [OF assms(1)]] by (simp add: conc_ok_def)
  then show ?thesis using waits_acyclic some_does_not_wait [OF o] next_lock_is_free [OF o] by blast
qed

theorem transfers_never_deadlock_witness:
  "waits (after_events both_begin) 2 1 \<and> acyclic {(t, t'). waits (after_events both_begin) t t'} \<and>
   (\<exists>t' x. cs_tx (after_events both_begin) t' = Some x \<and>
      (tx_pending x = [] \<or> conc_step mem_pg (Lock t') (after_events both_begin) \<noteq> None))"
proof -
  have i: "interleaved mem_pg (pg_db mem_pg app_both) (after_events both_begin)"
    using schedules_run(1) by (intro after_events_interleaved) (simp add: Option.is_none_def)
  have "\<not> Option.is_none (cs_tx (after_events both_begin) 1)" "waits (after_events both_begin) 2 1" by code_simp+
  with transfers_never_deadlock [OF app_both_wf i, of 1] show ?thesis by (simp add: Option.is_none_def)
qed

text \<open>
  C8: concurrent transfers have the effect of some serial order. Whatever the interleaving of
  attempts, the committed tables are those that the committed attempts leave when they are executed one
  after the other in the order of their commits, each with the balances and the ledger entry it
  reported; so no update is lost, the schema holds, no money appears or vanishes, and the ledger explains every balance.
\<close>

theorem interleaved_transfers_are_serial:
  assumes "pg_service P" and "db_wf d0" and "interleaved P d0 s"
    and "\<And>x. x \<in> set (cs_log s) \<Longrightarrow> parsed P (at_params (fst x)) (at_from (fst x)) (at_to (fst x))"
  shows "serial P d0 (cs_log s) = Some (cs_db s) \<and> db_wf (cs_db s) \<and> total (cs_db s) = total d0 \<and>
    opening_balances (cs_db s) = opening_balances d0"
proof -
  have "serial P d0 (cs_log s) = Some (cs_db s)"
    using interleaved_ok [OF assms(3) db_wf_ids_ok [OF assms(2)]] by (simp add: conc_ok_def)
  with pg_service.serial_keeps_the_books [OF assms(1) this assms(2,4)] show ?thesis by simp
qed

lemma both_commit_log: "list_all (\<lambda>x. fst x = alice_pays \<or> fst x = bob_pays) (cs_log (after_events both_commit))"
  by code_simp

lemma both_parsed:
  "parsed (mem_pg :: appmem pg) (at_params alice_pays) (at_from alice_pays) (at_to alice_pays)"
  "parsed (mem_pg :: appmem pg) (at_params bob_pays) (at_from bob_pays) (at_to bob_pays)"
proof -
  have scan: "pg_scan_uuid (mem_pg :: appmem pg) (uuidString (mem_uuid n)) = Inr (mem_uuid n)" for n
    by (simp add: mem_pg_def scan_uuidString uuid_ok_def mem_uuid_def)
  have "uuidString (mem_uuid 2) \<noteq> uuidString (mem_uuid 4)" by code_simp
  then show "parsed (mem_pg :: appmem pg) (at_params alice_pays) (at_from alice_pays) (at_to alice_pays)"
    "parsed (mem_pg :: appmem pg) (at_params bob_pays) (at_from bob_pays) (at_to bob_pays)"
    by (auto simp: parsed_def alice_pays_def bob_pays_def alice_to_bob_def scan)
qed

theorem interleaved_transfers_are_serial_witness:
  "length (cs_log (after_events both_commit)) = 2 \<and>
   map a_BalanceCents (accounts (cs_db (after_events both_commit))) = [98500, 101500] \<and>
   serial mem_pg (pg_db mem_pg app_both) (cs_log (after_events both_commit)) = Some (cs_db (after_events both_commit)) \<and>
   total (cs_db (after_events both_commit)) = total (pg_db mem_pg app_both)"
proof -
  have i: "interleaved mem_pg (pg_db mem_pg app_both) (after_events both_commit)"
    using schedules_run(2) by (intro after_events_interleaved) (simp add: Option.is_none_def)
  have "parsed (mem_pg :: appmem pg) (at_params (fst x)) (at_from (fst x)) (at_to (fst x))" if "x \<in> set (cs_log (after_events both_commit))" for x
    using both_commit_log both_parsed that unfolding list_all_iff by metis
  note ser = interleaved_transfers_are_serial [OF mem_pg.pg_service_axioms app_both_wf i this]
  have "length (cs_log (after_events both_commit)) = 2"
    "map a_BalanceCents (accounts (cs_db (after_events both_commit))) = [98500, 101500]" by code_simp+
  with ser show ?thesis by simp
qed

end
