(* ===== verification/Http.thy ===== *)
theory Http
  imports Auth_Session GoNet
begin

text \<open>
  Requests and request contexts: the fields of \<^verbatim>\<open>http.Request\<close> that the handlers read, the chain of
  values of a \<^verbatim>\<open>context.Context\<close> with the keys of \<^verbatim>\<open>internal/httpapi/reqcontext.go\<close>, headers and
  cookies.

  A request carries its context and a context can carry the request it belongs to, as the
  middleware \<^verbatim>\<open>withRequest\<close> arranges it, so the two types are mutually recursive.
\<close>

type_synonym HeaderMap = "string \<rightharpoonup> string list"

datatype Request =
  Request (Method: string) (URL_Path: string) (URL_Query: HeaderMap) (Header: HeaderMap)
    (RemoteAddr: string) (TLS: bool) (Context: Ctx)
and Ctx = Background | WithValue ctxValue Ctx
and ctxValue = requestCtx Request | clientIPCtx Addr | clientSchemeCtx string | sessionCtx Session

text \<open>\<^verbatim>\<open>r.WithContext(ctx)\<close>, and \<^verbatim>\<open>ctx.Value(key)\<close> with the type assertion of its caller.\<close>

fun WithContext :: "Request \<Rightarrow> Ctx \<Rightarrow> Request" where
  "WithContext (Request m p q h a t _) ctx = Request m p q h a t ctx"

fun requestFrom :: "Ctx \<Rightarrow> Request option" where
  "requestFrom Background = None"
| "requestFrom (WithValue (requestCtx r) _) = Some r"
| "requestFrom (WithValue _ c) = requestFrom c"

fun clientIPFrom :: "Ctx \<Rightarrow> Addr option" where
  "clientIPFrom Background = None"
| "clientIPFrom (WithValue (clientIPCtx a) _) = Some a"
| "clientIPFrom (WithValue _ c) = clientIPFrom c"

fun schemeFrom :: "Ctx \<Rightarrow> string option" where
  "schemeFrom Background = None"
| "schemeFrom (WithValue (clientSchemeCtx s) _) = Some s"
| "schemeFrom (WithValue _ c) = schemeFrom c"

fun sessionFrom :: "Ctx \<Rightarrow> Session option" where
  "sessionFrom Background = None"
| "sessionFrom (WithValue (sessionCtx s) _) = Some s"
| "sessionFrom (WithValue _ c) = sessionFrom c"

definition withSession :: "Ctx \<Rightarrow> Session \<Rightarrow> Ctx" where
  "withSession ctx sess = WithValue (sessionCtx sess) ctx"

text \<open>The middleware \<^verbatim>\<open>withRequest\<close>; \<open>next\<close> is the rest of the stack, whatever it yields.\<close>

definition withRequest :: "(Request \<Rightarrow> 'r) \<Rightarrow> Request \<Rightarrow> 'r" where
  "withRequest next r = next (WithContext r (WithValue (requestCtx r) (Context r)))"

lemma WithContext_sel [simp]:
  "Context (WithContext r ctx) = ctx" "Header (WithContext r ctx) = Header r"
  "RemoteAddr (WithContext r ctx) = RemoteAddr r" "TLS (WithContext r ctx) = TLS r"
  "Method (WithContext r ctx) = Method r" "URL_Path (WithContext r ctx) = URL_Path r"
  "URL_Query (WithContext r ctx) = URL_Query r"
  by (cases r; simp)+

section \<open>Headers and cookies\<close>

text \<open>
  \<^verbatim>\<open>Header.Get\<close>: the first value under the canonical name, or the empty string. The callers pass
  constant names, given here in their canonical form.
\<close>

definition Header_Get :: "HeaderMap \<Rightarrow> string \<Rightarrow> string" where
  "Header_Get h name = (case h name of Some (v # _) \<Rightarrow> v | _ \<Rightarrow> [])"

definition UserAgent :: "Request \<Rightarrow> string" where
  "UserAgent r = Header_Get (Header r) ''User-Agent''"

text \<open>\<^verbatim>\<open>textproto.TrimString\<close>: ASCII space, tab, line feed and carriage return.\<close>

definition ascii_space :: "char \<Rightarrow> bool" where
  "ascii_space c \<longleftrightarrow> c = CHR '' '' \<or> c = CHR 0x09 \<or> c = CHR 0x0A \<or> c = CHR 0x0D"

definition TrimString :: "string \<Rightarrow> string" where
  "TrimString s = rev (dropWhile ascii_space (rev (dropWhile ascii_space s)))"

definition token_char :: "char \<Rightarrow> bool" where
  "token_char c \<longleftrightarrow> (let n = of_char c :: int in 48 \<le> n \<and> n \<le> 57 \<or> 65 \<le> n \<and> n \<le> 90 \<or> 97 \<le> n \<and> n \<le> 122) \<or>
     c \<in> set ''!#$%&*+-.^_`|~'' \<or> c = CHR 0x27"

definition isToken :: "string \<Rightarrow> bool" where
  "isToken s \<longleftrightarrow> s \<noteq> [] \<and> list_all token_char s"

definition validCookieValueByte :: "char \<Rightarrow> bool" where
  "validCookieValueByte c \<longleftrightarrow> (let n = of_char c :: int in 0x20 \<le> n \<and> n < 0x7F) \<and>
     c \<noteq> CHR 0x22 \<and> c \<noteq> CHR '';'' \<and> c \<noteq> CHR 0x5C"

definition parseCookieValue :: "string \<Rightarrow> string option" where
  "parseCookieValue raw =
     (let v = (if 1 < length raw \<and> hd raw = CHR 0x22 \<and> last raw = CHR 0x22
               then butlast (tl raw) else raw)
      in if list_all validCookieValueByte v then Some v else None)"

text \<open>The value of the cookie \<open>name\<close> in one \<^verbatim>\<open>name=value\<close> part of a \<^verbatim>\<open>Cookie\<close> header.\<close>

definition cookie_part :: "string \<Rightarrow> string \<Rightarrow> string option" where
  "cookie_part name part =
     (let p = TrimString part;
          n = TrimString (takeWhile (\<lambda>c. c \<noteq> CHR ''='') p);
          v = drop 1 (dropWhile (\<lambda>c. c \<noteq> CHR ''='') p)
      in if p = [] \<or> \<not> isToken n \<or> n \<noteq> name then None else parseCookieValue v)"

text \<open>
  \<^verbatim>\<open>r.Cookie(name)\<close>: the value of the first well-formed cookie of that name over all \<^verbatim>\<open>Cookie\<close>
  headers.
\<close>

definition Cookie :: "Request \<Rightarrow> string \<Rightarrow> string option" where
  "Cookie r name =
     (if name = [] then None
      else (let parts = concat (map (\<lambda>line. split_on (CHR '';'') (TrimString line))
                  (case Header r ''Cookie'' of Some ls \<Rightarrow> ls | None \<Rightarrow> []))
            in case List.map_filter (cookie_part name) parts of [] \<Rightarrow> None | v # _ \<Rightarrow> Some v))"

lemma Cookie_WithContext [simp]: "Cookie (WithContext r ctx) name = Cookie r name"
  by (simp add: Cookie_def)

end
