(* ===== verification/Api_Types.thy ===== *)
theory Api_Types
  imports Complex_Main Http
begin

text \<open>
  The data types of the HTTP interface, from the generated \<^verbatim>\<open>internal/httpapi/openapi.gen.go\<close>: the
  enumerations with their membership tests and the request and response bodies.

  A body is the Go value that is handed to the JSON encoder, not its text. A UUID
  (\<^verbatim>\<open>openapi_types.UUID\<close>, which is \<^verbatim>\<open>google/uuid\<close>'s type) is its 16 bytes.
\<close>

type_synonym uuid = "8 word list"

section \<open>Enumerations\<close>

text \<open>
  The enumerations are string types; a value outside the list is possible, which is what \<^verbatim>\<open>Valid\<close> asks.
\<close>

type_synonym AdminUserRole = string
type_synonym DependencyCheckStatus = string
type_synonym EchoResponseScheme = string
type_synonym LivezResponseStatus = string
type_synonym ReadyzResponseStatus = string
type_synonym SchemeResponseScheme = string
type_synonym StartupzResponseStatus = string
type_synonym UserResponseRole = string
type_synonym IsolationQuery = string
type_synonym PostTransferParamsIsolation = string

definition AdminUserRoleAdmin :: AdminUserRole where "AdminUserRoleAdmin = ''admin''"
definition AdminUserRoleUser :: AdminUserRole where "AdminUserRoleUser = ''user''"

definition AdminUserRole_Valid :: "AdminUserRole \<Rightarrow> bool" where
  "AdminUserRole_Valid e = (if e = AdminUserRoleAdmin then True else (if e = AdminUserRoleUser then True else False))"

definition DependencyCheckStatusError :: DependencyCheckStatus where "DependencyCheckStatusError = ''error''"
definition DependencyCheckStatusOk :: DependencyCheckStatus where "DependencyCheckStatusOk = ''ok''"
definition DependencyCheckStatusSkipped :: DependencyCheckStatus where "DependencyCheckStatusSkipped = ''skipped''"

definition DependencyCheckStatus_Valid :: "DependencyCheckStatus \<Rightarrow> bool" where
  "DependencyCheckStatus_Valid e = (if e = DependencyCheckStatusError then True else (if e = DependencyCheckStatusOk then True else (if e = DependencyCheckStatusSkipped then True else False)))"

definition EchoResponseSchemeHttp :: EchoResponseScheme where "EchoResponseSchemeHttp = ''http''"
definition EchoResponseSchemeHttps :: EchoResponseScheme where "EchoResponseSchemeHttps = ''https''"

definition EchoResponseScheme_Valid :: "EchoResponseScheme \<Rightarrow> bool" where
  "EchoResponseScheme_Valid e = (if e = EchoResponseSchemeHttp then True else (if e = EchoResponseSchemeHttps then True else False))"

definition LivezResponseStatusOk :: LivezResponseStatus where "LivezResponseStatusOk = ''ok''"

definition LivezResponseStatus_Valid :: "LivezResponseStatus \<Rightarrow> bool" where
  "LivezResponseStatus_Valid e = (if e = LivezResponseStatusOk then True else False)"

definition NotReady :: ReadyzResponseStatus where "NotReady = ''not_ready''"
definition Ready :: ReadyzResponseStatus where "Ready = ''ready''"

definition ReadyzResponseStatus_Valid :: "ReadyzResponseStatus \<Rightarrow> bool" where
  "ReadyzResponseStatus_Valid e = (if e = NotReady then True else (if e = Ready then True else False))"

definition SchemeResponseSchemeHttp :: SchemeResponseScheme where "SchemeResponseSchemeHttp = ''http''"
definition SchemeResponseSchemeHttps :: SchemeResponseScheme where "SchemeResponseSchemeHttps = ''https''"

definition SchemeResponseScheme_Valid :: "SchemeResponseScheme \<Rightarrow> bool" where
  "SchemeResponseScheme_Valid e = (if e = SchemeResponseSchemeHttp then True else (if e = SchemeResponseSchemeHttps then True else False))"

definition Started :: StartupzResponseStatus where "Started = ''started''"
definition Starting :: StartupzResponseStatus where "Starting = ''starting''"

definition StartupzResponseStatus_Valid :: "StartupzResponseStatus \<Rightarrow> bool" where
  "StartupzResponseStatus_Valid e = (if e = Started then True else (if e = Starting then True else False))"

definition UserResponseRoleAdmin :: UserResponseRole where "UserResponseRoleAdmin = ''admin''"
definition UserResponseRoleUser :: UserResponseRole where "UserResponseRoleUser = ''user''"

definition UserResponseRole_Valid :: "UserResponseRole \<Rightarrow> bool" where
  "UserResponseRole_Valid e = (if e = UserResponseRoleAdmin then True else (if e = UserResponseRoleUser then True else False))"

definition IsolationQueryReadCommitted :: IsolationQuery where "IsolationQueryReadCommitted = ''read-committed''"
definition IsolationQueryRepeatableRead :: IsolationQuery where "IsolationQueryRepeatableRead = ''repeatable-read''"
definition IsolationQuerySerializable :: IsolationQuery where "IsolationQuerySerializable = ''serializable''"

definition IsolationQuery_Valid :: "IsolationQuery \<Rightarrow> bool" where
  "IsolationQuery_Valid e = (if e = IsolationQueryReadCommitted then True else (if e = IsolationQueryRepeatableRead then True else (if e = IsolationQuerySerializable then True else False)))"

definition PostTransferParamsIsolationReadCommitted :: PostTransferParamsIsolation where "PostTransferParamsIsolationReadCommitted = ''read-committed''"
definition PostTransferParamsIsolationRepeatableRead :: PostTransferParamsIsolation where "PostTransferParamsIsolationRepeatableRead = ''repeatable-read''"
definition PostTransferParamsIsolationSerializable :: PostTransferParamsIsolation where "PostTransferParamsIsolationSerializable = ''serializable''"

definition PostTransferParamsIsolation_Valid :: "PostTransferParamsIsolation \<Rightarrow> bool" where
  "PostTransferParamsIsolation_Valid e = (if e = PostTransferParamsIsolationReadCommitted then True else (if e = PostTransferParamsIsolationRepeatableRead then True else (if e = PostTransferParamsIsolationSerializable then True else False)))"

section \<open>Bodies\<close>

record AdminAccount =
  AdminAccount_BalanceCents :: int
  AdminAccount_CreatedAt :: Time
  AdminAccount_Id :: uuid
  AdminAccount_Name :: string
  AdminAccount_OwnerUsername :: string

record AccountListResponse =
  AccountListResponse_Accounts :: "AdminAccount list"

record AdminTransfer =
  AdminTransfer_AmountCents :: int
  AdminTransfer_CreatedAt :: Time
  AdminTransfer_FromAccountId :: uuid
  AdminTransfer_FromAccountName :: string
  AdminTransfer_Id :: uuid
  AdminTransfer_ToAccountId :: uuid
  AdminTransfer_ToAccountName :: string

record AdminUser =
  AdminUser_CreatedAt :: Time
  AdminUser_Id :: uuid
  AdminUser_Role :: AdminUserRole
  AdminUser_Username :: string

record DelayResponse =
  DelayResponse_Delay :: rat

record DependencyCheck =
  DependencyCheck_Message :: "string option"
  DependencyCheck_Status :: DependencyCheckStatus

record EchoResponse =
  EchoResponse_Body :: "string option"
  EchoResponse_Headers :: HeaderMap
  EchoResponse_Method :: string
  EchoResponse_Origin :: string
  EchoResponse_Path :: string
  EchoResponse_Query :: HeaderMap
  EchoResponse_Scheme :: EchoResponseScheme

record ErrorResponse =
  ErrorResponse_Error :: string

record HeadersResponse =
  HeadersResponse_Headers :: HeaderMap

record IpResponse =
  IpResponse_Origin :: string

record LivezResponse =
  LivezResponse_Status :: LivezResponseStatus

record LoginRequest =
  LoginRequest_Password :: string
  LoginRequest_Username :: string

record MessageResponse =
  MessageResponse_Message :: string

record PasswordChangeRequest =
  PasswordChangeRequest_CurrentPassword :: string
  PasswordChangeRequest_NewPassword :: string

record PasswordResetRequest =
  PasswordResetRequest_NewPassword :: string
  PasswordResetRequest_Token :: string

record PasswordResetRequestRequest =
  PasswordResetRequestRequest_Username :: string

record PasswordResetResponse =
  PasswordResetResponse_Message :: string
  PasswordResetResponse_Token :: "string option"

record RateLimitResponse =
  RateLimitResponse_Limit :: int
  RateLimitResponse_Remaining :: int
  RateLimitResponse_Reset :: int

record ReadyzResponse =
  ReadyzResponse_Checks :: "string \<rightharpoonup> DependencyCheck"
  ReadyzResponse_Status :: ReadyzResponseStatus

record RegisterRequest =
  RegisterRequest_Password :: string
  RegisterRequest_Username :: string

record SchemeResponse =
  SchemeResponse_Scheme :: SchemeResponseScheme

record StartupzResponse =
  StartupzResponse_Checks :: "string \<rightharpoonup> DependencyCheck"
  StartupzResponse_Status :: StartupzResponseStatus

record StatusResponse =
  StatusResponse_Code :: int
  StatusResponse_Description :: "string option"

record TransferListResponse =
  TransferListResponse_Transfers :: "AdminTransfer list"

record TransferRequest =
  TransferRequest_AmountCents :: int
  TransferRequest_FromAccountId :: uuid
  TransferRequest_ToAccountId :: uuid

record TransferResult =
  TransferResult_AmountCents :: int
  TransferResult_Attempts :: int
  TransferResult_CreatedAt :: Time
  TransferResult_FromAccountId :: uuid
  TransferResult_FromBalanceCents :: int
  TransferResult_ToAccountId :: uuid
  TransferResult_ToBalanceCents :: int
  TransferResult_TransferId :: uuid

record UserAgentResponse =
  UserAgentResponse_UserAgent :: string

record UserListResponse =
  UserListResponse_Users :: "AdminUser list"

record UserResponse =
  UserResponse_Id :: uuid
  UserResponse_Role :: UserResponseRole
  UserResponse_Username :: string

record UuidResponse =
  UuidResponse_Uuid :: uuid

record VersionResponse =
  VersionResponse_BuildTime :: Time
  VersionResponse_GitSha :: string
  VersionResponse_GoVersion :: string
  VersionResponse_Service :: string
  VersionResponse_Version :: string

record PostAdminUserPasswordResetParams =
  PostAdminUserPasswordResetParams_XCSRFToken :: "string option"

record PostAdminUserUnlockParams =
  PostAdminUserUnlockParams_XCSRFToken :: "string option"

record PostAuthLogoutParams =
  PostAuthLogoutParams_XCSRFToken :: "string option"

record PostAuthPasswordChangeParams =
  PostAuthPasswordChangeParams_XCSRFToken :: "string option"

record PostTransferParams =
  PostTransferParams_Isolation :: "string option"
  PostTransferParams_HoldMs :: "int option"
  PostTransferParams_XCSRFToken :: "string option"

text \<open>What a handler can pass to the JSON encoder, and the plain text of \<^verbatim>\<open>http.Error\<close>.\<close>

datatype Body =
    JSON_AccountListResponse AccountListResponse
  | JSON_DelayResponse DelayResponse
  | JSON_EchoResponse EchoResponse
  | JSON_ErrorResponse ErrorResponse
  | JSON_HeadersResponse HeadersResponse
  | JSON_IpResponse IpResponse
  | JSON_LivezResponse LivezResponse
  | JSON_MessageResponse MessageResponse
  | JSON_PasswordResetResponse PasswordResetResponse
  | JSON_RateLimitResponse RateLimitResponse
  | JSON_ReadyzResponse ReadyzResponse
  | JSON_SchemeResponse SchemeResponse
  | JSON_StartupzResponse StartupzResponse
  | JSON_StatusResponse StatusResponse
  | JSON_TransferListResponse TransferListResponse
  | JSON_TransferResult TransferResult
  | JSON_UserAgentResponse UserAgentResponse
  | JSON_UserListResponse UserListResponse
  | JSON_UserResponse UserResponse
  | JSON_UuidResponse UuidResponse
  | JSON_VersionResponse VersionResponse
  | PlainText string

end
