(* ===== verification/Api_Responses.thy ===== *)
theory Api_Responses
  imports Api_Types
begin

text \<open>
  Responses: the writer that a handler fills, the response objects of the generated
  \<^verbatim>\<open>openapi.gen.go\<close> with their \<^verbatim>\<open>Visit\<close> methods, and the response types that
  \<^verbatim>\<open>internal/httpapi/auth.go\<close>, \<^verbatim>\<open>auth_password.go\<close> and \<^verbatim>\<open>status.go\<close> add to those interfaces. An
  interface is a datatype with one constructor for each type that implements it.
\<close>

section \<open>The response writer\<close>

record HttpCookie =
  ck_Name :: string
  ck_Value :: string
  ck_Path :: string
  ck_MaxAge :: int
  ck_HttpOnly :: bool
  ck_Secure :: bool
  ck_SameSite :: string

text \<open>
  What was written: the informational responses (1xx other than 101, which are sent at once and do
  not end the response), the status line once it is written, the headers, the cookies and the body.
  \<open>wr_err\<close> is the error that a write to the connection reports, none while the client is there.
\<close>

record Writer =
  wr_info :: "int list"
  wr_status :: "int option"
  wr_header :: "string \<Rightarrow> string list"
  wr_cookies :: "HttpCookie list"
  wr_body :: "Body list"
  wr_err :: "goerr option"

definition fresh_writer :: Writer where
  "fresh_writer = \<lparr>wr_info = [], wr_status = None, wr_header = (\<lambda>_. []), wr_cookies = [], wr_body = [], wr_err = None\<rparr>"

text \<open>
  \<^verbatim>\<open>w.WriteHeader(code)\<close>: an informational code is sent and leaves the status line open; the first
  other call decides the status, later ones are ignored. A handler that returns without a status
  line has sent 200.
\<close>

definition WriteHeader :: "int \<Rightarrow> Writer \<Rightarrow> Writer" where
  "WriteHeader code w =
     (if 100 \<le> code \<and> code \<le> 199 \<and> code \<noteq> 101
      then (if wr_status w = None then w\<lparr>wr_info := wr_info w @ [code]\<rparr> else w)
      else (case wr_status w of None \<Rightarrow> w\<lparr>wr_status := Some code\<rparr> | Some _ \<Rightarrow> w))"

definition final_status :: "Writer \<Rightarrow> int" where
  "final_status w = (case wr_status w of Some c \<Rightarrow> c | None \<Rightarrow> 200)"

definition Header_Set :: "string \<Rightarrow> string \<Rightarrow> Writer \<Rightarrow> Writer" where
  "Header_Set k v w = w\<lparr>wr_header := (wr_header w)(k := [v])\<rparr>"

definition write_body :: "Body \<Rightarrow> Writer \<Rightarrow> Writer" where
  "write_body b w = (WriteHeader 200 w)\<lparr>wr_body := wr_body w @ [b]\<rparr>"

text \<open>\<^verbatim>\<open>http.SetCookie\<close> drops a cookie whose name is not a token.\<close>

definition SetCookie :: "Writer \<Rightarrow> HttpCookie \<Rightarrow> Writer" where
  "SetCookie w c = (if isToken (ck_Name c) then w\<lparr>wr_cookies := wr_cookies w @ [c]\<rparr> else w)"

text \<open>\<^verbatim>\<open>http.Error\<close>.\<close>

definition Header_Del :: "string \<Rightarrow> Writer \<Rightarrow> Writer" where
  "Header_Del k w = w\<lparr>wr_header := (wr_header w)(k := [])\<rparr>"

definition http_Error :: "string \<Rightarrow> int \<Rightarrow> Writer \<Rightarrow> Writer" where
  "http_Error msg code w = write_body (PlainText (msg @ [CHR 0x0A])) (WriteHeader code
     (Header_Set ''X-Content-Type-Options'' ''nosniff'' (Header_Set ''Content-Type'' ''text/plain; charset=utf-8''
       (Header_Del ''Content-Length'' w))))"

fun set_headers :: "(string \<times> string option) list \<Rightarrow> Writer \<Rightarrow> Writer" where
  "set_headers [] w = w"
| "set_headers ((k, v) # hs) w = set_headers hs (case v of Some x \<Rightarrow> Header_Set k x w | None \<Rightarrow> w)"

text \<open>
  The common text of the generated \<^verbatim>\<open>Visit\<close> methods: encode into a buffer (\<open>enc\<close> is the encoder's
  error), then the headers, the status line and the buffer, whose write may fail.
\<close>

definition visitJSON ::
    "(Body \<Rightarrow> goerr option) \<Rightarrow> int \<Rightarrow> (string \<times> string option) list \<Rightarrow> Body \<Rightarrow> Writer \<Rightarrow> goerr option \<times> Writer" where
  "visitJSON enc code hs body w =
     (case enc body of
        Some err \<Rightarrow> (Some err, w)
      | None \<Rightarrow> (wr_err w, write_body body (WriteHeader code (set_headers hs (Header_Set ''Content-Type'' ''application/json'' w)))))"

definition visitEmpty :: "int \<Rightarrow> (string \<times> string option) list \<Rightarrow> Writer \<Rightarrow> goerr option \<times> Writer" where
  "visitEmpty code hs w = (None, WriteHeader code (set_headers hs w))"

section \<open>The response types written by hand\<close>

record authSuccessResponse =
  as_statusCode :: int
  as_cookies :: "HttpCookie list"
  as_body :: UserResponse

record logoutResponse =
  lo_cookies :: "HttpCookie list"

definition authSuccessResponse_write ::
    "(Body \<Rightarrow> goerr option) \<Rightarrow> authSuccessResponse \<Rightarrow> Writer \<Rightarrow> goerr option \<times> Writer" where
  "authSuccessResponse_write enc resp w =
     (let w1 = foldl SetCookie w (as_cookies resp);
          w2 = WriteHeader (as_statusCode resp) (Header_Set ''Content-Type'' ''application/json'' w1)
      in case enc (JSON_UserResponse (as_body resp)) of
           Some err \<Rightarrow> (Some err, w2)
         | None \<Rightarrow> (wr_err w, write_body (JSON_UserResponse (as_body resp)) w2))"

definition VisitPostAuthLogoutResponse_logout :: "logoutResponse \<Rightarrow> Writer \<Rightarrow> goerr option \<times> Writer" where
  "VisitPostAuthLogoutResponse_logout resp w = (None, WriteHeader 204 (foldl SetCookie w (lo_cookies resp)))"

section \<open>The response objects of each operation\<close>

datatype GetAccountsResponseObject =
    GetAccounts200JSONResponse AccountListResponse
  | GetAccounts401JSONResponse ErrorResponse

fun VisitGetAccountsResponse :: "(Body \<Rightarrow> goerr option) \<Rightarrow> GetAccountsResponseObject \<Rightarrow> Writer \<Rightarrow> goerr option \<times> Writer" where
  "VisitGetAccountsResponse enc (GetAccounts200JSONResponse body) w = visitJSON enc 200 [] (JSON_AccountListResponse body) w"
| "VisitGetAccountsResponse enc (GetAccounts401JSONResponse body) w = visitJSON enc 401 [] (JSON_ErrorResponse body) w"

datatype GetAdminAccountsResponseObject =
    GetAdminAccounts200JSONResponse AccountListResponse
  | GetAdminAccounts401JSONResponse ErrorResponse
  | GetAdminAccounts403JSONResponse ErrorResponse

fun VisitGetAdminAccountsResponse :: "(Body \<Rightarrow> goerr option) \<Rightarrow> GetAdminAccountsResponseObject \<Rightarrow> Writer \<Rightarrow> goerr option \<times> Writer" where
  "VisitGetAdminAccountsResponse enc (GetAdminAccounts200JSONResponse body) w = visitJSON enc 200 [] (JSON_AccountListResponse body) w"
| "VisitGetAdminAccountsResponse enc (GetAdminAccounts401JSONResponse body) w = visitJSON enc 401 [] (JSON_ErrorResponse body) w"
| "VisitGetAdminAccountsResponse enc (GetAdminAccounts403JSONResponse body) w = visitJSON enc 403 [] (JSON_ErrorResponse body) w"

datatype GetAdminTransfersResponseObject =
    GetAdminTransfers200JSONResponse TransferListResponse
  | GetAdminTransfers401JSONResponse ErrorResponse
  | GetAdminTransfers403JSONResponse ErrorResponse

fun VisitGetAdminTransfersResponse :: "(Body \<Rightarrow> goerr option) \<Rightarrow> GetAdminTransfersResponseObject \<Rightarrow> Writer \<Rightarrow> goerr option \<times> Writer" where
  "VisitGetAdminTransfersResponse enc (GetAdminTransfers200JSONResponse body) w = visitJSON enc 200 [] (JSON_TransferListResponse body) w"
| "VisitGetAdminTransfersResponse enc (GetAdminTransfers401JSONResponse body) w = visitJSON enc 401 [] (JSON_ErrorResponse body) w"
| "VisitGetAdminTransfersResponse enc (GetAdminTransfers403JSONResponse body) w = visitJSON enc 403 [] (JSON_ErrorResponse body) w"

datatype GetAdminUsersResponseObject =
    GetAdminUsers200JSONResponse UserListResponse
  | GetAdminUsers401JSONResponse ErrorResponse
  | GetAdminUsers403JSONResponse ErrorResponse

fun VisitGetAdminUsersResponse :: "(Body \<Rightarrow> goerr option) \<Rightarrow> GetAdminUsersResponseObject \<Rightarrow> Writer \<Rightarrow> goerr option \<times> Writer" where
  "VisitGetAdminUsersResponse enc (GetAdminUsers200JSONResponse body) w = visitJSON enc 200 [] (JSON_UserListResponse body) w"
| "VisitGetAdminUsersResponse enc (GetAdminUsers401JSONResponse body) w = visitJSON enc 401 [] (JSON_ErrorResponse body) w"
| "VisitGetAdminUsersResponse enc (GetAdminUsers403JSONResponse body) w = visitJSON enc 403 [] (JSON_ErrorResponse body) w"

datatype PostAdminUserPasswordResetResponseObject =
    PostAdminUserPasswordReset200JSONResponse PasswordResetResponse
  | PostAdminUserPasswordReset401JSONResponse ErrorResponse
  | PostAdminUserPasswordReset403JSONResponse ErrorResponse
  | PostAdminUserPasswordReset404JSONResponse ErrorResponse

fun VisitPostAdminUserPasswordResetResponse :: "(Body \<Rightarrow> goerr option) \<Rightarrow> PostAdminUserPasswordResetResponseObject \<Rightarrow> Writer \<Rightarrow> goerr option \<times> Writer" where
  "VisitPostAdminUserPasswordResetResponse enc (PostAdminUserPasswordReset200JSONResponse body) w = visitJSON enc 200 [] (JSON_PasswordResetResponse body) w"
| "VisitPostAdminUserPasswordResetResponse enc (PostAdminUserPasswordReset401JSONResponse body) w = visitJSON enc 401 [] (JSON_ErrorResponse body) w"
| "VisitPostAdminUserPasswordResetResponse enc (PostAdminUserPasswordReset403JSONResponse body) w = visitJSON enc 403 [] (JSON_ErrorResponse body) w"
| "VisitPostAdminUserPasswordResetResponse enc (PostAdminUserPasswordReset404JSONResponse body) w = visitJSON enc 404 [] (JSON_ErrorResponse body) w"

datatype PostAdminUserUnlockResponseObject =
    PostAdminUserUnlock204Response
  | PostAdminUserUnlock401JSONResponse ErrorResponse
  | PostAdminUserUnlock403JSONResponse ErrorResponse
  | PostAdminUserUnlock404JSONResponse ErrorResponse

fun VisitPostAdminUserUnlockResponse :: "(Body \<Rightarrow> goerr option) \<Rightarrow> PostAdminUserUnlockResponseObject \<Rightarrow> Writer \<Rightarrow> goerr option \<times> Writer" where
  "VisitPostAdminUserUnlockResponse enc PostAdminUserUnlock204Response w = visitEmpty 204 [] w"
| "VisitPostAdminUserUnlockResponse enc (PostAdminUserUnlock401JSONResponse body) w = visitJSON enc 401 [] (JSON_ErrorResponse body) w"
| "VisitPostAdminUserUnlockResponse enc (PostAdminUserUnlock403JSONResponse body) w = visitJSON enc 403 [] (JSON_ErrorResponse body) w"
| "VisitPostAdminUserUnlockResponse enc (PostAdminUserUnlock404JSONResponse body) w = visitJSON enc 404 [] (JSON_ErrorResponse body) w"

datatype PostAuthLoginResponseObject =
    PostAuthLogin200JSONResponse UserResponse "string option"
  | PostAuthLogin400JSONResponse ErrorResponse
  | PostAuthLogin401JSONResponse ErrorResponse
  | PostAuthLogin423JSONResponse ErrorResponse "int option"
  | PostAuthLogin_authSuccessResponse authSuccessResponse

fun VisitPostAuthLoginResponse :: "(Body \<Rightarrow> goerr option) \<Rightarrow> PostAuthLoginResponseObject \<Rightarrow> Writer \<Rightarrow> goerr option \<times> Writer" where
  "VisitPostAuthLoginResponse enc (PostAuthLogin200JSONResponse body h0) w = visitJSON enc 200 [(''Set-Cookie'', h0)] (JSON_UserResponse body) w"
| "VisitPostAuthLoginResponse enc (PostAuthLogin400JSONResponse body) w = visitJSON enc 400 [] (JSON_ErrorResponse body) w"
| "VisitPostAuthLoginResponse enc (PostAuthLogin401JSONResponse body) w = visitJSON enc 401 [] (JSON_ErrorResponse body) w"
| "VisitPostAuthLoginResponse enc (PostAuthLogin423JSONResponse body h0) w = visitJSON enc 423 [(''Retry-After'', map_option show_int h0)] (JSON_ErrorResponse body) w"
| "VisitPostAuthLoginResponse enc (PostAuthLogin_authSuccessResponse resp) w = authSuccessResponse_write enc resp w"

datatype PostAuthLogoutResponseObject =
    PostAuthLogout204Response "string option"
  | PostAuthLogout401JSONResponse ErrorResponse
  | PostAuthLogout403JSONResponse ErrorResponse
  | PostAuthLogout_logoutResponse logoutResponse

fun VisitPostAuthLogoutResponse :: "(Body \<Rightarrow> goerr option) \<Rightarrow> PostAuthLogoutResponseObject \<Rightarrow> Writer \<Rightarrow> goerr option \<times> Writer" where
  "VisitPostAuthLogoutResponse enc (PostAuthLogout204Response h0) w = visitEmpty 204 [(''Set-Cookie'', h0)] w"
| "VisitPostAuthLogoutResponse enc (PostAuthLogout401JSONResponse body) w = visitJSON enc 401 [] (JSON_ErrorResponse body) w"
| "VisitPostAuthLogoutResponse enc (PostAuthLogout403JSONResponse body) w = visitJSON enc 403 [] (JSON_ErrorResponse body) w"
| "VisitPostAuthLogoutResponse enc (PostAuthLogout_logoutResponse resp) w = VisitPostAuthLogoutResponse_logout resp w"

datatype GetAuthMeResponseObject =
    GetAuthMe200JSONResponse UserResponse
  | GetAuthMe401JSONResponse ErrorResponse

fun VisitGetAuthMeResponse :: "(Body \<Rightarrow> goerr option) \<Rightarrow> GetAuthMeResponseObject \<Rightarrow> Writer \<Rightarrow> goerr option \<times> Writer" where
  "VisitGetAuthMeResponse enc (GetAuthMe200JSONResponse body) w = visitJSON enc 200 [] (JSON_UserResponse body) w"
| "VisitGetAuthMeResponse enc (GetAuthMe401JSONResponse body) w = visitJSON enc 401 [] (JSON_ErrorResponse body) w"

datatype PostAuthPasswordChangeResponseObject =
    PostAuthPasswordChange200JSONResponse UserResponse "string option"
  | PostAuthPasswordChange400JSONResponse ErrorResponse
  | PostAuthPasswordChange401JSONResponse ErrorResponse
  | PostAuthPasswordChange403JSONResponse ErrorResponse
  | PostAuthPasswordChange_passwordChangeResponse authSuccessResponse

fun VisitPostAuthPasswordChangeResponse :: "(Body \<Rightarrow> goerr option) \<Rightarrow> PostAuthPasswordChangeResponseObject \<Rightarrow> Writer \<Rightarrow> goerr option \<times> Writer" where
  "VisitPostAuthPasswordChangeResponse enc (PostAuthPasswordChange200JSONResponse body h0) w = visitJSON enc 200 [(''Set-Cookie'', h0)] (JSON_UserResponse body) w"
| "VisitPostAuthPasswordChangeResponse enc (PostAuthPasswordChange400JSONResponse body) w = visitJSON enc 400 [] (JSON_ErrorResponse body) w"
| "VisitPostAuthPasswordChangeResponse enc (PostAuthPasswordChange401JSONResponse body) w = visitJSON enc 401 [] (JSON_ErrorResponse body) w"
| "VisitPostAuthPasswordChangeResponse enc (PostAuthPasswordChange403JSONResponse body) w = visitJSON enc 403 [] (JSON_ErrorResponse body) w"
| "VisitPostAuthPasswordChangeResponse enc (PostAuthPasswordChange_passwordChangeResponse resp) w = authSuccessResponse_write enc resp w"

datatype PostAuthPasswordResetResponseObject =
    PostAuthPasswordReset200JSONResponse MessageResponse
  | PostAuthPasswordReset400JSONResponse ErrorResponse
  | PostAuthPasswordReset410JSONResponse ErrorResponse

fun VisitPostAuthPasswordResetResponse :: "(Body \<Rightarrow> goerr option) \<Rightarrow> PostAuthPasswordResetResponseObject \<Rightarrow> Writer \<Rightarrow> goerr option \<times> Writer" where
  "VisitPostAuthPasswordResetResponse enc (PostAuthPasswordReset200JSONResponse body) w = visitJSON enc 200 [] (JSON_MessageResponse body) w"
| "VisitPostAuthPasswordResetResponse enc (PostAuthPasswordReset400JSONResponse body) w = visitJSON enc 400 [] (JSON_ErrorResponse body) w"
| "VisitPostAuthPasswordResetResponse enc (PostAuthPasswordReset410JSONResponse body) w = visitJSON enc 410 [] (JSON_ErrorResponse body) w"

datatype PostAuthPasswordResetRequestResponseObject =
    PostAuthPasswordResetRequest200JSONResponse PasswordResetResponse
  | PostAuthPasswordResetRequest400JSONResponse ErrorResponse

fun VisitPostAuthPasswordResetRequestResponse :: "(Body \<Rightarrow> goerr option) \<Rightarrow> PostAuthPasswordResetRequestResponseObject \<Rightarrow> Writer \<Rightarrow> goerr option \<times> Writer" where
  "VisitPostAuthPasswordResetRequestResponse enc (PostAuthPasswordResetRequest200JSONResponse body) w = visitJSON enc 200 [] (JSON_PasswordResetResponse body) w"
| "VisitPostAuthPasswordResetRequestResponse enc (PostAuthPasswordResetRequest400JSONResponse body) w = visitJSON enc 400 [] (JSON_ErrorResponse body) w"

datatype PostAuthRegisterResponseObject =
    PostAuthRegister201JSONResponse UserResponse "string option"
  | PostAuthRegister400JSONResponse ErrorResponse
  | PostAuthRegister409JSONResponse ErrorResponse
  | PostAuthRegister_authSuccessResponse authSuccessResponse

fun VisitPostAuthRegisterResponse :: "(Body \<Rightarrow> goerr option) \<Rightarrow> PostAuthRegisterResponseObject \<Rightarrow> Writer \<Rightarrow> goerr option \<times> Writer" where
  "VisitPostAuthRegisterResponse enc (PostAuthRegister201JSONResponse body h0) w = visitJSON enc 201 [(''Set-Cookie'', h0)] (JSON_UserResponse body) w"
| "VisitPostAuthRegisterResponse enc (PostAuthRegister400JSONResponse body) w = visitJSON enc 400 [] (JSON_ErrorResponse body) w"
| "VisitPostAuthRegisterResponse enc (PostAuthRegister409JSONResponse body) w = visitJSON enc 409 [] (JSON_ErrorResponse body) w"
| "VisitPostAuthRegisterResponse enc (PostAuthRegister_authSuccessResponse resp) w = authSuccessResponse_write enc resp w"

datatype GetDelayResponseObject =
    GetDelay200JSONResponse DelayResponse
  | GetDelay400JSONResponse ErrorResponse

fun VisitGetDelayResponse :: "(Body \<Rightarrow> goerr option) \<Rightarrow> GetDelayResponseObject \<Rightarrow> Writer \<Rightarrow> goerr option \<times> Writer" where
  "VisitGetDelayResponse enc (GetDelay200JSONResponse body) w = visitJSON enc 200 [] (JSON_DelayResponse body) w"
| "VisitGetDelayResponse enc (GetDelay400JSONResponse body) w = visitJSON enc 400 [] (JSON_ErrorResponse body) w"

datatype DeleteEchoResponseObject =
    DeleteEcho200JSONResponse EchoResponse
  | DeleteEcho413JSONResponse ErrorResponse

fun VisitDeleteEchoResponse :: "(Body \<Rightarrow> goerr option) \<Rightarrow> DeleteEchoResponseObject \<Rightarrow> Writer \<Rightarrow> goerr option \<times> Writer" where
  "VisitDeleteEchoResponse enc (DeleteEcho200JSONResponse body) w = visitJSON enc 200 [] (JSON_EchoResponse body) w"
| "VisitDeleteEchoResponse enc (DeleteEcho413JSONResponse body) w = visitJSON enc 413 [] (JSON_ErrorResponse body) w"

datatype GetEchoResponseObject =
    GetEcho200JSONResponse EchoResponse

fun VisitGetEchoResponse :: "(Body \<Rightarrow> goerr option) \<Rightarrow> GetEchoResponseObject \<Rightarrow> Writer \<Rightarrow> goerr option \<times> Writer" where
  "VisitGetEchoResponse enc (GetEcho200JSONResponse body) w = visitJSON enc 200 [] (JSON_EchoResponse body) w"

datatype PatchEchoResponseObject =
    PatchEcho200JSONResponse EchoResponse
  | PatchEcho413JSONResponse ErrorResponse

fun VisitPatchEchoResponse :: "(Body \<Rightarrow> goerr option) \<Rightarrow> PatchEchoResponseObject \<Rightarrow> Writer \<Rightarrow> goerr option \<times> Writer" where
  "VisitPatchEchoResponse enc (PatchEcho200JSONResponse body) w = visitJSON enc 200 [] (JSON_EchoResponse body) w"
| "VisitPatchEchoResponse enc (PatchEcho413JSONResponse body) w = visitJSON enc 413 [] (JSON_ErrorResponse body) w"

datatype PostEchoResponseObject =
    PostEcho200JSONResponse EchoResponse
  | PostEcho413JSONResponse ErrorResponse

fun VisitPostEchoResponse :: "(Body \<Rightarrow> goerr option) \<Rightarrow> PostEchoResponseObject \<Rightarrow> Writer \<Rightarrow> goerr option \<times> Writer" where
  "VisitPostEchoResponse enc (PostEcho200JSONResponse body) w = visitJSON enc 200 [] (JSON_EchoResponse body) w"
| "VisitPostEchoResponse enc (PostEcho413JSONResponse body) w = visitJSON enc 413 [] (JSON_ErrorResponse body) w"

datatype PutEchoResponseObject =
    PutEcho200JSONResponse EchoResponse
  | PutEcho413JSONResponse ErrorResponse

fun VisitPutEchoResponse :: "(Body \<Rightarrow> goerr option) \<Rightarrow> PutEchoResponseObject \<Rightarrow> Writer \<Rightarrow> goerr option \<times> Writer" where
  "VisitPutEchoResponse enc (PutEcho200JSONResponse body) w = visitJSON enc 200 [] (JSON_EchoResponse body) w"
| "VisitPutEchoResponse enc (PutEcho413JSONResponse body) w = visitJSON enc 413 [] (JSON_ErrorResponse body) w"

datatype GetHeadersResponseObject =
    GetHeaders200JSONResponse HeadersResponse

fun VisitGetHeadersResponse :: "(Body \<Rightarrow> goerr option) \<Rightarrow> GetHeadersResponseObject \<Rightarrow> Writer \<Rightarrow> goerr option \<times> Writer" where
  "VisitGetHeadersResponse enc (GetHeaders200JSONResponse body) w = visitJSON enc 200 [] (JSON_HeadersResponse body) w"

datatype GetIpResponseObject =
    GetIp200JSONResponse IpResponse

fun VisitGetIpResponse :: "(Body \<Rightarrow> goerr option) \<Rightarrow> GetIpResponseObject \<Rightarrow> Writer \<Rightarrow> goerr option \<times> Writer" where
  "VisitGetIpResponse enc (GetIp200JSONResponse body) w = visitJSON enc 200 [] (JSON_IpResponse body) w"

datatype GetLivezResponseObject =
    GetLivez200JSONResponse LivezResponse

fun VisitGetLivezResponse :: "(Body \<Rightarrow> goerr option) \<Rightarrow> GetLivezResponseObject \<Rightarrow> Writer \<Rightarrow> goerr option \<times> Writer" where
  "VisitGetLivezResponse enc (GetLivez200JSONResponse body) w = visitJSON enc 200 [] (JSON_LivezResponse body) w"

datatype GetRatelimitResponseObject =
    GetRatelimit200JSONResponse RateLimitResponse "int option" "int option" "int option"
  | GetRatelimit429JSONResponse ErrorResponse "int option" "int option" "int option" "int option"

fun VisitGetRatelimitResponse :: "(Body \<Rightarrow> goerr option) \<Rightarrow> GetRatelimitResponseObject \<Rightarrow> Writer \<Rightarrow> goerr option \<times> Writer" where
  "VisitGetRatelimitResponse enc (GetRatelimit200JSONResponse body h0 h1 h2) w = visitJSON enc 200 [(''RateLimit-Limit'', map_option show_int h0), (''RateLimit-Remaining'', map_option show_int h1), (''RateLimit-Reset'', map_option show_int h2)] (JSON_RateLimitResponse body) w"
| "VisitGetRatelimitResponse enc (GetRatelimit429JSONResponse body h0 h1 h2 h3) w = visitJSON enc 429 [(''RateLimit-Limit'', map_option show_int h0), (''RateLimit-Remaining'', map_option show_int h1), (''RateLimit-Reset'', map_option show_int h2), (''Retry-After'', map_option show_int h3)] (JSON_ErrorResponse body) w"

datatype GetReadyzResponseObject =
    GetReadyz200JSONResponse ReadyzResponse
  | GetReadyz503JSONResponse ReadyzResponse

fun VisitGetReadyzResponse :: "(Body \<Rightarrow> goerr option) \<Rightarrow> GetReadyzResponseObject \<Rightarrow> Writer \<Rightarrow> goerr option \<times> Writer" where
  "VisitGetReadyzResponse enc (GetReadyz200JSONResponse body) w = visitJSON enc 200 [] (JSON_ReadyzResponse body) w"
| "VisitGetReadyzResponse enc (GetReadyz503JSONResponse body) w = visitJSON enc 503 [] (JSON_ReadyzResponse body) w"

datatype GetSchemeResponseObject =
    GetScheme200JSONResponse SchemeResponse

fun VisitGetSchemeResponse :: "(Body \<Rightarrow> goerr option) \<Rightarrow> GetSchemeResponseObject \<Rightarrow> Writer \<Rightarrow> goerr option \<times> Writer" where
  "VisitGetSchemeResponse enc (GetScheme200JSONResponse body) w = visitJSON enc 200 [] (JSON_SchemeResponse body) w"

datatype GetStartupzResponseObject =
    GetStartupz200JSONResponse StartupzResponse
  | GetStartupz503JSONResponse StartupzResponse

fun VisitGetStartupzResponse :: "(Body \<Rightarrow> goerr option) \<Rightarrow> GetStartupzResponseObject \<Rightarrow> Writer \<Rightarrow> goerr option \<times> Writer" where
  "VisitGetStartupzResponse enc (GetStartupz200JSONResponse body) w = visitJSON enc 200 [] (JSON_StartupzResponse body) w"
| "VisitGetStartupzResponse enc (GetStartupz503JSONResponse body) w = visitJSON enc 503 [] (JSON_StartupzResponse body) w"

datatype GetStatusResponseObject =
    GetStatus400JSONResponse ErrorResponse
  | GetStatusdefaultJSONResponse StatusResponse int
  | statusNoBodyResponse int

fun VisitGetStatusResponse :: "(Body \<Rightarrow> goerr option) \<Rightarrow> GetStatusResponseObject \<Rightarrow> Writer \<Rightarrow> goerr option \<times> Writer" where
  "VisitGetStatusResponse enc (GetStatus400JSONResponse body) w = visitJSON enc 400 [] (JSON_ErrorResponse body) w"
| "VisitGetStatusResponse enc (GetStatusdefaultJSONResponse body code) w = visitJSON enc code [] (JSON_StatusResponse body) w"
| "VisitGetStatusResponse enc (statusNoBodyResponse code) w = (None, WriteHeader code w)"

datatype PostTransferResponseObject =
    PostTransfer200JSONResponse TransferResult
  | PostTransfer400JSONResponse ErrorResponse
  | PostTransfer401JSONResponse ErrorResponse
  | PostTransfer403JSONResponse ErrorResponse
  | PostTransfer404JSONResponse ErrorResponse
  | PostTransfer409JSONResponse ErrorResponse

fun VisitPostTransferResponse :: "(Body \<Rightarrow> goerr option) \<Rightarrow> PostTransferResponseObject \<Rightarrow> Writer \<Rightarrow> goerr option \<times> Writer" where
  "VisitPostTransferResponse enc (PostTransfer200JSONResponse body) w = visitJSON enc 200 [] (JSON_TransferResult body) w"
| "VisitPostTransferResponse enc (PostTransfer400JSONResponse body) w = visitJSON enc 400 [] (JSON_ErrorResponse body) w"
| "VisitPostTransferResponse enc (PostTransfer401JSONResponse body) w = visitJSON enc 401 [] (JSON_ErrorResponse body) w"
| "VisitPostTransferResponse enc (PostTransfer403JSONResponse body) w = visitJSON enc 403 [] (JSON_ErrorResponse body) w"
| "VisitPostTransferResponse enc (PostTransfer404JSONResponse body) w = visitJSON enc 404 [] (JSON_ErrorResponse body) w"
| "VisitPostTransferResponse enc (PostTransfer409JSONResponse body) w = visitJSON enc 409 [] (JSON_ErrorResponse body) w"

datatype GetUserAgentResponseObject =
    GetUserAgent200JSONResponse UserAgentResponse

fun VisitGetUserAgentResponse :: "(Body \<Rightarrow> goerr option) \<Rightarrow> GetUserAgentResponseObject \<Rightarrow> Writer \<Rightarrow> goerr option \<times> Writer" where
  "VisitGetUserAgentResponse enc (GetUserAgent200JSONResponse body) w = visitJSON enc 200 [] (JSON_UserAgentResponse body) w"

datatype GetUuidResponseObject =
    GetUuid200JSONResponse UuidResponse

fun VisitGetUuidResponse :: "(Body \<Rightarrow> goerr option) \<Rightarrow> GetUuidResponseObject \<Rightarrow> Writer \<Rightarrow> goerr option \<times> Writer" where
  "VisitGetUuidResponse enc (GetUuid200JSONResponse body) w = visitJSON enc 200 [] (JSON_UuidResponse body) w"

datatype GetVersionResponseObject =
    GetVersion200JSONResponse VersionResponse

fun VisitGetVersionResponse :: "(Body \<Rightarrow> goerr option) \<Rightarrow> GetVersionResponseObject \<Rightarrow> Writer \<Rightarrow> goerr option \<times> Writer" where
  "VisitGetVersionResponse enc (GetVersion200JSONResponse body) w = visitJSON enc 200 [] (JSON_VersionResponse body) w"

end
