(* ===== verification/Proxy.thy ===== *)
theory Proxy
  imports Http
begin

text \<open>
  \<^verbatim>\<open>internal/httpapi/proxy.go\<close>, and \<^verbatim>\<open>originIP\<close> and \<^verbatim>\<open>requestScheme\<close> of \<^verbatim>\<open>inspect.go\<close>: which client
  address and scheme a request is attributed to. Login lockout, rate limiting and the \<^verbatim>\<open>Secure\<close> flag
  of the cookies rest on them, so a client must not be able to choose them.
\<close>

section \<open>The code\<close>

definition xForwardedForHeader :: string where
  "xForwardedForHeader = ''X-Forwarded-For''"

definition xForwardedProtoHeader :: string where
  "xForwardedProtoHeader = ''X-Forwarded-Proto''"

definition peerAddr :: "string \<Rightarrow> Addr option" where
  "peerAddr remoteAddr =
     (let host = (case SplitHostPort remoteAddr of Some (h, _) \<Rightarrow> h | None \<Rightarrow> remoteAddr)
      in map_option (\<lambda>ip. WithoutZone (Unmap ip)) (ParseAddr host))"

fun inAnyPrefix :: "Addr \<Rightarrow> Prefix list \<Rightarrow> bool" where
  "inAnyPrefix ip [] = False"
| "inAnyPrefix ip (p # ps) = (if Contains p ip then True else inAnyPrefix ip ps)"

text \<open>
  \<^verbatim>\<open>walkXFF\<close>. The callback of the source changes a variable it captures; here it takes that
  variable and returns it, with the flag that stops the walk. The first function is the inner loop
  over one header, the second the outer loop, over the headers from the last to the first.
\<close>

function walk_header :: "(string \<Rightarrow> 's \<Rightarrow> bool \<times> 's) \<Rightarrow> string \<Rightarrow> 's \<Rightarrow> bool \<times> 's" where
  "walk_header visit h st =
     (if h = [] then (False, st)
      else (case (case last_index (CHR '','') h of
                    Some i \<Rightarrow> (drop (i + 1) h, take i h)
                  | None \<Rightarrow> (h, [])) of
              (v0, h') \<Rightarrow>
                (let v = TrimSpace v0
                 in if v = [] then walk_header visit h' st
                    else (case visit v st of
                            (True, st') \<Rightarrow> (True, st')
                          | (False, st') \<Rightarrow> walk_header visit h' st'))))"
  by pat_completeness auto

lemma last_index_less: "last_index d s = Some i \<Longrightarrow> i < length s"
  by (induction s arbitrary: i) (auto split: option.splits if_splits)

termination walk_header
  by (relation "measure (\<lambda>(visit, h, st). length h)") (auto split: option.splits dest: last_index_less)

declare walk_header.simps [simp del]

fun walk_headers :: "(string \<Rightarrow> 's \<Rightarrow> bool \<times> 's) \<Rightarrow> string list \<Rightarrow> 's \<Rightarrow> bool \<times> 's" where
  "walk_headers visit [] st = (False, st)"
| "walk_headers visit (h # hs) st =
     (case walk_header visit h st of
        (True, st') \<Rightarrow> (True, st')
      | (False, st') \<Rightarrow> walk_headers visit hs st')"

definition walkXFF :: "string list \<Rightarrow> (string \<Rightarrow> 's \<Rightarrow> bool \<times> 's) \<Rightarrow> 's \<Rightarrow> 's" where
  "walkXFF headers visit st = snd (walk_headers visit (rev headers) st)"

definition xff_visit :: "Prefix list \<Rightarrow> string \<Rightarrow> Addr \<Rightarrow> bool \<times> Addr" where
  "xff_visit trusted entry found =
     (case ParseAddr entry of
        None \<Rightarrow> (True, found)
      | Some ip0 \<Rightarrow>
          (let ip = WithoutZone (Unmap ip0)
           in if inAnyPrefix ip trusted then (False, found) else (True, ip)))"

definition clientFromXFF :: "string list \<Rightarrow> Prefix list \<Rightarrow> Addr option" where
  "clientFromXFF headers trusted =
     (let found = walkXFF headers (xff_visit trusted) NoAddr
      in if \<not> Addr_IsValid found then None else Some found)"

text \<open>The loops of \<^verbatim>\<open>forwardedProto\<close>: over the entries of a header, and over the headers.\<close>

fun proto_entries :: "string list \<Rightarrow> string option option" where
  "proto_entries [] = None"
| "proto_entries (e # es) =
     (let entry = ToLower (TrimSpace e)
      in if entry = [] then proto_entries es
         else if entry = ''http'' \<or> entry = ''https'' then Some (Some entry)
         else Some None)"

fun forwardedProto :: "string list \<Rightarrow> string option" where
  "forwardedProto [] = None"
| "forwardedProto (h # hs) =
     (case proto_entries (split_on (CHR '','') h) of
        Some result \<Rightarrow> result
      | None \<Rightarrow> forwardedProto hs)"

definition header_values :: "HeaderMap \<Rightarrow> string \<Rightarrow> string list" where
  "header_values h name = (case h name of Some vs \<Rightarrow> vs | None \<Rightarrow> [])"

definition trustedProxy :: "Prefix list \<Rightarrow> (Request \<Rightarrow> 'r) \<Rightarrow> Request \<Rightarrow> 'r" where
  "trustedProxy trusted next r =
     (if length trusted = 0 then next r
      else (case peerAddr (RemoteAddr r) of
              None \<Rightarrow> next r
            | Some peer \<Rightarrow>
                if \<not> inAnyPrefix peer trusted then next r
                else (let ctx = Context r;
                          ctx = (case clientFromXFF (header_values (Header r) xForwardedForHeader) trusted of
                                   Some ip \<Rightarrow> WithValue (clientIPCtx ip) ctx
                                 | None \<Rightarrow> ctx);
                          ctx = (case forwardedProto (header_values (Header r) xForwardedProtoHeader) of
                                   Some scheme \<Rightarrow> WithValue (clientSchemeCtx scheme) ctx
                                 | None \<Rightarrow> ctx)
                      in next (WithContext r ctx))))"

definition originIP :: "Request option \<Rightarrow> string" where
  "originIP ro =
     (case ro of
        None \<Rightarrow> []
      | Some r \<Rightarrow>
          (case clientIPFrom (Context r) of
             Some ip \<Rightarrow> Addr_String ip
           | None \<Rightarrow> (case SplitHostPort (RemoteAddr r) of Some (host, _) \<Rightarrow> host | None \<Rightarrow> RemoteAddr r)))"

definition requestScheme :: "Request option \<Rightarrow> string" where
  "requestScheme ro =
     (case ro of
        None \<Rightarrow> ''http''
      | Some r \<Rightarrow>
          (case schemeFrom (Context r) of
             Some scheme \<Rightarrow> scheme
           | None \<Rightarrow> if TLS r then ''https'' else ''http''))"

section \<open>The walk over the merged chain\<close>

text \<open>
  The reference: the entries of the chain in the order the proxies appended them, and a walk over
  a list that stops when the callback says so.
\<close>

definition xff_entries :: "string list \<Rightarrow> string list" where
  "xff_entries headers =
     filter (\<lambda>e. e \<noteq> []) (map TrimSpace (concat (map (split_on (CHR '','')) headers)))"

fun walk_list :: "(string \<Rightarrow> 's \<Rightarrow> bool \<times> 's) \<Rightarrow> string list \<Rightarrow> 's \<Rightarrow> bool \<times> 's" where
  "walk_list visit [] st = (False, st)"
| "walk_list visit (e # es) st =
     (case visit e st of (True, st') \<Rightarrow> (True, st') | (False, st') \<Rightarrow> walk_list visit es st')"

lemma walk_list_append:
  "walk_list visit (es @ es') st =
     (case walk_list visit es st of (True, st') \<Rightarrow> (True, st') | (False, st') \<Rightarrow> walk_list visit es' st')"
  by (induction es arbitrary: st) (auto split: prod.splits bool.splits)

lemma split_on_append: "d \<notin> set q \<Longrightarrow> split_on d (p @ d # q) = split_on d p @ [q]"
proof (induction p)
  case Nil
  then show ?case by (induction q) auto
next
  case (Cons c p)
  then show ?case by (auto split: list.splits)
qed

lemma split_on_single: "d \<notin> set q \<Longrightarrow> split_on d q = [q]"
  by (induction q) auto

lemma last_index_split:
  "last_index d s = Some i \<Longrightarrow> s = take i s @ d # drop (i + 1) s \<and> d \<notin> set (drop (i + 1) s)"
  by (induction s arbitrary: i) (auto split: option.splits if_splits)

lemma TrimSpace_Nil [simp]: "TrimSpace [] = []"
  by code_simp

lemma walk_header_list:
  "walk_header visit h st = walk_list visit (rev (xff_entries [h])) st"
proof (induction visit h st rule: walk_header.induct)
  case (1 visit h st)
  have nil: "walk_header visit [] st' = (False, st')" for st' by (simp add: walk_header.simps)
  show ?case
  proof (cases "last_index (CHR '','') h")
    case None
    then have "split_on (CHR '','') h = [h]" by (simp add: split_on_single)
    then have "xff_entries [h] = (if TrimSpace h = [] then [] else [TrimSpace h])" by (simp add: xff_entries_def)
    moreover have "walk_header visit h st =
        (if TrimSpace h = [] then (False, st)
         else (case visit (TrimSpace h) st of (True, st') \<Rightarrow> (True, st') | (False, st') \<Rightarrow> (False, st')))"
      by (cases "h = []"; subst walk_header.simps) (simp_all add: None nil Let_def split: prod.splits bool.splits del: last_index_None)
    ultimately show ?thesis by (simp split: prod.splits bool.splits)
  next
    case i: (Some i)
    then have h: "h \<noteq> []" by auto
    let ?v = "TrimSpace (drop (i + 1) h)"
    have "split_on (CHR '','') h = split_on (CHR '','') (take i h) @ [drop (i + 1) h]"
      using split_on_append last_index_split [OF i] by metis
    then have e: "xff_entries [h] = xff_entries [take i h] @ (if ?v = [] then [] else [?v])"
      by (simp add: xff_entries_def)
    show ?thesis
    proof (cases "?v = []")
      case True
      with i h e 1(1) [OF h _ refl, of "drop (i + 1) h" "take i h"] show ?thesis
        by (subst walk_header.simps) simp
    next
      case False
      with i h e 1(2) [OF h _ refl, of "drop (i + 1) h" "take i h"] show ?thesis
        by (subst walk_header.simps) (auto split: prod.splits bool.splits)
    qed
  qed
qed

lemma xff_entries_append: "xff_entries (hs @ hs') = xff_entries hs @ xff_entries hs'"
  by (simp add: xff_entries_def)

lemma walk_headers_list: "walk_headers visit (rev hs) st = walk_list visit (rev (xff_entries hs)) st"
proof (induction hs arbitrary: st rule: rev_induct)
  case Nil
  then show ?case by (simp add: xff_entries_def)
next
  case (snoc h hs)
  then show ?case
    by (auto simp: walk_header_list xff_entries_append walk_list_append split: prod.splits bool.splits)
qed

lemma walkXFF_list: "walkXFF headers visit st = snd (walk_list visit (rev (xff_entries headers)) st)"
  by (simp add: walkXFF_def walk_headers_list)

section \<open>Who the client is\<close>

text \<open>The form in which addresses are compared, and the entries that name a trusted proxy.\<close>

abbreviation plain :: "Addr \<Rightarrow> Addr" where "plain ip \<equiv> WithoutZone (Unmap ip)"

definition trusted_hop :: "Prefix list \<Rightarrow> string \<Rightarrow> bool" where
  "trusted_hop trusted e = (case ParseAddr e of None \<Rightarrow> False | Some ip \<Rightarrow> inAnyPrefix (plain ip) trusted)"

lemma ParseAddr_valid: "ParseAddr e = Some ip \<Longrightarrow> ip \<noteq> NoAddr"
  by (auto simp: ParseAddr_def parseIPv4_def parseIPv6_def addrFromGroups_def Let_def
    split: option.splits if_splits prod.splits)

lemma plain_valid [simp]: "plain ip = NoAddr \<longleftrightarrow> ip = NoAddr"
  by (cases ip) (auto simp: Is4In6_def)

lemma walk_xff:
  "snd (walk_list (xff_visit trusted) es NoAddr) =
     (case dropWhile (trusted_hop trusted) es of
        [] \<Rightarrow> NoAddr
      | e # _ \<Rightarrow> (case ParseAddr e of None \<Rightarrow> NoAddr | Some ip \<Rightarrow> plain ip))"
  by (induction es) (auto simp: xff_visit_def trusted_hop_def Let_def split: option.splits)

lemma clientFromXFF_eq:
  "clientFromXFF headers trusted =
     (case dropWhile (trusted_hop trusted) (rev (xff_entries headers)) of
        [] \<Rightarrow> None
      | e # _ \<Rightarrow> map_option plain (ParseAddr e))"
proof (cases "dropWhile (trusted_hop trusted) (rev (xff_entries headers))")
  case Nil
  then show ?thesis by (simp add: clientFromXFF_def walkXFF_list walk_xff Addr_IsValid_def del: dropWhile_eq_Nil_conv)
next
  case (Cons e es)
  then show ?thesis
    using ParseAddr_valid [of e]
    by (auto simp: clientFromXFF_def walkXFF_list walk_xff Addr_IsValid_def split: option.splits)
qed

text \<open>
  C24: the client is the rightmost entry of the chain that is not a trusted proxy. Over all
  \<^verbatim>\<open>X-Forwarded-For\<close> headers merged in order, split at commas, trimmed and without empty entries, the
  walk from the right finds the first entry outside the trusted prefixes; if it is not an address,
  or there is none, no client is named. The two loops over headers and positions compute exactly
  that.
\<close>

theorem clientFromXFF_is_rightmost_untrusted:
  "clientFromXFF headers trusted =
     (case dropWhile (trusted_hop trusted) (rev (xff_entries headers)) of
        [] \<Rightarrow> None
      | e # _ \<Rightarrow> map_option plain (ParseAddr e))"
  by (rule clientFromXFF_eq)

text \<open>
  The context that the handlers are called with: \<^verbatim>\<open>trustedProxy\<close> and \<^verbatim>\<open>withRequest\<close> in the order of
  \<^verbatim>\<open>NewRouter\<close>.
\<close>

definition handler_ctx :: "Prefix list \<Rightarrow> Request \<Rightarrow> Ctx" where
  "handler_ctx trusted r = Context (trustedProxy trusted (withRequest (\<lambda>r. r)) r)"

lemma requestFrom_withRequest: "requestFrom (Context (withRequest (\<lambda>r. r) r)) = Some r"
  by (simp add: withRequest_def)

lemma trustedProxy_untrusted:
  assumes "\<And>a. peerAddr (RemoteAddr r) = Some a \<Longrightarrow> \<not> inAnyPrefix a trusted"
  shows "trustedProxy trusted next r = next r"
  using assms by (auto simp: trustedProxy_def split: option.splits)

lemma inAnyPrefix_nonempty: "inAnyPrefix ip trusted \<Longrightarrow> trusted \<noteq> []"
  by auto

lemma trustedProxy_trusted:
  assumes "peerAddr (RemoteAddr r) = Some a" "inAnyPrefix a trusted"
    and "clientIPFrom (Context r) = None" "schemeFrom (Context r) = None"
  shows "\<exists>r'. requestFrom (handler_ctx trusted r) = Some r' \<and> RemoteAddr r' = RemoteAddr r \<and> TLS r' = TLS r \<and>
    clientIPFrom (Context r') = clientFromXFF (header_values (Header r) xForwardedForHeader) trusted \<and>
    schemeFrom (Context r') = forwardedProto (header_values (Header r) xForwardedProtoHeader)"
  using assms inAnyPrefix_nonempty [OF assms(2)]
  by (auto simp: trustedProxy_def handler_ctx_def requestFrom_withRequest Let_def split: option.splits)

text \<open>
  C13: a client that connects directly cannot choose its address or scheme. When the connecting
  peer is not within a trusted prefix (or no prefix is configured), the address and the scheme that
  the handlers see are those of the connection, whatever headers the request carries.
\<close>

theorem direct_client_cannot_spoof:
  assumes "\<And>a. peerAddr (RemoteAddr r) = Some a \<Longrightarrow> \<not> inAnyPrefix a trusted"
    and "clientIPFrom (Context r) = None" and "schemeFrom (Context r) = None"
  shows "originIP (requestFrom (handler_ctx trusted r)) =
      (case SplitHostPort (RemoteAddr r) of Some (host, _) \<Rightarrow> host | None \<Rightarrow> RemoteAddr r) \<and>
    requestScheme (requestFrom (handler_ctx trusted r)) = (if TLS r then ''https'' else ''http'')"
  using assms(2,3)
  by (simp add: handler_ctx_def trustedProxy_untrusted [OF assms(1)] requestFrom_withRequest
    originIP_def requestScheme_def)

definition example_prefix :: "Prefix list" where
  "example_prefix = [\<lparr>p_ip = V4 0x0A000000, p_bits = 8\<rparr>]"

definition example_request :: "string \<Rightarrow> string \<Rightarrow> Request" where
  "example_request peer xff =
     Request ''GET'' ''/api/v1/ip'' Map.empty
       [xForwardedForHeader \<mapsto> [xff], xForwardedProtoHeader \<mapsto> [''https'']] peer False Background"

theorem direct_client_cannot_spoof_witness:
  "originIP (requestFrom (handler_ctx example_prefix (example_request ''192.0.2.7:4711'' ''10.1.1.1''))) = ''192.0.2.7'' \<and>
   requestScheme (requestFrom (handler_ctx example_prefix (example_request ''192.0.2.7:4711'' ''10.1.1.1''))) = ''http''"
proof -
  let ?r = "example_request ''192.0.2.7:4711'' ''10.1.1.1''"
  have "map_option (\<lambda>a. inAnyPrefix a example_prefix) (peerAddr (RemoteAddr ?r)) = Some False" by code_simp
  then have "peerAddr (RemoteAddr ?r) = Some a \<Longrightarrow> \<not> inAnyPrefix a example_prefix" for a by simp
  moreover have "SplitHostPort ''192.0.2.7:4711'' = Some (''192.0.2.7'', ''4711'')" by code_simp
  ultimately show ?thesis
    using direct_client_cannot_spoof [of ?r example_prefix] by (simp add: example_request_def)
qed

text \<open>
  Behind trusted proxies a client cannot choose its address either. Whatever a client put into
  \<^verbatim>\<open>X-Forwarded-For\<close> before the request reached the first trusted proxy, that proxy appended the
  address it saw and the others appended trusted addresses; the handlers see the address that the
  first trusted proxy saw, in its canonical form.
\<close>

theorem forged_hops_are_ignored:
  assumes "peerAddr (RemoteAddr r) = Some peer" and "inAnyPrefix peer trusted"
    and "clientIPFrom (Context r) = None" and "schemeFrom (Context r) = None"
    and "xff_entries (header_values (Header r) xForwardedForHeader) = forged @ [client] @ hops"
    and "ParseAddr client = Some ip" and "\<not> inAnyPrefix (plain ip) trusted"
    and "list_all (trusted_hop trusted) hops"
  shows "originIP (requestFrom (handler_ctx trusted r)) = Addr_String (plain ip)"
proof -
  have "dropWhile (trusted_hop trusted) (rev hops @ client # rev forged) = client # rev forged"
    using assms(6-8) by (subst dropWhile_append2) (auto simp: list_all_iff trusted_hop_def)
  then have "clientFromXFF (header_values (Header r) xForwardedForHeader) trusted = Some (plain ip)"
    by (simp add: clientFromXFF_eq assms(5,6))
  then show ?thesis
    using trustedProxy_trusted [OF assms(1-4)] by (auto simp: originIP_def)
qed

theorem forged_hops_are_ignored_witness:
  "originIP (requestFrom (handler_ctx example_prefix
     (example_request ''10.0.0.1:80'' ''1.1.1.1, 203.0.113.9 ,10.2.3.4''))) = ''203.0.113.9''"
proof -
  let ?r = "example_request ''10.0.0.1:80'' ''1.1.1.1, 203.0.113.9 ,10.2.3.4''"
  have 1: "peerAddr (RemoteAddr ?r) = Some (V4 0x0A000001)" by code_simp
  have 2: "inAnyPrefix (V4 0x0A000001) example_prefix" by code_simp
  have 3: "clientIPFrom (Context ?r) = None" "schemeFrom (Context ?r) = None" by code_simp+
  have 4: "xff_entries (header_values (Header ?r) xForwardedForHeader) = [''1.1.1.1''] @ [''203.0.113.9''] @ [''10.2.3.4'']"
    by code_simp
  have 5: "ParseAddr ''203.0.113.9'' = Some (V4 0xCB007109)" by code_simp
  have 6: "\<not> inAnyPrefix (plain (V4 0xCB007109)) example_prefix" by code_simp
  have 7: "list_all (trusted_hop example_prefix) [''10.2.3.4'']" by code_simp
  have "Addr_String (plain (V4 0xCB007109)) = ''203.0.113.9''" by code_simp
  then show ?thesis using forged_hops_are_ignored [OF 1 2 3 4 5 6 7] by simp
qed

text \<open>
  The scheme, in contrast, is the leftmost entry, the one a client can send itself when the proxies
  append to the header instead of replacing it.
\<close>

lemma forwardedProto_leftmost:
  assumes "entry \<in> {''http'', ''https''}" "ToLower (TrimSpace e) = entry" "CHR '','' \<notin> set e"
  shows "forwardedProto ((e @ CHR '','' # rest) # hs) = Some entry"
proof -
  have "split_on (CHR '','') (e @ CHR '','' # rest) = e # split_on (CHR '','') rest"
    using assms(3) by (induction e) auto
  with assms(1,2) show ?thesis by (auto simp: Let_def)
qed

end
