(* ===== verification/Auth_Lockout.thy ===== *)
theory Auth_Lockout
  imports Auth_Session
begin

text \<open>
  \<^verbatim>\<open>internal/auth/lockout.go\<close>: counting failed logins per user name and per client address, and
  locking both once a threshold is reached within a window. The interface \<^verbatim>\<open>LockoutStore\<close> is the
  locale \<open>lockout_store\<close>, provided by the cache client; \<open>steady_lockout_store\<close> adds that the
  store answers.
\<close>

section \<open>Data and operations\<close>

record 'w LockoutStore =
  ls_Get :: "string \<Rightarrow> ('w, string) act"
  ls_Set :: "string \<Rightarrow> string \<Rightarrow> Duration \<Rightarrow> ('w, unit) act"
  ls_Incr :: "string \<Rightarrow> Duration \<Rightarrow> ('w, int) act"
  ls_TTL :: "string \<Rightarrow> ('w, Duration) act"
  ls_Del :: "string \<Rightarrow> ('w, unit) act"

record 'w Lockout =
  lo_store :: "'w LockoutStore"
  lo_isMiss :: "goerr \<Rightarrow> bool"
  lo_maxAttempts :: int
  lo_window :: Duration
  lo_lockTTL :: Duration

definition loginFailUserKeyPrefix :: string where
  "loginFailUserKeyPrefix = ''loginfail:v1:user:''"

definition loginFailIPKeyPrefix :: string where
  "loginFailIPKeyPrefix = ''loginfail:v1:ip:''"

definition loginLockUserKeyPrefix :: string where
  "loginLockUserKeyPrefix = ''lock:login:v1:user:''"

definition loginLockIPKeyPrefix :: string where
  "loginLockIPKeyPrefix = ''lock:login:v1:ip:''"

definition NewLockout ::
    "'w LockoutStore \<Rightarrow> (goerr \<Rightarrow> bool) \<Rightarrow> int \<Rightarrow> Duration \<Rightarrow> Duration \<Rightarrow> 'w Lockout" where
  "NewLockout store isMiss maxAttempts window lockTTL =
     \<lparr>lo_store = store, lo_isMiss = isMiss, lo_maxAttempts = maxAttempts, lo_window = window,
      lo_lockTTL = lockTTL\<rparr>"

definition lockKeys :: "string \<Rightarrow> string \<Rightarrow> string list" where
  "lockKeys username ip =
     (if username \<noteq> '''' then [loginLockUserKeyPrefix @ username] else []) @
     (if ip \<noteq> '''' then [loginLockIPKeyPrefix @ ip] else [])"

text \<open>The loop of \<^verbatim>\<open>Locked\<close>, with the variables \<^verbatim>\<open>locked\<close> and \<^verbatim>\<open>retryAfter\<close>; \<open>None\<close> is its early return.\<close>

fun Locked_loop ::
    "'w Lockout \<Rightarrow> string list \<Rightarrow> bool \<Rightarrow> Duration \<Rightarrow> 'w \<Rightarrow> (bool \<times> Duration) option \<times> 'w" where
  "Locked_loop l [] locked retryAfter w = (Some (locked, retryAfter), w)"
| "Locked_loop l (key # ks) locked retryAfter w =
     (case ls_Get (lo_store l) key w of
        (Inl err, w1) \<Rightarrow>
          (if lo_isMiss l err then Locked_loop l ks locked retryAfter w1 else (None, w1))
      | (Inr _, w1) \<Rightarrow>
          (case ls_TTL (lo_store l) key w1 of
             (Inl _, w2) \<Rightarrow> Locked_loop l ks True retryAfter w2
           | (Inr ttl, w2) \<Rightarrow>
               Locked_loop l ks True (if ttl > retryAfter then ttl else retryAfter) w2))"

definition Locked :: "'w Lockout \<Rightarrow> string \<Rightarrow> string \<Rightarrow> 'w \<Rightarrow> (bool \<times> Duration) \<times> 'w" where
  "Locked l username ip w =
     (case Locked_loop l (lockKeys username ip) False 0 w of
        (None, w1) \<Rightarrow> ((False, 0), w1)
      | (Some (locked, retryAfter), w1) \<Rightarrow>
          ((locked, if locked \<and> retryAfter \<le> 0 then lo_lockTTL l else retryAfter), w1))"

definition bump :: "'w Lockout \<Rightarrow> string \<Rightarrow> string \<Rightarrow> 'w \<Rightarrow> 'w" where
  "bump l counterKey lockKey w =
     (case ls_Incr (lo_store l) counterKey (lo_window l) w of
        (Inl _, w1) \<Rightarrow> w1
      | (Inr n, w1) \<Rightarrow>
          (if wrap64 n \<ge> lo_maxAttempts l
           then snd (ls_Set (lo_store l) lockKey ''1'' (lo_lockTTL l) w1) else w1))"

definition RecordFailure :: "'w Lockout \<Rightarrow> string \<Rightarrow> string \<Rightarrow> 'w \<Rightarrow> 'w" where
  "RecordFailure l username ip w =
     bump l (loginFailIPKeyPrefix @ ip) (loginLockIPKeyPrefix @ ip)
       (bump l (loginFailUserKeyPrefix @ username) (loginLockUserKeyPrefix @ username) w)"

fun del_all :: "'w Lockout \<Rightarrow> string list \<Rightarrow> 'w \<Rightarrow> 'w" where
  "del_all l [] w = w"
| "del_all l (key # ks) w = del_all l ks (snd (ls_Del (lo_store l) key w))"

definition Reset :: "'w Lockout \<Rightarrow> string \<Rightarrow> string \<Rightarrow> 'w \<Rightarrow> 'w" where
  "Reset l username ip w =
     del_all l [loginFailUserKeyPrefix @ username, loginFailIPKeyPrefix @ ip,
                loginLockUserKeyPrefix @ username, loginLockIPKeyPrefix @ ip] w"

fun unlock_loop :: "'w Lockout \<Rightarrow> string list \<Rightarrow> ('w, unit) act" where
  "unlock_loop l [] w = (Inr (), w)"
| "unlock_loop l (key # ks) w =
     (case ls_Del (lo_store l) key w of
        (Inl err, w1) \<Rightarrow> (Inl (Wrapf ''auth: unlock %q: %w'' [err]), w1)
      | (Inr _, w1) \<Rightarrow> unlock_loop l ks w1)"

definition Unlock :: "'w Lockout \<Rightarrow> string \<Rightarrow> ('w, unit) act" where
  "Unlock l username w =
     unlock_loop l [loginFailUserKeyPrefix @ username, loginLockUserKeyPrefix @ username] w"

definition RetryAfterSeconds :: "Duration \<Rightarrow> int" where
  "RetryAfterSeconds d =
     (if d \<le> 0 then 1
      else let secs = ceil_seconds d
           in if secs < 1 then 1 else secs)"

section \<open>The keys\<close>

abbreviation failUser :: "string \<Rightarrow> string" where "failUser u \<equiv> loginFailUserKeyPrefix @ u"
abbreviation lockUser :: "string \<Rightarrow> string" where "lockUser u \<equiv> loginLockUserKeyPrefix @ u"
abbreviation failIP :: "string \<Rightarrow> string" where "failIP a \<equiv> loginFailIPKeyPrefix @ a"
abbreviation lockIP :: "string \<Rightarrow> string" where "lockIP a \<equiv> loginLockIPKeyPrefix @ a"

lemma lockout_keys [simp, keys]:
  "failUser u \<noteq> lockUser v" "failUser u \<noteq> failIP v" "failUser u \<noteq> lockIP v"
  "lockUser u \<noteq> failUser v" "lockUser u \<noteq> failIP v" "lockUser u \<noteq> lockIP v"
  "failIP u \<noteq> failUser v" "failIP u \<noteq> lockUser v" "failIP u \<noteq> lockIP v"
  "lockIP u \<noteq> failUser v" "lockIP u \<noteq> lockUser v" "lockIP u \<noteq> failIP v"
  by (simp_all add: loginFailUserKeyPrefix_def loginFailIPKeyPrefix_def loginLockUserKeyPrefix_def
      loginLockIPKeyPrefix_def)

lemma lockout_session_keys [simp, keys]:
  "failUser u \<noteq> sessionKey v" "failIP u \<noteq> sessionKey v" "lockUser u \<noteq> sessionKey v" "lockIP u \<noteq> sessionKey v"
  "failUser u \<noteq> userSessionsKey v" "failIP u \<noteq> userSessionsKey v"
  "lockUser u \<noteq> userSessionsKey v" "lockIP u \<noteq> userSessionsKey v"
  by (simp_all add: loginFailUserKeyPrefix_def loginFailIPKeyPrefix_def loginLockUserKeyPrefix_def
      loginLockIPKeyPrefix_def sessionKey_def userSessionsKey_def sessionKeyPrefix_def
      userSessionsKeyPrefix_def)

lemma lockout_prefixes [simp, keys]:
  "loginFailUserKeyPrefix \<noteq> loginLockUserKeyPrefix" "loginLockUserKeyPrefix \<noteq> loginFailUserKeyPrefix"
  by (simp_all add: loginFailUserKeyPrefix_def loginFailIPKeyPrefix_def loginLockUserKeyPrefix_def
      loginLockIPKeyPrefix_def)

section \<open>The store interface\<close>

locale lockout_store =
  fixes S :: "'w LockoutStore" and isMiss :: "goerr \<Rightarrow> bool"
    and now :: "'w \<Rightarrow> Time" and kv :: "'w \<Rightarrow> keyspace"
  assumes Get_frame: "ls_Get S k w = (y, w') \<Longrightarrow> now w' = now w \<and> kv w' = kv w"
    and Get_ok: "ls_Get S k w = (Inr v, w') \<Longrightarrow> kv w k \<noteq> None"
    and Get_miss: "ls_Get S k w = (Inl e, w') \<Longrightarrow> isMiss e \<Longrightarrow> kv w k = None"
    and TTL_frame: "ls_TTL S k w = (z, w') \<Longrightarrow> now w' = now w \<and> kv w' = kv w"
    and Set_now: "ls_Set S k v ttl w = (x, w') \<Longrightarrow> now w' = now w"
    and Set_other: "ls_Set S k v ttl w = (x, w') \<Longrightarrow> k' \<noteq> k \<Longrightarrow> kv w' k' = kv w k'"
    and Set_ok: "ls_Set S k v ttl w = (Inr u, w') \<Longrightarrow> 0 < ttl \<Longrightarrow>
        kv w' k = Some (VStr v, Some (now w + px ttl))"
    and Incr_now: "ls_Incr S k ttl w = (i, w') \<Longrightarrow> now w' = now w"
    and Incr_other: "ls_Incr S k ttl w = (i, w') \<Longrightarrow> k' \<noteq> k \<Longrightarrow> kv w' k' = kv w k'"
    and Incr_fresh: "ls_Incr S k ttl w = (Inr n, w') \<Longrightarrow> Millisecond \<le> ttl \<Longrightarrow> kv w k = None \<Longrightarrow>
        n = 1 \<and> kv w' k = Some (VCtr 1, Some (now w + px ttl))"
    and Incr_next: "ls_Incr S k ttl w = (Inr n, w') \<Longrightarrow> 0 < ttl \<Longrightarrow> kv w k = Some (VCtr m, dl) \<Longrightarrow>
        1 \<le> m \<Longrightarrow> n = m + 1 \<and> kv w' k = Some (VCtr (m + 1), dl)"
    and Del_now: "ls_Del S k w = (x, w') \<Longrightarrow> now w' = now w"
    and Del_ok: "ls_Del S k w = (Inr u, w') \<Longrightarrow> kv w' = (kv w)(k := None)"
    and Del_err: "ls_Del S k w = (Inl e, w') \<Longrightarrow> kv w' = kv w \<or> kv w' = (kv w)(k := None)"
    and live: "kv w k = Some (c, Some dl') \<Longrightarrow> now w < dl'"

locale steady_lockout_store = lockout_store +
  assumes Get_None: "kv w k = None \<Longrightarrow> \<exists>e w'. ls_Get S k w = (Inl e, w') \<and> isMiss e"
    and Get_Some: "kv w k = Some (VStr v, d) \<Longrightarrow> \<exists>w'. ls_Get S k w = (Inr v, w')"
    and Set_total: "fst (ls_Set S k v ttl w) = Inr ()"
    and Incr_total: "kv w k = None \<or> (\<exists>n d. kv w k = Some (VCtr n, d) \<and> n + 1 < 2 ^ 63) \<Longrightarrow> 0 < ttl \<Longrightarrow>
        \<exists>n. fst (ls_Incr S k ttl w) = Inr n"

definition client_LockoutStore :: "'w redis \<Rightarrow> 'w LockoutStore" where
  [wires]: "client_LockoutStore R =
     \<lparr>ls_Get = Client_Get R, ls_Set = Client_Set R, ls_Incr = Client_Incr R, ls_TTL = Client_TTL R,
      ls_Del = Client_Del R\<rparr>"

context redis_service
begin

lemma Client_Set_other:
  "Client_Set R k v ttl w = (x, w') \<Longrightarrow> k' \<noteq> k \<Longrightarrow> kv w' k' = kv w k'"
  using do_other [of "SET k v ttl" w _ w' k'] by (auto simp: Client_Set_def split: prod.splits sum.splits)

lemma is_lockout_store: "lockout_store (client_LockoutStore R) IsMiss now kv"
proof (unfold_locales, goal_cases)
  case (2 k w v w')
  then show ?case using Client_Get_ok [of k w v w'] by (auto simp: wires)
next
  case (10 k ttl w n w')
  then show ?case using Client_Incr_fresh [of k ttl w n w'] by (auto simp: wires)
next
  case (11 k ttl w n w' m dl)
  then show ?case using Client_Incr_next [of k ttl w n w' m dl] by (auto simp: wires)
qed (simp_all add: wires Client_Get_frame Client_Get_miss Client_TTL_frame Client_Set_now
    Client_Set_other Client_Set_ok Client_Incr_frame Client_Del_now Client_Del_ok Client_Del_err live)

end

sublocale redis_service \<subseteq> lockout: lockout_store "client_LockoutStore R" IsMiss now kv
  by (rule is_lockout_store)

context reliable_redis
begin

lemma is_steady_lockout_store: "steady_lockout_store (client_LockoutStore R) IsMiss now kv"
proof (unfold_locales, goal_cases)
  case (1 w k)
  then show ?case using Client_Get_total(1) [of w k] by (cases "Client_Get R k w") (auto simp: wires IsMiss_def)
next
  case (2 w k v d)
  then show ?case using Client_Get_total(2) [of w k v d] by (cases "Client_Get R k w") (auto simp: wires)
qed (simp_all add: wires Client_Set_total Client_Incr_total)

end

sublocale reliable_redis \<subseteq> lockout: steady_lockout_store "client_LockoutStore R" IsMiss now kv
  by (rule is_steady_lockout_store)

section \<open>One failed login\<close>

context lockout_store
begin

abbreviation L where "L maxA window ttl \<equiv> NewLockout S isMiss maxA window ttl"

lemma L_simps [simp]:
  "lo_store (L n win ttl) = S" "lo_isMiss (L n win ttl) = isMiss"
  "lo_maxAttempts (L n win ttl) = n" "lo_window (L n win ttl) = win" "lo_lockTTL (L n win ttl) = ttl"
  by (simp_all add: NewLockout_def)

lemma bump_now [simp]: "now (bump (L n win ttl) ck lk w) = now w"
  by (auto simp: bump_def split: prod.splits sum.splits dest: Incr_now Set_now)
    (metis Incr_now Set_now prod.collapse)

lemma bump_other:
  assumes "k \<noteq> ck" "k \<noteq> lk"
  shows "kv (bump (L n win ttl) ck lk w) k = kv w k"
proof -
  obtain x w1 where i: "ls_Incr S ck win w = (x, w1)" by fastforce
  obtain y w2 where s: "ls_Set S lk ''1'' ttl w1 = (y, w2)" by fastforce
  have "bump (L n win ttl) ck lk w = w1 \<or> bump (L n win ttl) ck lk w = w2"
    using i s by (auto simp: bump_def split: sum.splits)
  then show ?thesis using Incr_other [OF i assms(1)] Set_other [OF s assms(2)] by auto
qed

lemma RecordFailure_now [simp]: "now (RecordFailure (L n win ttl) u a w) = now w"
  by (simp add: RecordFailure_def)

lemma RecordFailure_other:
  "k \<notin> {failUser u, lockUser u, failIP a, lockIP a} \<Longrightarrow> kv (RecordFailure (L n win ttl) u a w) k = kv w k"
  by (simp add: RecordFailure_def bump_other)

text \<open>One turn of the loop of \<^verbatim>\<open>Locked\<close> that does not return early.\<close>

lemma Locked_loop_Cons:
  assumes "Locked_loop (L n win ttl) (k # ks) b d w = (r, w')"
  obtains "r = None" "now w' = now w" "kv w' = kv w"
  | w1 b1 d1 where "Locked_loop (L n win ttl) ks b1 d1 w1 = (r, w')" "now w1 = now w" "kv w1 = kv w"
      "b1 \<longleftrightarrow> b \<or> kv w k \<noteq> None" "d \<le> d1"
proof -
  obtain x w1 where g: "ls_Get S k w = (x, w1)" by fastforce
  obtain y w2 where t: "ls_TTL S k w1 = (y, w2)" by fastforce
  note f = Get_frame [OF g] TTL_frame [OF t]
  show ?thesis
  proof (cases x)
    case (Inl e)
    show ?thesis
    proof (cases "isMiss e")
      case True
      have "kv w k = None" using Get_miss g Inl True by blast
      then show ?thesis using that(2) [of b d w1] assms g Inl True f by simp
    next
      case False
      then show ?thesis using that(1) assms g Inl f by simp
    qed
  next
    case (Inr v)
    have "kv w k \<noteq> None" using Get_ok g Inr by blast
    then show ?thesis
      using that(2) [of True d w2] that(2) [of True "if projr y > d then projr y else d" w2] assms g t Inr f
      by (cases y) (auto split: if_splits)
  qed
qed

lemma Locked_loop_frame:
  "Locked_loop (L n win ttl) ks b d w = (r, w') \<Longrightarrow> now w' = now w \<and> kv w' = kv w"
proof (induction ks arbitrary: b d w)
  case (Cons k ks)
  from Cons.prems show ?case by (cases rule: Locked_loop_Cons) (use Cons.IH in auto)
qed simp

lemma Locked_frame: "Locked (L n win ttl) u a w = (r, w') \<Longrightarrow> now w' = now w \<and> kv w' = kv w"
  by (auto simp: Locked_def split: prod.splits option.splits dest: Locked_loop_frame)

text \<open>A caller is told that it is locked only when one of its lock keys is in the store.\<close>

lemma Locked_loop_sound:
  "Locked_loop (L n win ttl) ks b d w = (Some (b', d'), w') \<Longrightarrow> b' \<longleftrightarrow> b \<or> (\<exists>k \<in> set ks. kv w k \<noteq> None)"
proof (induction ks arbitrary: b d w)
  case (Cons k ks)
  from Cons.prems show ?case
  proof (cases rule: Locked_loop_Cons)
    case (2 w1 b1 d1)
    from Cons.IH [OF 2(1)] 2(3,4) show ?thesis by simp
  qed simp
qed simp

lemma Locked_sound:
  "Locked (L n win ttl) u a w = ((True, d), w') \<Longrightarrow> \<exists>k \<in> set (lockKeys u a). kv w k \<noteq> None"
  by (auto simp: Locked_def split: prod.splits option.splits dest!: Locked_loop_sound)

lemma Locked_retry_pos:
  "Locked (L n win ttl) u a w = ((True, d), w') \<Longrightarrow> 0 < ttl \<Longrightarrow> 0 < d"
  by (auto simp: Locked_def split: prod.splits option.splits if_splits)

text \<open>Unlocking.\<close>

lemma unlock_loop_effect:
  assumes "unlock_loop (L n win ttl) ks w = (x, w')"
  shows "now w' = now w \<and> (\<forall>k. kv w' k = kv w k \<or> kv w' k = None \<and> k \<in> set ks) \<and>
    (x = Inr () \<longrightarrow> (\<forall>k \<in> set ks. kv w' k = None))"
  using assms
proof (induction ks arbitrary: w)
  case (Cons k ks)
  obtain y w1 where d: "ls_Del S k w = (y, w1)" by fastforce
  show ?case
  proof (cases y)
    case (Inl e)
    with Cons.prems d Del_now [OF d] Del_err [of k w e w1] show ?thesis by (auto split: if_splits)
  next
    case (Inr u)
    have k1: "kv w1 = (kv w)(k := None)" using Del_ok d Inr by blast
    have IH: "now w' = now w1 \<and> (\<forall>k. kv w' k = kv w1 k \<or> kv w' k = None \<and> k \<in> set ks) \<and>
        (x = Inr () \<longrightarrow> (\<forall>k \<in> set ks. kv w' k = None))"
      using Cons.prems d Inr by (intro Cons.IH) simp
    then have "kv w' k = None" using k1 by (metis fun_upd_same)
    moreover have "kv w' j = kv w j \<or> kv w' j = None \<and> j \<in> set (k # ks)" for j
      using IH [THEN conjunct2, THEN conjunct1, THEN spec, of j] k1 by (cases "j = k") auto
    ultimately show ?thesis using IH Del_now [OF d] by auto
  qed
qed simp

lemma del_all_effect:
  "now (del_all (L n win ttl) ks w) = now w \<and>
   (\<forall>k. kv (del_all (L n win ttl) ks w) k = kv w k \<or> kv (del_all (L n win ttl) ks w) k = None \<and> k \<in> set ks)"
proof (induction ks arbitrary: w)
  case (Cons k ks)
  obtain y w1 where d: "ls_Del S k w = (y, w1)" by fastforce
  have "kv w1 = kv w \<or> kv w1 = (kv w)(k := None)"
    using Del_ok [of k w] Del_err [of k w] d by (cases y) blast+
  then have "kv w1 j = kv w j \<or> kv w1 j = None \<and> j = k" for j by (auto split: if_splits)
  with Cons.IH [of w1] d Del_now [OF d] show ?case by (auto split: if_splits) metis+
qed simp

end

section \<open>A series of failed logins\<close>

text \<open>
  \<open>failures l now kv u n w w'\<close>: from \<open>w\<close> to \<open>w'\<close> there were \<open>n\<close> failed logins of the user name
  \<open>u\<close>, from any addresses, with time passing and any other activity that leaves the keys of
  \<open>u\<close> alone in between (logins of other users, sessions, rate limiting).
\<close>

inductive failures ::
    "'w Lockout \<Rightarrow> ('w \<Rightarrow> Time) \<Rightarrow> ('w \<Rightarrow> keyspace) \<Rightarrow> string \<Rightarrow> nat \<Rightarrow> 'w \<Rightarrow> 'w \<Rightarrow> bool"
  for l now kv u where
  none: "failures l now kv u 0 w w"
| failed: "failures l now kv u n w w1 \<Longrightarrow> failures l now kv u (Suc n) w (RecordFailure l u a w1)"
| waited: "failures l now kv u n w w1 \<Longrightarrow> elapses now kv w1 w2 \<Longrightarrow> failures l now kv u n w w2"
| others: "failures l now kv u n w w1 \<Longrightarrow> now w2 = now w1 \<Longrightarrow> kv w2 (failUser u) = kv w1 (failUser u) \<Longrightarrow>
    kv w2 (lockUser u) = kv w1 (lockUser u) \<Longrightarrow> failures l now kv u n w w2"

context steady_lockout_store
begin

lemma bump_fresh:
  assumes "kv w ck = None" "Millisecond \<le> win" "0 < ttl" "ck \<noteq> lk"
  shows "kv (bump (L n win ttl) ck lk w) ck = Some (VCtr 1, Some (now w + px win))"
    and "kv (bump (L n win ttl) ck lk w) lk =
      (if n \<le> 1 then Some (VStr ''1'', Some (now w + px ttl)) else kv w lk)"
proof -
  obtain i w1 where i: "ls_Incr S ck win w = (Inr i, w1)"
    using Incr_total [of w ck win] assms(1,2) by (cases "ls_Incr S ck win w") auto
  obtain w2 where s: "ls_Set S lk ''1'' ttl w1 = (Inr (), w2)"
    using Set_total [of lk "''1''" ttl w1] by (cases "ls_Set S lk ''1'' ttl w1") auto
  have f: "i = 1" "kv w1 ck = Some (VCtr 1, Some (now w + px win))" "now w1 = now w" "kv w1 lk = kv w lk"
    using Incr_fresh [OF i assms(2,1)] Incr_now [OF i] Incr_other [OF i] assms(4) by auto
  have "wrap64 1 = 1" by (rule wrap64_id) (simp add: is_int64_def)
  then have b: "bump (L n win ttl) ck lk w = (if n \<le> 1 then w2 else w1)"
    using i s f by (simp add: bump_def)
  show "kv (bump (L n win ttl) ck lk w) ck = Some (VCtr 1, Some (now w + px win))"
    using f Set_other [OF s assms(4)] by (simp add: b)
  show "kv (bump (L n win ttl) ck lk w) lk =
      (if n \<le> 1 then Some (VStr ''1'', Some (now w + px ttl)) else kv w lk)"
    using f Set_ok [OF s assms(3)] by (simp add: b)
qed

lemma bump_next:
  assumes "kv w ck = Some (VCtr m, dl)" "1 \<le> m" "m + 1 < 2 ^ 63" "0 < win" "0 < ttl" "ck \<noteq> lk"
  shows "kv (bump (L n win ttl) ck lk w) ck = Some (VCtr (m + 1), dl)"
    and "kv (bump (L n win ttl) ck lk w) lk =
      (if n \<le> m + 1 then Some (VStr ''1'', Some (now w + px ttl)) else kv w lk)"
proof -
  obtain i w1 where i: "ls_Incr S ck win w = (Inr i, w1)"
    using Incr_total [of w ck win] assms(1,3,4) by (cases "ls_Incr S ck win w") auto
  obtain w2 where s: "ls_Set S lk ''1'' ttl w1 = (Inr (), w2)"
    using Set_total [of lk "''1''" ttl w1] by (cases "ls_Set S lk ''1'' ttl w1") auto
  have f: "i = m + 1" "kv w1 ck = Some (VCtr (m + 1), dl)" "now w1 = now w" "kv w1 lk = kv w lk"
    using Incr_next [OF i assms(4,1,2)] Incr_now [OF i] Incr_other [OF i] assms(6) by auto
  have "wrap64 (m + 1) = m + 1" using assms(2,3) by (intro wrap64_id) (simp add: is_int64_def)
  then have b: "bump (L n win ttl) ck lk w = (if n \<le> m + 1 then w2 else w1)"
    using i s f by (simp add: bump_def)
  show "kv (bump (L n win ttl) ck lk w) ck = Some (VCtr (m + 1), dl)"
    using f Set_other [OF s assms(6)] by (simp add: b)
  show "kv (bump (L n win ttl) ck lk w) lk =
      (if n \<le> m + 1 then Some (VStr ''1'', Some (now w + px ttl)) else kv w lk)"
    using f Set_ok [OF s assms(5)] by (simp add: b)
qed

end

context steady_lockout_store
begin

text \<open>Within a window that started clean the counter counts, and its deadline is a window away.\<close>

lemma failures_counter:
  assumes "failures (L maxA win ttl) now kv u n w w'" "kv w (failUser u) = None"
    and "Millisecond \<le> win" "0 < ttl"
  shows "now w \<le> now w' \<and> (now w' < now w + px win \<longrightarrow> int n < 2 ^ 63 \<longrightarrow>
    (if n = 0 then kv w' (failUser u) = None
     else \<exists>d. kv w' (failUser u) = Some (VCtr (int n), Some d) \<and> now w + px win \<le> d))"
  using assms(1,2)
proof (induction rule: failures.induct)
  case (failed n w w1 a)
  let ?w2 = "bump (L maxA win ttl) (failUser u) (lockUser u) w1"
  have same: "kv (RecordFailure (L maxA win ttl) u a w1) (failUser u) = kv ?w2 (failUser u)"
    by (simp add: RecordFailure_def bump_other)
  show ?case
  proof (cases "n = 0")
    case True
    then show ?thesis
      using failed same bump_fresh(1) [OF _ assms(3,4), of w1 "failUser u" "lockUser u" maxA] by auto
  next
    case False
    then show ?thesis
      using failed same bump_next(1) [of w1 "failUser u" "int n" _ win ttl "lockUser u" maxA] assms(3,4)
      by (auto simp: add.commute)
  qed
next
  case (waited n w w1 w2)
  then show ?case by (auto simp: elapses_def live_at_def split: if_splits)
qed (auto simp: assms)

lemma failed_login_locks:
  assumes run: "failures (L maxA win ttl) now kv u n w w1" and fresh: "kv w (failUser u) = None"
    and t: "Millisecond \<le> win" "0 < ttl" "now w1 < now w + px win" and n: "int n + 1 < 2 ^ 63"
  shows "kv (RecordFailure (L maxA win ttl) u a w1) (lockUser u) =
    (if maxA \<le> int n + 1 then Some (VStr ''1'', Some (now w1 + px ttl)) else kv w1 (lockUser u))"
proof -
  have same: "kv (RecordFailure (L maxA win ttl) u a w1) (lockUser u) =
      kv (bump (L maxA win ttl) (failUser u) (lockUser u) w1) (lockUser u)"
    by (simp add: RecordFailure_def bump_other)
  note c = failures_counter [OF run fresh t(1,2)]
  show ?thesis
  proof (cases "n = 0")
    case True
    then show ?thesis using c t n same bump_fresh(2) [OF _ t(1,2), of w1 "failUser u" "lockUser u" maxA] by simp
  next
    case False
    then obtain d where "kv w1 (failUser u) = Some (VCtr (int n), Some d)" using c t n by auto
    then show ?thesis
      using False n t same bump_next(2) [of w1 "failUser u" "int n" _ win ttl "lockUser u" maxA] by auto
  qed
qed

lemma failures_unlocked:
  assumes "failures (L maxA win ttl) now kv u n w w'" "kv w (failUser u) = None" "kv w (lockUser u) = None"
    and "Millisecond \<le> win" "0 < ttl" "now w' < now w + px win" "int n < maxA" "maxA < 2 ^ 63"
  shows "kv w' (lockUser u) = None"
  using assms(1-3,6,7)
proof (induction rule: failures.induct)
  case (failed n w w1 a)
  then show ?case
    using failed_login_locks [OF failed(1,3) assms(4,5), of a] assms(8) by simp
next
  case (waited n w w1 w2)
  then show ?case by (auto simp: elapses_def live_at_None)
qed simp_all

text \<open>A lock that is in the store is reported.\<close>

lemma Locked_loop_steady:
  "\<forall>k \<in> set ks. case kv w k of None \<Rightarrow> True | Some (VStr _, _) \<Rightarrow> True | _ \<Rightarrow> False \<Longrightarrow>
   fst (Locked_loop (L maxA win ttl) ks b d w) \<noteq> None"
proof (induction ks arbitrary: b d w)
  case (Cons k ks)
  have IH: "fst (Locked_loop (L maxA win ttl) ks b' d' w') \<noteq> None" if "kv w' = kv w" for b' d' w'
    by (rule Cons.IH) (use Cons.prems that in auto)
  show ?case
  proof (cases "kv w k")
    case None
    then obtain e w1 where "ls_Get S k w = (Inl e, w1)" "isMiss e" using Get_None by blast
    then show ?thesis using IH Get_frame by auto
  next
    case (Some e)
    with Cons.prems obtain v dl where "kv w k = Some (VStr v, dl)" by (auto split: rval.splits)
    then obtain w1 where g: "ls_Get S k w = (Inr v, w1)" using Get_Some by blast
    obtain y w2 where t: "ls_TTL S k w1 = (y, w2)" by fastforce
    show ?thesis using IH g t Get_frame [OF g] TTL_frame [OF t] by (cases y) auto
  qed
qed simp

lemma Locked_complete:
  assumes "k \<in> set (lockKeys u a)" "kv w k \<noteq> None"
    and "\<forall>k \<in> set (lockKeys u a). case kv w k of None \<Rightarrow> True | Some (VStr _, _) \<Rightarrow> True | _ \<Rightarrow> False"
  shows "fst (fst (Locked (L maxA win ttl) u a w))"
proof -
  obtain b d w' where r: "Locked_loop (L maxA win ttl) (lockKeys u a) False 0 w = (Some (b, d), w')"
    using Locked_loop_steady [OF assms(3), of maxA win ttl False 0]
    by (cases "Locked_loop (L maxA win ttl) (lockKeys u a) False 0 w") auto
  then show ?thesis using Locked_loop_sound [OF r] assms(1,2) by (auto simp: Locked_def)
qed

lemma lock_after_failures:
  assumes run: "failures (L maxA win ttl) now kv u n w w1" and clean: "kv w (failUser u) = None" "kv w (lockUser u) = None"
    and t: "Millisecond \<le> win" "0 < ttl" "now w1 < now w + px win" and n: "int n + 1 < 2 ^ 63" "maxA < 2 ^ 63"
    and w2: "w2 = RecordFailure (L maxA win ttl) u ip w1"
    and el: "elapses now kv w2 w3" "now w3 < now w1 + px ttl"
    and ip: "kv w3 (lockIP ip') = None" and u: "u \<noteq> []"
  shows "(kv w3 (lockUser u) \<noteq> None \<longleftrightarrow> maxA \<le> int n + 1) \<and>
    (fst (fst (Locked (L maxA win ttl) u ip' w3)) \<longleftrightarrow> maxA \<le> int n + 1) \<and>
    (maxA \<le> int n + 1 \<longrightarrow> 0 < snd (fst (Locked (L maxA win ttl) u ip' w3)))"
proof -
  note lock = failed_login_locks [OF run clean(1) t n(1), of ip]
  have iff: "kv w3 (lockUser u) = (if maxA \<le> int n + 1 then Some (VStr ''1'', Some (now w1 + px ttl)) else None)"
  proof (cases "maxA \<le> int n + 1")
    case True
    then show ?thesis using lock w2 el by (simp add: elapses_def live_at_def)
  next
    case False
    have "kv w1 (lockUser u) = None" using failures_unlocked [OF run clean t] False n(2) by simp
    then show ?thesis using lock w2 el(1) False by (simp add: elapses_def live_at_None)
  qed
  obtain b d w4 where l: "Locked (L maxA win ttl) u ip' w3 = ((b, d), w4)" by (metis prod.collapse)
  have b: "b \<longleftrightarrow> maxA \<le> int n + 1"
  proof
    assume b: "b"
    have "\<exists>k \<in> set (lockKeys u ip'). kv w3 k \<noteq> None"
      using Locked_sound [of maxA win ttl u ip' w3 d w4] l b by simp
    then show "maxA \<le> int n + 1" using iff ip u by (auto simp: lockKeys_def split: if_splits)
  next
    assume m: "maxA \<le> int n + 1"
    have "fst (fst (Locked (L maxA win ttl) u ip' w3))"
      by (rule Locked_complete [of "lockUser u"]) (use iff m ip u in \<open>auto simp: lockKeys_def\<close>)
    then show b using l by simp
  qed
  have "0 < d" if b using Locked_retry_pos [of maxA win ttl u ip' w3 d w4] l that t(2) by simp
  with b l iff show ?thesis by simp
qed

end

section \<open>Properties\<close>

abbreviation redis_Lockout :: "'w redis \<Rightarrow> int \<Rightarrow> Duration \<Rightarrow> Duration \<Rightarrow> 'w Lockout" where
  "redis_Lockout R maxAttempts window lockTTL \<equiv>
     NewLockout (client_LockoutStore R) IsMiss maxAttempts window lockTTL"

text \<open>
  C14: the threshold locks. After \<open>n + 1\<close> failed logins of a user name within one window that
  started without a counter, from whatever addresses and whatever else happened in between, the
  lock of the name is set if and only if \<open>n + 1\<close> has reached the configured number of attempts
  (and the name was not locked before); a set lock lasts for \<^verbatim>\<open>lockTTL\<close> from that failure on, and
  while it lasts every login of that name is reported as locked, with a positive retry hint.
\<close>

theorem lockout_engages:
  assumes "reliable_redis R now kv" and "Millisecond \<le> window" and "0 < lockTTL"
    and "failures (redis_Lockout R maxAttempts window lockTTL) now kv u n w w1"
    and "kv w (failUser u) = None" and "kv w (lockUser u) = None"
    and "now w1 < now w + px window" and "int n + 1 < 2 ^ 63" and "maxAttempts < 2 ^ 63"
    and "w2 = RecordFailure (redis_Lockout R maxAttempts window lockTTL) u ip w1"
    and "elapses now kv w2 w3" and "now w3 < now w1 + px lockTTL"
    and "kv w3 (lockIP ip') = None" and "u \<noteq> ''''"
  shows "(kv w3 (lockUser u) \<noteq> None \<longleftrightarrow> maxAttempts \<le> int n + 1) \<and>
    (fst (fst (Locked (redis_Lockout R maxAttempts window lockTTL) u ip' w3)) \<longleftrightarrow> maxAttempts \<le> int n + 1) \<and>
    (maxAttempts \<le> int n + 1 \<longrightarrow>
      0 < snd (fst (Locked (redis_Lockout R maxAttempts window lockTTL) u ip' w3)))"
  by (rule steady_lockout_store.lock_after_failures
        [OF reliable_redis.is_steady_lockout_store [OF assms(1)] assms(4,5,6,2,3,7,8,9,10,11,12,13,14)])

definition mem_lockout :: "seeded Lockout" where
  "mem_lockout = redis_Lockout mem_redis 2 (900 * Second) (600 * Second)"

theorem lockout_engages_witness:
  "fst (fst (Locked mem_lockout ''bob'' ''10.0.0.9''
     (RecordFailure mem_lockout ''bob'' ''10.0.0.2'' (RecordFailure mem_lockout ''bob'' ''10.0.0.1'' mem_start))))"
proof -
  define w1 where "w1 = RecordFailure mem_lockout ''bob'' ''10.0.0.1'' mem_start"
  define w2 where "w2 = RecordFailure mem_lockout ''bob'' ''10.0.0.2'' w1"
  have run: "failures mem_lockout mem_now mem_kv ''bob'' 1 mem_start w1"
    unfolding w1_def using failures.failed [OF failures.none, of mem_lockout mem_now mem_kv] by simp
  have t: "mem_now w1 = 0" "mem_now w2 = 0" unfolding w1_def w2_def by code_simp+
  have ip: "mem_kv w2 (lockIP ''10.0.0.9'') = None" unfolding w1_def w2_def by code_simp
  have "elapses mem_now mem_kv w2 w2"
    by (auto simp: elapses_def mem_kv_def live_at_def fun_eq_iff split: option.splits)
  from lockout_engages [OF mem.reliable_redis_axioms _ _ run [unfolded mem_lockout_def] _ _ _ _ _
      w2_def [unfolded mem_lockout_def] this, of "''10.0.0.9''", folded mem_lockout_def]
  have "fst (fst (Locked mem_lockout ''bob'' ''10.0.0.9'' w2))"
    by (simp add: t ip px_def)
  then show ?thesis by (simp add: w1_def w2_def)
qed

text \<open>
  An administrator's unlock that succeeds clears the failure counter and the lock of that user
  name, and nothing else in the store: the keys of the client addresses, the other users and the
  sessions stay as they are.
\<close>

theorem Unlock_clears_the_user:
  assumes "redis_service R now kv"
    and "Unlock (redis_Lockout R maxAttempts window lockTTL) u w = (Inr (), w')"
  shows "kv w' = (kv w)(failUser u := None, lockUser u := None)"
proof
  fix k
  have "(\<forall>k. kv w' k = kv w k \<or> kv w' k = None \<and> k \<in> {failUser u, lockUser u}) \<and>
      kv w' (failUser u) = None \<and> kv w' (lockUser u) = None"
    using lockout_store.unlock_loop_effect
      [OF redis_service.is_lockout_store [OF assms(1)] assms(2) [unfolded Unlock_def]] by simp
  then show "kv w' k = ((kv w)(failUser u := None, lockUser u := None)) k"
    by (metis fun_upd_apply insertE singletonD)
qed

theorem Unlock_clears_the_user_witness:
  "mem_kv (snd (Unlock mem_lockout ''bob'' (RecordFailure mem_lockout ''bob'' ''10.0.0.1'' mem_start)))
     (failUser ''bob'') = None"
proof -
  define w where "w = RecordFailure mem_lockout ''bob'' ''10.0.0.1'' mem_start"
  have "fst (Unlock mem_lockout ''bob'' w) = Inr ()" unfolding w_def by code_simp
  then have "Unlock mem_lockout ''bob'' w = (Inr (), snd (Unlock mem_lockout ''bob'' w))"
    by (simp add: prod_eq_iff)
  from Unlock_clears_the_user [OF mem.redis_service_axioms this [unfolded mem_lockout_def]]
  show ?thesis by (simp add: w_def mem_lockout_def)
qed

text \<open>
  C34: the retry hint is the remaining time in whole seconds, rounded up, and at least one; in the
  last second of the range of a duration the addition overflows and the hint falls to one second.
\<close>

theorem RetryAfterSeconds_rounds_up:
  "1 \<le> RetryAfterSeconds d \<and>
   (0 < d \<and> d \<le> 2 ^ 63 - Second \<longrightarrow>
     (RetryAfterSeconds d - 1) * Second < d \<and> d \<le> RetryAfterSeconds d * Second) \<and>
   (2 ^ 63 - Second < d \<and> d < 2 ^ 63 \<longrightarrow> RetryAfterSeconds d = 1)"
  using ceil_seconds_ok [of d] ceil_seconds_overflow [of d]
  by (auto simp: RetryAfterSeconds_def Let_def)

theorem RetryAfterSeconds_rounds_up_witness:
  "(RetryAfterSeconds 1500000000 - 1) * Second < 1500000000 \<and> RetryAfterSeconds 9223372036854775807 = 1"
  using RetryAfterSeconds_rounds_up [of 1500000000] RetryAfterSeconds_rounds_up [of 9223372036854775807]
  by simp

end
