(* ===== verification/Auth_Recovery.thy ===== *)
theory Auth_Recovery
  imports Auth_Session
begin

text \<open>
  \<^verbatim>\<open>internal/auth/recovery.go\<close>: single-use password-reset tokens. The interface \<^verbatim>\<open>ResetStore\<close> is
  the locale \<open>reset_store\<close>.
\<close>

section \<open>Data and operations\<close>

record 'w ResetStore =
  rs_Set :: "string \<Rightarrow> string \<Rightarrow> Duration \<Rightarrow> ('w, unit) act"
  rs_GetDel :: "string \<Rightarrow> ('w, string) act"

record 'w Recovery =
  rc_store :: "'w ResetStore"
  rc_isMiss :: "goerr \<Rightarrow> bool"
  rc_ttl :: Duration

definition resetKeyPrefix :: string where
  "resetKeyPrefix = ''pwreset:v1:''"

definition resetKey :: "string \<Rightarrow> string" where
  "resetKey token = resetKeyPrefix @ token"

definition NewRecovery :: "'w ResetStore \<Rightarrow> (goerr \<Rightarrow> bool) \<Rightarrow> Duration \<Rightarrow> 'w Recovery" where
  "NewRecovery store isMiss ttl = \<lparr>rc_store = store, rc_isMiss = isMiss, rc_ttl = ttl\<rparr>"

definition CreateResetToken :: "'w env \<Rightarrow> 'w Recovery \<Rightarrow> string \<Rightarrow> ('w, string) act" where
  "CreateResetToken E r userID w =
     (case randomToken E w of
        (Inl err, w1) \<Rightarrow> (Inl err, w1)
      | (Inr token, w1) \<Rightarrow>
          (case rs_Set (rc_store r) (resetKey token) userID (rc_ttl r) w1 of
             (Inl err, w2) \<Rightarrow> (Inl (Wrapf ''auth: store reset token: %w'' [err]), w2)
           | (Inr _, w2) \<Rightarrow> (Inr token, w2)))"

definition ConsumeResetToken :: "'w Recovery \<Rightarrow> string \<Rightarrow> ('w, string) act" where
  "ConsumeResetToken r token w =
     (if token = '''' then (Inl (Leaf ErrResetTokenInvalid), w)
      else (case rs_GetDel (rc_store r) (resetKey token) w of
              (Inl err, w1) \<Rightarrow>
                (if rc_isMiss r err then (Inl (Leaf ErrResetTokenInvalid), w1)
                 else (Inl (Wrapf ''auth: consume reset token: %w'' [err]), w1))
            | (Inr userID, w1) \<Rightarrow> (Inr userID, w1)))"

section \<open>The store interface\<close>

lemma resetKey_inject [simp]: "resetKey a = resetKey b \<longleftrightarrow> a = b"
  by (simp add: resetKey_def)

lemma resetKey_neq [simp, keys]:
  "resetKey a \<noteq> sessionKey b" "resetKey a \<noteq> userSessionsKey b"
  by (simp_all add: resetKey_def resetKeyPrefix_def sessionKey_def userSessionsKey_def
      sessionKeyPrefix_def userSessionsKeyPrefix_def)

locale reset_store =
  fixes S :: "'w ResetStore" and isMiss :: "goerr \<Rightarrow> bool"
    and now :: "'w \<Rightarrow> Time" and kv :: "'w \<Rightarrow> keyspace"
  assumes Set_now: "rs_Set S k v ttl w = (x, w') \<Longrightarrow> now w' = now w"
    and Set_ok: "rs_Set S k v ttl w = (Inr u, w') \<Longrightarrow> 0 < ttl \<Longrightarrow>
        kv w' = (kv w)(k \<mapsto> (VStr v, Some (now w + px ttl)))"
    and GetDel_now: "rs_GetDel S k w = (y, w') \<Longrightarrow> now w' = now w"
    and GetDel_ok: "rs_GetDel S k w = (Inr v, w') \<Longrightarrow> kv w' = (kv w)(k := None) \<and>
        (\<exists>c d. kv w k = Some (c, d) \<and> (c = VStr v \<or> (\<exists>n. c = VCtr n \<and> v = show_int n)))"
    and GetDel_err: "rs_GetDel S k w = (Inl e, w') \<Longrightarrow> kv w' = kv w \<or> kv w' = (kv w)(k := None)"
    and GetDel_miss: "rs_GetDel S k w = (Inl e, w') \<Longrightarrow> isMiss e \<Longrightarrow> kv w k = None"

definition client_ResetStore :: "'w redis \<Rightarrow> 'w ResetStore" where
  [wires]: "client_ResetStore R = \<lparr>rs_Set = Client_Set R, rs_GetDel = Client_GetDel R\<rparr>"

context redis_service
begin

lemma is_reset_store: "reset_store (client_ResetStore R) IsMiss now kv"
proof (unfold_locales, goal_cases)
  case (4 k w v w')
  then show ?case using Client_GetDel_ok [of k w v w'] by (auto simp: wires)
next
  case (6 k w e w')
  then show ?case using Client_GetDel_err(2) [of k w e w'] by (auto simp: wires)
qed (simp_all add: wires Client_Set_now Client_Set_ok Client_GetDel_now Client_GetDel_err(1))

end

context reliable_redis
begin

lemma Consume_total:
  assumes "tok \<noteq> []"
  shows "kv w (resetKey tok) = Some (VStr uid, d) \<Longrightarrow>
      fst (ConsumeResetToken (NewRecovery (client_ResetStore R) IsMiss ttl) tok w) = Inr uid"
    and "kv w (resetKey tok) = None \<Longrightarrow>
      fst (ConsumeResetToken (NewRecovery (client_ResetStore R) IsMiss ttl) tok w) = Inl (Leaf ErrResetTokenInvalid)"
  using assms Client_GetDel_total [of w "resetKey tok"]
  by (cases "Client_GetDel R (resetKey tok) w"; auto simp: ConsumeResetToken_def NewRecovery_def wires IsMiss_def)+

end

sublocale redis_service \<subseteq> reset: reset_store "client_ResetStore R" IsMiss now kv
  by (rule is_reset_store)

section \<open>Histories of a token\<close>

text \<open>
  \<open>token_run r now kv tok n w w'\<close>: from \<open>w\<close> to \<open>w'\<close> the token \<open>tok\<close> was consumed \<open>n\<close> times with
  success, among attempts that failed, time passing, and other activity that never stores it
  again (a fresh token is 32 new random bytes).
\<close>

inductive token_run ::
    "'w Recovery \<Rightarrow> ('w \<Rightarrow> Time) \<Rightarrow> ('w \<Rightarrow> keyspace) \<Rightarrow> string \<Rightarrow> nat \<Rightarrow> 'w \<Rightarrow> 'w \<Rightarrow> bool"
  for r now kv tok where
  start: "token_run r now kv tok 0 w w"
| consumed: "token_run r now kv tok n w w1 \<Longrightarrow> ConsumeResetToken r tok w1 = (Inr uid, w2) \<Longrightarrow>
    token_run r now kv tok (Suc n) w w2"
| refused: "token_run r now kv tok n w w1 \<Longrightarrow> ConsumeResetToken r tok w1 = (Inl e, w2) \<Longrightarrow>
    token_run r now kv tok n w w2"
| waited: "token_run r now kv tok n w w1 \<Longrightarrow> elapses now kv w1 w2 \<Longrightarrow> token_run r now kv tok n w w2"
| others: "token_run r now kv tok n w w1 \<Longrightarrow> now w2 = now w1 \<Longrightarrow>
    kv w2 (resetKey tok) = kv w1 (resetKey tok) \<or> kv w2 (resetKey tok) = None \<Longrightarrow>
    token_run r now kv tok n w w2"

context reset_store
begin

abbreviation Rec where "Rec ttl \<equiv> NewRecovery S isMiss ttl"

lemma Rec_simps [simp]: "rc_store (Rec t) = S" "rc_isMiss (Rec t) = isMiss" "rc_ttl (Rec t) = t"
  by (simp_all add: NewRecovery_def)

lemma Consume_ok:
  assumes "ConsumeResetToken (Rec t) tok w = (Inr uid, w')"
  shows "kv w' = (kv w)(resetKey tok := None)" "now w' = now w" "tok \<noteq> ''''"
    and "\<exists>c d. kv w (resetKey tok) = Some (c, d) \<and> (c = VStr uid \<or> (\<exists>n. c = VCtr n \<and> uid = show_int n))"
  using assms GetDel_ok [of "resetKey tok" w uid w'] GetDel_now [of "resetKey tok" w _ w']
  by (auto simp: ConsumeResetToken_def split: if_splits prod.splits sum.splits)

lemma Consume_err:
  assumes "ConsumeResetToken (Rec t) tok w = (Inl e, w')"
  shows "now w' = now w" "kv w' = kv w \<or> kv w' = (kv w)(resetKey tok := None)"
  using assms GetDel_err [of "resetKey tok" w _ w'] GetDel_now [of "resetKey tok" w _ w']
  by (auto simp: ConsumeResetToken_def split: if_splits prod.splits sum.splits)

lemma Consume_found:
  assumes "ConsumeResetToken (Rec t) tok w = (x, w')" "kv w (resetKey tok) = Some (VStr uid, d)" "tok \<noteq> ''''"
  shows "x = Inr uid \<or> (\<exists>e. x = Inl e \<and> e \<noteq> Leaf ErrResetTokenInvalid)"
  using assms GetDel_ok [of "resetKey tok" w _ w'] GetDel_miss [of "resetKey tok" w _ w']
  by (auto simp: ConsumeResetToken_def split: if_splits prod.splits sum.splits)

lemma token_run_once:
  "token_run (Rec t) now kv tok n w w' \<Longrightarrow> n \<le> 1 \<and> (n = 1 \<longrightarrow> kv w' (resetKey tok) = None)"
proof (induction rule: token_run.induct)
  case (consumed n w w1 uid w2)
  then show ?case using Consume_ok(1,4) [OF consumed(2)] by (cases n) auto
next
  case (refused n w w1 e w2)
  then show ?case using Consume_err(2) [OF refused(2)] by auto
next
  case (waited n w w1 w2)
  then show ?case by (auto simp: elapses_def live_at_None)
qed auto

lemma Create_ok:
  assumes "auth_env E now kv" "CreateResetToken E (Rec t) uid w = (Inr tok, w')" "0 < t"
  shows "kv w' = (kv w)(resetKey tok \<mapsto> (VStr uid, Some (now w + px t)))" "now w' = now w" "tok \<noteq> ''''"
proof -
  obtain w1 where r: "randomToken E w = (Inr tok, w1)" and s: "rs_Set S (resetKey tok) uid t w1 = (Inr (), w')"
    using assms(2) by (auto simp: CreateResetToken_def split: prod.splits sum.splits)
  note f = auth_env.randomToken_frame [OF assms(1) r]
  show "kv w' = (kv w)(resetKey tok \<mapsto> (VStr uid, Some (now w + px t)))" "now w' = now w"
    using Set_ok [OF s assms(3)] Set_now [OF s] f by simp_all
  obtain b where "tok = token_of b" "length b = tokenBytes"
    using auth_env.randomToken_ok [OF assms(1) r] .
  then have "length tok = 43" by (simp add: length_token_of tokenBytes_def)
  then show "tok \<noteq> ''''" by auto
qed

end

section \<open>Properties\<close>

abbreviation redis_Recovery :: "'w redis \<Rightarrow> Duration \<Rightarrow> 'w Recovery" where
  "redis_Recovery R ttl \<equiv> NewRecovery (client_ResetStore R) IsMiss ttl"

text \<open>
  C25: a reset token works at most once, however many requests present it, whatever else happens
  in between and even when replies of the store are lost.
\<close>

theorem reset_token_single_use:
  assumes "redis_service R now kv" and "token_run (redis_Recovery R ttl) now kv tok n w w'"
  shows "n \<le> 1 \<and> (n = 1 \<longrightarrow> (\<forall>uid w2. ConsumeResetToken (redis_Recovery R ttl) tok w' \<noteq> (Inr uid, w2)))"
proof -
  note rs = redis_service.is_reset_store [OF assms(1)]
  have "n \<le> 1 \<and> (n = 1 \<longrightarrow> kv w' (resetKey tok) = None)"
    by (rule reset_store.token_run_once [OF rs assms(2)])
  then show ?thesis using reset_store.Consume_ok(4) [OF rs] by fastforce
qed

definition mem_recovery :: "seeded Recovery" where
  "mem_recovery = redis_Recovery mem_redis (3600 * Second)"

definition mem_minted :: "string res \<times> seeded" where
  "mem_minted = CreateResetToken mem_env mem_recovery ''u1'' mem_start"

theorem reset_token_single_use_witness:
  "fst (ConsumeResetToken mem_recovery (projr (fst mem_minted)) (snd mem_minted)) = Inr ''u1'' \<and>
   (\<forall>uid w2. ConsumeResetToken mem_recovery (projr (fst mem_minted))
      (snd (ConsumeResetToken mem_recovery (projr (fst mem_minted)) (snd mem_minted))) \<noteq> (Inr uid, w2))"
proof -
  define c where "c = ConsumeResetToken mem_recovery (projr (fst mem_minted)) (snd mem_minted)"
  have ok: "fst c = Inr ''u1''" unfolding c_def by code_simp
  then have "ConsumeResetToken mem_recovery (projr (fst mem_minted)) (snd mem_minted) = (Inr ''u1'', snd c)"
    by (simp add: c_def prod_eq_iff)
  from token_run.consumed [OF token_run.start this, of mem_now mem_kv]
  have "token_run mem_recovery mem_now mem_kv (projr (fst mem_minted)) (Suc 0) (snd mem_minted) (snd c)" .
  from reset_token_single_use [OF mem.redis_service_axioms this [unfolded mem_recovery_def], folded mem_recovery_def]
  show ?thesis using ok by (simp add: c_def)
qed

text \<open>
  C28: a token that was minted is good for its lifetime. Consumed after nothing but the passing of
  time, it yields the user it was minted for within its lifetime and is refused as invalid from then
  on, when Redis answers. When Redis may fail, the attempt may fail with an error of the store, but
  within the lifetime it never yields another user or the answer that the token is invalid, and after
  it no user.
\<close>

theorem minted_token_is_valid:
  assumes "redis_service R now kv" and "auth_env E now kv" and "0 < ttl"
    and "CreateResetToken E (redis_Recovery R ttl) uid w = (Inr tok, w1)"
    and "elapses now kv w1 w2" and "ConsumeResetToken (redis_Recovery R ttl) tok w2 = (x, w3)"
  shows "(if now w2 < now w + px ttl then x = Inr uid \<or> (\<exists>e. x = Inl e \<and> e \<noteq> Leaf ErrResetTokenInvalid)
      else \<forall>uid'. x \<noteq> Inr uid') \<and>
    (reliable_redis R now kv \<longrightarrow>
      x = (if now w2 < now w + px ttl then Inr uid else Inl (Leaf ErrResetTokenInvalid)))"
proof -
  note rs = redis_service.is_reset_store [OF assms(1)]
  note c = reset_store.Create_ok [OF rs assms(2,4,3)]
  have k: "kv w2 (resetKey tok) = (if now w2 < now w + px ttl then Some (VStr uid, Some (now w + px ttl)) else None)"
    using assms(5) c by (simp add: elapses_def live_at_def)
  then have "if now w2 < now w + px ttl then x = Inr uid \<or> (\<exists>e. x = Inl e \<and> e \<noteq> Leaf ErrResetTokenInvalid)
      else \<forall>uid'. x \<noteq> Inr uid'"
    using reset_store.Consume_found [OF rs assms(6) _ c(3)] reset_store.Consume_ok(4) [OF rs] assms(6)
    by fastforce
  moreover have "x = (if now w2 < now w + px ttl then Inr uid else Inl (Leaf ErrResetTokenInvalid))" if "reliable_redis R now kv"
    using reliable_redis.Consume_total [OF that c(3), of w2, where ttl = ttl] k assms(6) by (simp split: if_splits)
  ultimately show ?thesis by blast
qed

theorem minted_token_is_valid_witness:
  "fst (ConsumeResetToken mem_recovery (projr (fst mem_minted)) (mem_later (3599 * Second) (snd mem_minted))) = Inr ''u1'' \<and>
   fst (ConsumeResetToken mem_recovery (projr (fst mem_minted)) (mem_later (3600 * Second) (snd mem_minted))) =
     Inl (Leaf ErrResetTokenInvalid)"
proof -
  have "\<not> isl (fst mem_minted)" by code_simp
  then have c: "CreateResetToken mem_env mem_recovery ''u1'' mem_start = (Inr (projr (fst mem_minted)), snd mem_minted)"
    by (simp add: mem_minted_def prod_eq_iff)
  have t: "mem_now (snd mem_minted) = 0" by code_simp
  note v = minted_token_is_valid [OF mem.redis_service_axioms mem_env.auth_env_axioms _
      c [unfolded mem_recovery_def] mem_later_elapses prod.collapse [symmetric], folded mem_recovery_def]
  show ?thesis using v [of "3599 * Second"] v [of "3600 * Second"]
    by (simp add: t mem_later_def px_def mem.reliable_redis_axioms)
qed

end
