(* ===== verification/RateLimit.thy ===== *)
theory RateLimit
  imports Auth_Session
begin

text \<open>
  \<^verbatim>\<open>internal/ratelimit/ratelimit.go\<close>: a fixed-window limiter whose counters live in Redis under a
  key made of the limiter's name, the caller's scope and the start of the window. The interface
  \<^verbatim>\<open>Store\<close> is the locale \<open>counter_store\<close>.
\<close>

section \<open>Data and operations\<close>

record 'w Store =
  st_Incr :: "string \<Rightarrow> Duration \<Rightarrow> ('w, int) act"

record Result =
  r_Allowed :: bool
  r_Limit :: int
  r_Remaining :: int
  r_Reset :: Duration
  r_RetryAfter :: Duration

record 'w Limiter =
  l_store :: "'w Store"
  l_name :: string
  l_limit :: int
  l_window :: Duration
  l_now :: "'w \<Rightarrow> Time"

definition keyPrefix :: string where
  "keyPrefix = ''ratelimit:v1:''"

definition NewLimiter :: "'w Store \<Rightarrow> string \<Rightarrow> int \<Rightarrow> Duration \<Rightarrow> ('w \<Rightarrow> Time) \<Rightarrow> 'w Limiter" where
  "NewLimiter store name limit window now =
     \<lparr>l_store = store, l_name = name, l_limit = limit, l_window = window, l_now = now\<rparr>"

text \<open>The key of \<^verbatim>\<open>fmt.Sprintf("%s%s:%s:%d", ...)\<close>.\<close>

definition limitKey :: "string \<Rightarrow> string \<Rightarrow> Time \<Rightarrow> string" where
  "limitKey name scope windowStart =
     keyPrefix @ name @ '':'' @ scope @ '':'' @ show_int (time_Unix windowStart)"

definition Allow :: "'w Limiter \<Rightarrow> string \<Rightarrow> 'w \<Rightarrow> Result \<times> 'w" where
  "Allow l scope w =
     (let now = l_now l w;
          windowStart = time_Truncate now (l_window l);
          reset = time_Sub (windowStart + l_window l) now;
          key = limitKey (l_name l) scope windowStart
      in case st_Incr (l_store l) key (l_window l) w of
           (Inl _, w1) \<Rightarrow>
             (\<lparr>r_Allowed = True, r_Limit = l_limit l, r_Remaining = l_limit l, r_Reset = reset,
               r_RetryAfter = 0\<rparr>, w1)
         | (Inr n, w1) \<Rightarrow>
             (let remaining = wrap64 (l_limit l - wrap64 n);
                  remaining = (if remaining < 0 then 0 else remaining)
              in if n > l_limit l
                 then (\<lparr>r_Allowed = False, r_Limit = l_limit l, r_Remaining = 0, r_Reset = reset,
                        r_RetryAfter = reset\<rparr>, w1)
                 else (\<lparr>r_Allowed = True, r_Limit = l_limit l, r_Remaining = remaining,
                        r_Reset = reset, r_RetryAfter = 0\<rparr>, w1)))"

definition Seconds :: "Duration \<Rightarrow> int" where
  "Seconds d =
     (if d \<le> 0 then 1
      else let secs = ceil_seconds d in if secs < 1 then 1 else secs)"

section \<open>Windows and keys\<close>

lemma Truncate_bounds:
  assumes "0 < d"
  shows "time_Truncate t d \<le> t" and "t < time_Truncate t d + d"
  using assms pos_mod_bound [of d t] pos_mod_sign [of d t] by (simp_all add: time_Truncate_def)

lemma Truncate_dvd: "0 < d \<Longrightarrow> d dvd time_Truncate t d"
  by (simp add: time_Truncate_def minus_mod_eq_mult_div)

text \<open>With a window of whole seconds, the caller and the window can be read back from the key.\<close>

lemma limitKey_inject:
  assumes "limitKey n s t = limitKey n s' t'"
  shows "s = s'" and "time_Unix t = time_Unix t'"
proof -
  have eq: "s @ '':'' @ show_int (time_Unix t) = s' @ '':'' @ show_int (time_Unix t')"
    using assms by (simp add: limitKey_def)
  have "last_index CHR '':'' (s @ CHR '':'' # show_int (time_Unix t)) = Some (length s)"
    "last_index CHR '':'' (s' @ CHR '':'' # show_int (time_Unix t')) = Some (length s')"
    by (rule last_index_append, simp)+
  then have len: "length s = length s'" using eq by simp
  then show "s = s'" using eq by simp
  with eq show "time_Unix t = time_Unix t'" by simp
qed

lemma limitKey_windows:
  assumes "0 < d" "Second dvd d"
  shows "limitKey n s (time_Truncate t d) = limitKey n s' (time_Truncate t' d) \<longleftrightarrow>
    s = s' \<and> time_Truncate t d = time_Truncate t' d"
proof
  assume eq: "limitKey n s (time_Truncate t d) = limitKey n s' (time_Truncate t' d)"
  have "Second dvd time_Truncate t d" "Second dvd time_Truncate t' d"
    using Truncate_dvd [OF assms(1)] assms(2) dvd_trans by blast+
  moreover have "time_Truncate t d div Second = time_Truncate t' d div Second"
    using limitKey_inject(2) [OF eq] by (simp add: time_Unix_def)
  ultimately show "s = s' \<and> time_Truncate t d = time_Truncate t' d"
    using limitKey_inject(1) [OF eq] by (metis dvd_mult_div_cancel)
qed simp

section \<open>The store interface\<close>

locale counter_store =
  fixes S :: "'w Store" and now :: "'w \<Rightarrow> Time" and kv :: "'w \<Rightarrow> keyspace"
  assumes Incr_now: "st_Incr S k ttl w = (i, w') \<Longrightarrow> now w' = now w"
    and Incr_other: "st_Incr S k ttl w = (i, w') \<Longrightarrow> k' \<noteq> k \<Longrightarrow> kv w' k' = kv w k'"
    and Incr_fresh: "st_Incr S k ttl w = (Inr n, w') \<Longrightarrow> Millisecond \<le> ttl \<Longrightarrow> kv w k = None \<Longrightarrow>
        n = 1 \<and> kv w' k = Some (VCtr 1, Some (now w + px ttl))"
    and Incr_next: "st_Incr S k ttl w = (Inr n, w') \<Longrightarrow> 0 < ttl \<Longrightarrow> kv w k = Some (VCtr m, dl) \<Longrightarrow>
        1 \<le> m \<Longrightarrow> n = m + 1 \<and> kv w' k = Some (VCtr (m + 1), dl)"

locale steady_counter_store = counter_store +
  assumes Incr_total: "kv w k = None \<or> (\<exists>n d. kv w k = Some (VCtr n, d) \<and> n + 1 < 2 ^ 63) \<Longrightarrow> 0 < ttl \<Longrightarrow>
        \<exists>n. fst (st_Incr S k ttl w) = Inr n"

definition client_Store :: "'w redis \<Rightarrow> 'w Store" where
  [wires]: "client_Store R = \<lparr>st_Incr = Client_Incr R\<rparr>"

context redis_service
begin

lemma is_counter_store: "counter_store (client_Store R) now kv"
proof (unfold_locales, goal_cases)
  case (3 k ttl w n w')
  then show ?case using Client_Incr_fresh [of k ttl w n w'] by (auto simp: wires)
next
  case (4 k ttl w n w' m dl)
  then show ?case using Client_Incr_next [of k ttl w n w' m dl] by (auto simp: wires)
qed (simp_all add: wires Client_Incr_frame)

end

sublocale redis_service \<subseteq> counter: counter_store "client_Store R" now kv
  by (rule is_counter_store)

context reliable_redis
begin

lemma is_steady_counter_store: "steady_counter_store (client_Store R) now kv"
  by unfold_locales (simp add: wires Client_Incr_total)

end

sublocale reliable_redis \<subseteq> counter: steady_counter_store "client_Store R" now kv
  by (rule is_steady_counter_store)

section \<open>The requests of one caller\<close>

text \<open>
  \<open>requests l now kv scope n w w'\<close>: the caller made \<open>n\<close> requests, with time passing in between
  and any other activity that leaves this limiter's keys for \<open>scope\<close> alone.
\<close>

inductive requests ::
    "'w Limiter \<Rightarrow> ('w \<Rightarrow> Time) \<Rightarrow> ('w \<Rightarrow> keyspace) \<Rightarrow> string \<Rightarrow> nat \<Rightarrow> 'w \<Rightarrow> 'w \<Rightarrow> bool"
  for l now kv scope where
  none: "requests l now kv scope 0 w w"
| request: "requests l now kv scope n w w1 \<Longrightarrow> Allow l scope w1 = (r, w2) \<Longrightarrow>
    requests l now kv scope (Suc n) w w2"
| waited: "requests l now kv scope n w w1 \<Longrightarrow> elapses now kv w1 w2 \<Longrightarrow> requests l now kv scope n w w2"
| others: "requests l now kv scope n w w1 \<Longrightarrow> now w2 = now w1 \<Longrightarrow>
    (\<And>t. kv w2 (limitKey (l_name l) scope t) = kv w1 (limitKey (l_name l) scope t)) \<Longrightarrow>
    requests l now kv scope n w w2"

context counter_store
begin

abbreviation Lim where "Lim name limit window \<equiv> NewLimiter S name limit window now"

lemma Lim_simps [simp]:
  "l_store (Lim nm lim d) = S" "l_name (Lim nm lim d) = nm" "l_limit (Lim nm lim d) = lim"
  "l_window (Lim nm lim d) = d" "l_now (Lim nm lim d) = now"
  by (simp_all add: NewLimiter_def)

lemma Allow_frame:
  assumes "Allow (Lim nm lim d) scope w = (r, w')"
  shows "now w' = now w"
    and "k \<noteq> limitKey nm scope (time_Truncate (now w) d) \<Longrightarrow> kv w' k = kv w k"
proof -
  let ?k = "limitKey nm scope (time_Truncate (now w) d)"
  obtain x where "st_Incr S ?k d w = (x, w')"
    using assms by (auto simp: Allow_def Let_def split: prod.splits sum.splits if_splits)
  then show "now w' = now w" and "k \<noteq> ?k \<Longrightarrow> kv w' k = kv w k"
    using Incr_now Incr_other by blast+
qed

text \<open>The time to the end of the window, as the result reports it.\<close>

lemma Allow_reset:
  assumes "Allow (Lim nm lim d) scope w = (r, w')" "0 < d" "d < 2 ^ 63"
  shows "r_Reset r = time_Truncate (now w) d + d - now w" "0 < r_Reset r" "r_Reset r \<le> d"
    and "r_RetryAfter r = (if r_Allowed r then 0 else r_Reset r)"
proof -
  note b = Truncate_bounds [OF assms(2), of "now w"]
  have s: "time_Sub (time_Truncate (now w) d + d) (now w) = time_Truncate (now w) d + d - now w"
    using b assms(3) by (intro time_Sub_id) (simp add: is_int64_def)
  show r: "r_Reset r = time_Truncate (now w) d + d - now w"
    using assms(1) by (auto simp: Allow_def Let_def s split: prod.splits sum.splits if_splits)
  then show "0 < r_Reset r" "r_Reset r \<le> d" using b by simp_all
  show "r_RetryAfter r = (if r_Allowed r then 0 else r_Reset r)"
    using assms(1) by (auto simp: Allow_def Let_def split: prod.splits sum.splits if_splits)
qed

end

context steady_counter_store
begin

lemma Allow_counts:
  assumes "Allow (Lim nm lim d) scope w = (r, w')" "Millisecond \<le> d" "1 \<le> lim" "lim < 2 ^ 63"
    and "0 \<le> m" "m + 1 < 2 ^ 63"
    and k: "k = limitKey nm scope (time_Truncate (now w) d)"
    and old: "if m = 0 then kv w k = None \<and> dl = Some (now w + px d) else kv w k = Some (VCtr m, dl)"
  shows "r_Allowed r \<longleftrightarrow> m + 1 \<le> lim" and "r_Remaining r = max 0 (lim - (m + 1))"
    and "kv w' k = Some (VCtr (m + 1), dl)"
proof -
  have d: "0 < d" using assms(2) by simp
  have "kv w k = None \<or> (\<exists>n d. kv w k = Some (VCtr n, d) \<and> n + 1 < 2 ^ 63)"
    using old assms(6) by (auto split: if_splits)
  from Incr_total [OF this d] obtain n w1 where i: "st_Incr S k d w = (Inr n, w1)"
    by (cases "st_Incr S k d w") auto
  have n: "n = m + 1" "kv w1 k = Some (VCtr (m + 1), dl)"
    using Incr_fresh [OF i assms(2)] Incr_next [OF i d, of m dl] old assms(5) by (auto split: if_splits)
  have w: "wrap64 n = n" "wrap64 (lim - n) = lim - n"
    using n assms(3-6) by (auto intro!: wrap64_id simp: is_int64_def)
  have "w' = w1" "r_Allowed r \<longleftrightarrow> n \<le> lim" "r_Remaining r = max 0 (lim - n)"
    using assms(1) i w by (auto simp: Allow_def Let_def k [symmetric] split: if_splits)
  with n show "r_Allowed r \<longleftrightarrow> m + 1 \<le> lim" and "r_Remaining r = max 0 (lim - (m + 1))"
    and "kv w' k = Some (VCtr (m + 1), dl)" by simp_all
qed

lemma requests_counter:
  assumes "requests (Lim nm lim d) now kv scope n w w'" "Second dvd d" "0 < d" "1 \<le> lim" "lim < 2 ^ 63"
    and "kv w (limitKey nm scope (time_Truncate (now w) d)) = None"
  shows "now w \<le> now w' \<and>
    (time_Truncate (now w') d = time_Truncate (now w) d \<longrightarrow> int n < 2 ^ 63 \<longrightarrow>
      (if n = 0 then kv w' (limitKey nm scope (time_Truncate (now w) d)) = None
       else \<exists>dl. kv w' (limitKey nm scope (time_Truncate (now w) d)) = Some (VCtr (int n), Some dl) \<and>
         time_Truncate (now w) d + d \<le> dl))"
  using assms(1,6)
proof (induction rule: requests.induct)
  case (request n w w1 r w2)
  let ?k = "limitKey nm scope (time_Truncate (now w) d)"
  have ms: "Millisecond \<le> d" using assms(2,3) zdvd_imp_le [of Second d] by simp
  have pxd: "px d = d" using assms(2,3) by (intro px_whole) (auto intro: dvd_trans [of _ Second])
  note f = Allow_frame(1) [OF request(2)]
  show ?case
  proof (intro conjI impI)
    show "now w \<le> now w2" using request f by simp
    assume t: "time_Truncate (now w2) d = time_Truncate (now w) d" and n: "int (Suc n) < 2 ^ 63"
    have k: "?k = limitKey nm scope (time_Truncate (now w1) d)" using t f by simp
    obtain dl where old: "if int n = 0 then kv w1 ?k = None \<and> Some dl = Some (now w1 + px d)
        else kv w1 ?k = Some (VCtr (int n), Some dl)" and le: "time_Truncate (now w) d + d \<le> dl"
    proof (cases "n = 0")
      case True
      then show thesis
        using that [of "now w1 + d"] request t n f pxd Truncate_bounds(1) [OF assms(3), of "now w1"] by auto
    next
      case False
      then show thesis using that request t n f by auto
    qed
    show "if Suc n = 0 then kv w2 ?k = None
        else \<exists>dl. kv w2 ?k = Some (VCtr (int (Suc n)), Some dl) \<and> time_Truncate (now w) d + d \<le> dl"
      using Allow_counts(3) [OF request(2) ms assms(4,5) _ _ k old] n le by (auto simp: add.commute)
  qed
next
  case (waited n w w1 w2)
  have t1: "time_Truncate (now w1) d = time_Truncate (now w) d"
    if "time_Truncate (now w2) d = time_Truncate (now w) d"
  proof -
    have "now w \<le> now w1" "now w1 \<le> now w2" using waited by (auto simp: elapses_def)
    then have "now w div d \<le> now w1 div d" "now w1 div d \<le> now w2 div d"
      using assms(3) zdiv_mono1 by blast+
    moreover have "time_Truncate t d = d * (t div d)" for t
      using assms(3) by (simp add: time_Truncate_def minus_mod_eq_mult_div)
    ultimately show ?thesis using that assms(3) by simp
  qed
  have "now w2 < time_Truncate (now w) d + d" if "time_Truncate (now w2) d = time_Truncate (now w) d"
    using Truncate_bounds(2) [OF assms(3), of "now w2"] that by simp
  with waited t1 show ?case by (auto simp: elapses_def live_at_def split: if_splits)
qed (auto simp: assms)

lemma requests_admitted:
  assumes "1 \<le> lim" "lim < 2 ^ 63" and "Second dvd d" "0 < d" "d < 2 ^ 63"
    and "requests (Lim nm lim d) now kv scope n w w1"
    and "kv w (limitKey nm scope (time_Truncate (now w) d)) = None"
    and "time_Truncate (now w1) d = time_Truncate (now w) d" and "int n + 1 < 2 ^ 63"
    and "Allow (Lim nm lim d) scope w1 = (r, w2)"
  shows "(r_Allowed r \<longleftrightarrow> int n + 1 \<le> lim) \<and> r_Remaining r = max 0 (lim - (int n + 1)) \<and>
    r_Reset r = time_Truncate (now w) d + d - now w1 \<and> 0 < r_Reset r \<and>
    r_RetryAfter r = (if r_Allowed r then 0 else r_Reset r)"
proof -
  have ms: "Millisecond \<le> d" using assms(3,4) zdvd_imp_le [of Second d] by simp
  have "\<exists>dl. if int n = 0 then kv w1 (limitKey nm scope (time_Truncate (now w1) d)) = None \<and> dl = Some (now w1 + px d)
      else kv w1 (limitKey nm scope (time_Truncate (now w1) d)) = Some (VCtr (int n), dl)"
    using requests_counter [OF assms(6,3,4,1,2,7)] assms(8,9) by (cases "n = 0") auto
  then obtain dl where "if int n = 0 then kv w1 (limitKey nm scope (time_Truncate (now w1) d)) = None \<and> dl = Some (now w1 + px d)
      else kv w1 (limitKey nm scope (time_Truncate (now w1) d)) = Some (VCtr (int n), dl)" ..
  from Allow_counts(1,2) [OF assms(10) ms assms(1,2) _ assms(9) refl this]
  show ?thesis using Allow_reset [OF assms(10,4,5)] assms(8) by simp
qed

end

section \<open>Properties\<close>

abbreviation redis_Limiter :: "'w redis \<Rightarrow> ('w \<Rightarrow> Time) \<Rightarrow> string \<Rightarrow> int \<Rightarrow> Duration \<Rightarrow> 'w Limiter" where
  "redis_Limiter R now name limit window \<equiv> NewLimiter (client_Store R) name limit window now"

text \<open>
  C15: the limiter admits exactly the configured number of requests. Of the requests of one caller
  within one window of whole seconds, whatever other callers do in between, the one that follows
  \<open>n\<close> others is allowed if and only if \<open>n + 1\<close> is within the limit; the response reports what is
  then left, never a negative number, and the time to the end of the window, which is also the
  retry hint of a rejected request.
\<close>

theorem limiter_admits_exactly_limit:
  assumes "reliable_redis R now kv"
    and "1 \<le> limit" "limit < 2 ^ 63" and "Second dvd window" "0 < window" "window < 2 ^ 63"
    and "requests (redis_Limiter R now name limit window) now kv scope n w w1"
    and "kv w (limitKey name scope (time_Truncate (now w) window)) = None"
    and "time_Truncate (now w1) window = time_Truncate (now w) window" and "int n + 1 < 2 ^ 63"
    and "Allow (redis_Limiter R now name limit window) scope w1 = (r, w2)"
  shows "(r_Allowed r \<longleftrightarrow> int n + 1 \<le> limit) \<and> r_Remaining r = max 0 (limit - (int n + 1)) \<and>
    r_Reset r = time_Truncate (now w) window + window - now w1 \<and> 0 < r_Reset r \<and>
    r_RetryAfter r = (if r_Allowed r then 0 else r_Reset r)"
  using steady_counter_store.requests_admitted [OF reliable_redis.is_steady_counter_store [OF assms(1)] assms(2-11)] .

definition mem_limiter :: "seeded Limiter" where
  "mem_limiter = redis_Limiter mem_redis mem_now ''demo'' 1 (10 * Second)"

theorem limiter_admits_exactly_limit_witness:
  "r_Allowed (fst (Allow mem_limiter ''::1'' mem_start)) \<and>
   \<not> r_Allowed (fst (Allow mem_limiter ''::1'' (snd (Allow mem_limiter ''::1'' mem_start))))"
proof -
  define w1 where "w1 = snd (Allow mem_limiter ''::1'' mem_start)"
  have run: "requests mem_limiter mem_now mem_kv ''::1'' (Suc 0) mem_start w1"
    unfolding w1_def by (rule requests.request [OF requests.none prod.collapse [symmetric]])
  have t: "mem_now w1 = 0"
    unfolding w1_def mem_limiter_def by (subst mem.counter.Allow_frame(1) [OF prod.collapse [symmetric]]) simp
  have k: "mem_kv mem_start x = None" for x by simp
  have 0: "requests mem_limiter mem_now mem_kv ''::1'' 0 mem_start mem_start" by (rule requests.none)
  have "r_Allowed (fst (Allow mem_limiter ''::1'' mem_start)) \<longleftrightarrow> int 0 + 1 \<le> 1"
    using limiter_admits_exactly_limit [OF mem.reliable_redis_axioms _ _ _ _ _
      0 [unfolded mem_limiter_def] k refl _ prod.collapse [symmetric], folded mem_limiter_def] by simp
  moreover have "r_Allowed (fst (Allow mem_limiter ''::1'' w1)) \<longleftrightarrow> int (Suc 0) + 1 \<le> 1"
    using limiter_admits_exactly_limit [OF mem.reliable_redis_axioms _ _ _ _ _
      run [unfolded mem_limiter_def] k _ _ prod.collapse [symmetric], folded mem_limiter_def] t by simp
  ultimately show ?thesis by (simp add: w1_def)
qed

text \<open>
  Callers do not consume each other's allowance, and windows do not share a counter. With a
  window of whole seconds a request of one caller leaves every other key as it was: the counters
  of the other callers, even when their names contain colons as IPv6 addresses do, and the
  counters of the other windows.
\<close>

theorem limiter_scopes_are_independent:
  assumes "redis_service R now kv" and "Second dvd window" "0 < window"
    and "Allow (redis_Limiter R now name limit window) scope w = (r, w')"
    and "scope' \<noteq> scope \<or> time_Truncate t window \<noteq> time_Truncate (now w) window"
  shows "kv w' (limitKey name scope' (time_Truncate t window)) =
    kv w (limitKey name scope' (time_Truncate t window))"
  using counter_store.Allow_frame(2) [OF redis_service.is_counter_store [OF assms(1)] assms(4)]
    limitKey_windows [OF assms(3,2), of name scope' t scope "now w"] assms(5) by blast

theorem limiter_scopes_are_independent_witness:
  "mem_kv (snd (Allow mem_limiter ''::1'' mem_start)) (limitKey ''demo'' '':'' (time_Truncate 5 (10 * Second))) = None"
  using limiter_scopes_are_independent [OF mem.redis_service_axioms _ _ prod.collapse [symmetric],
      of "10 * Second" "'':''" "''::1''" 5 mem_start "''demo''" 1, folded mem_limiter_def]
  by simp

text \<open>
  C33: a window shorter than a millisecond disables the limiter, although the configuration accepts
  it. The expiry handed to Redis is the window in whole milliseconds, which is zero, and an expiry
  of zero deletes the counter: every request is the first of its window and is allowed.
\<close>

theorem sub_millisecond_window_never_limits:
  assumes "reliable_redis R now kv" and "1 \<le> limit" "limit < 2 ^ 63" and "0 < window" "window < Millisecond"
    and "kv w (limitKey name scope (time_Truncate (now w) window)) = None"
    and "Allow (redis_Limiter R now name limit window) scope w = (r, w')"
  shows "r_Allowed r \<and> kv w' = kv w"
proof -
  let ?k = "limitKey name scope (time_Truncate (now w) window)"
  have svc: "redis_service R now kv" using assms(1) by (simp add: reliable_redis_def)
  obtain n w1 where i: "Client_Incr R ?k window w = (Inr n, w1)"
    using reliable_redis.Client_Incr_total [OF assms(1) _ assms(4), of w ?k] assms(6)
    by (cases "Client_Incr R ?k window w") auto
  note fr = redis_service.Client_Incr_fresh [OF svc i assms(4,6)]
  have w': "w' = w1" "r_Allowed r \<longleftrightarrow> n \<le> limit"
    using assms(7) i by (auto simp: Allow_def NewLimiter_def wires Let_def split: if_splits)
  have "kv w1 k = kv w k" for k
    using redis_service.Client_Incr_frame(2) [OF svc i, of k] fr(3) [OF assms(5)] assms(6)
    by (cases "k = ?k") auto
  with w' fr(1) assms(2) show ?thesis by auto
qed

theorem sub_millisecond_window_never_limits_witness:
  "r_Allowed (fst (Allow (redis_Limiter mem_redis mem_now ''demo'' 1 1000) ''::1'' mem_start))"
  using sub_millisecond_window_never_limits [OF mem.reliable_redis_axioms _ _ _ _ _ prod.collapse [symmetric],
      of 1 1000 mem_start "''demo''" "''::1''"] by simp

end
