(* ===== verification/Api_Server.thy ===== *)
theory Api_Server
  imports Api_Responses Proxy Auth_Lockout Auth_Recovery RateLimit Store_Transfer
begin

text \<open>
  \<^verbatim>\<open>internal/httpapi/server.go\<close> and \<^verbatim>\<open>checks.go\<close>: the interfaces the handlers use, the server and its
  options, and the probes.

  The record \<open>'w pkgs\<close> holds the packages that are not part of the repository: those of
  \<^verbatim>\<open>internal/auth\<close> (\<open>'w env\<close>), \<^verbatim>\<open>google/uuid\<close>, and the error of the JSON encoder. Logging is left
  out. A Go interface that may be nil is an \<open>option\<close>; calling a nil one panics, which chi's
  \<^verbatim>\<open>Recoverer\<close> turns into a 500 as it does with a returned error, so it is an error here.
\<close>

section \<open>Packages and interfaces\<close>

record 'w pkgs =
  pk_env :: "'w env"
  uuid_Parse :: "string \<Rightarrow> uuid res"
  uuid_String :: "uuid \<Rightarrow> string"
  uuid_New :: "'w \<Rightarrow> uuid \<times> 'w"
  json_encode :: "Body \<Rightarrow> goerr option"

type_synonym 'w Check = "'w \<Rightarrow> DependencyCheck \<times> 'w"

record BuildInfo =
  bi_Service :: string
  bi_Version :: string
  bi_GitSHA :: string
  bi_BuildTime :: Time
  bi_GoVersion :: string

record 'w userStore =
  us_RegisterUser :: "NewUser \<Rightarrow> ('w, User) act"
  us_UserByUsername :: "string \<Rightarrow> ('w, UserWithHash) act"
  us_UserByID :: "string \<Rightarrow> ('w, UserWithHash) act"
  us_UpdatePassword :: "string \<Rightarrow> string \<Rightarrow> ('w, unit) act"
  us_ListUsers :: "('w, Store.AdminUser list) act"
  us_ListAllAccounts :: "('w, Store.AdminAccount list) act"
  us_ListTransfers :: "('w, Store.AdminTransfer list) act"
  us_Transfer :: "TransferParams \<Rightarrow> ('w, Store_Transfer.TransferResult) act"

record 'w rateLimiter =
  lim_Allow :: "string \<Rightarrow> 'w \<Rightarrow> Result \<times> 'w"

record AuthSettings =
  st_BcryptCost :: int
  st_SessionCookieName :: string
  st_CSRFCookieName :: string
  st_SessionAbsoluteTTL :: Duration

text \<open>A file tree of the embedded consoles: the contents under a path.\<close>

type_synonym fs = "string \<rightharpoonup> string"

record 'w Server =
  sv_build :: BuildInfo
  sv_spaFS :: "fs option"
  sv_spaIndex :: string
  sv_docsSpec :: "string option"
  sv_swaggerFS :: "fs option"
  sv_redocFS :: "fs option"
  sv_readyChecks :: "(string \<times> 'w Check) list"
  sv_startupChecks :: "(string \<times> 'w Check) list"
  sv_requestTimeout :: Duration
  sv_trustedProxies :: "Prefix list"
  sv_users :: "'w userStore option"
  sv_sessions :: "'w Manager option"
  sv_authSettings :: AuthSettings
  sv_recovery :: "'w Recovery option"
  sv_lockout :: "'w Lockout option"
  sv_ratelimiter :: "'w rateLimiter option"

definition nil_panic :: goerr where
  "nil_panic = Leaf (OtherErr ''invalid memory address or nil pointer dereference'')"

definition with_users :: "'w Server \<Rightarrow> ('w userStore \<Rightarrow> ('w, 'a) act) \<Rightarrow> ('w, 'a) act" where
  "with_users s f w = (case sv_users s of None \<Rightarrow> (Inl nil_panic, w) | Some u \<Rightarrow> f u w)"

definition with_sessions :: "'w Server \<Rightarrow> ('w Manager \<Rightarrow> ('w, 'a) act) \<Rightarrow> ('w, 'a) act" where
  "with_sessions s f w = (case sv_sessions s of None \<Rightarrow> (Inl nil_panic, w) | Some m \<Rightarrow> f m w)"

text \<open>\<^verbatim>\<open>*store.Store\<close> as a \<^verbatim>\<open>userStore\<close>, and \<^verbatim>\<open>*ratelimit.Limiter\<close> as a \<^verbatim>\<open>rateLimiter\<close>.\<close>

definition store_userStore :: "'w pg \<Rightarrow> 'w rt \<Rightarrow> 'w userStore" where
  "store_userStore P T =
     \<lparr>us_RegisterUser = RegisterUser P, us_UserByUsername = UserByUsername P, us_UserByID = UserByID P,
      us_UpdatePassword = UpdatePassword P, us_ListUsers = ListUsers P,
      us_ListAllAccounts = ListAllAccounts_admin P, us_ListTransfers = ListTransfers P,
      us_Transfer = Transfer P T\<rparr>"

definition limiter_rateLimiter :: "'w Limiter \<Rightarrow> 'w rateLimiter" where
  "limiter_rateLimiter l = \<lparr>lim_Allow = Allow l\<rparr>"

section \<open>Options\<close>

type_synonym 'w Option = "'w Server \<Rightarrow> 'w Server"

text \<open>A map from names to checks, as the list of its entries: \<^verbatim>\<open>m[name] = c\<close>.\<close>

definition set_check :: "string \<Rightarrow> 'w Check \<Rightarrow> (string \<times> 'w Check) list \<Rightarrow> (string \<times> 'w Check) list" where
  "set_check name c m = filter (\<lambda>(n, _). n \<noteq> name) m @ [(name, c)]"

definition WithBuildInfo :: "BuildInfo \<Rightarrow> 'w Option" where
  "WithBuildInfo b s = s\<lparr>sv_build := b\<rparr>"

definition WithSPA :: "fs \<Rightarrow> string \<Rightarrow> 'w Option" where
  "WithSPA distFS indexHTML s = s\<lparr>sv_spaFS := Some distFS, sv_spaIndex := indexHTML\<rparr>"

definition WithDocs :: "string \<Rightarrow> fs \<Rightarrow> fs \<Rightarrow> 'w Option" where
  "WithDocs spec swaggerFS redocFS s =
     s\<lparr>sv_docsSpec := Some spec, sv_swaggerFS := Some swaggerFS, sv_redocFS := Some redocFS\<rparr>"

definition WithReadinessCheck :: "string \<Rightarrow> 'w Check \<Rightarrow> 'w Option" where
  "WithReadinessCheck name c s = s\<lparr>sv_readyChecks := set_check name c (sv_readyChecks s)\<rparr>"

definition WithStartupCheck :: "string \<Rightarrow> 'w Check \<Rightarrow> 'w Option" where
  "WithStartupCheck name c s = s\<lparr>sv_startupChecks := set_check name c (sv_startupChecks s)\<rparr>"

definition WithRequestTimeout :: "Duration \<Rightarrow> 'w Option" where
  "WithRequestTimeout d s = s\<lparr>sv_requestTimeout := d\<rparr>"

definition WithTrustedProxies :: "Prefix list \<Rightarrow> 'w Option" where
  "WithTrustedProxies trusted s = s\<lparr>sv_trustedProxies := trusted\<rparr>"

definition WithAuth :: "'w userStore \<Rightarrow> 'w Manager \<Rightarrow> AuthSettings \<Rightarrow> 'w Option" where
  "WithAuth ustore sessions settings s =
     s\<lparr>sv_users := Some ustore, sv_sessions := Some sessions, sv_authSettings := settings\<rparr>"

definition WithPasswordRecovery :: "'w Recovery \<Rightarrow> 'w Option" where
  "WithPasswordRecovery recovery s = s\<lparr>sv_recovery := Some recovery\<rparr>"

definition WithLoginLockout :: "'w Lockout \<Rightarrow> 'w Option" where
  "WithLoginLockout lockout s = s\<lparr>sv_lockout := Some lockout\<rparr>"

definition WithRateLimiter :: "'w rateLimiter \<Rightarrow> 'w Option" where
  "WithRateLimiter limiter s = s\<lparr>sv_ratelimiter := Some limiter\<rparr>"

text \<open>\<^verbatim>\<open>NewServer\<close>; \<open>goVersion\<close> is \<^verbatim>\<open>runtime.Version()\<close>.\<close>

definition zero_Server :: "'w Server" where
  "zero_Server = \<lparr>sv_build = \<lparr>bi_Service = [], bi_Version = [], bi_GitSHA = [], bi_BuildTime = 0, bi_GoVersion = []\<rparr>,
     sv_spaFS = None, sv_spaIndex = [], sv_docsSpec = None, sv_swaggerFS = None, sv_redocFS = None,
     sv_readyChecks = [], sv_startupChecks = [], sv_requestTimeout = 0, sv_trustedProxies = [],
     sv_users = None, sv_sessions = None,
     sv_authSettings = \<lparr>st_BcryptCost = 0, st_SessionCookieName = [], st_CSRFCookieName = [], st_SessionAbsoluteTTL = 0\<rparr>,
     sv_recovery = None, sv_lockout = None, sv_ratelimiter = None\<rparr>"

definition NewServer :: "string \<Rightarrow> 'w Option list \<Rightarrow> 'w Server" where
  "NewServer goVersion opts =
     (let s = foldl (\<lambda>s opt. opt s) zero_Server opts
      in if bi_GoVersion (sv_build s) = [] then s\<lparr>sv_build := (sv_build s)\<lparr>bi_GoVersion := goVersion\<rparr>\<rparr> else s)"

section \<open>Probes\<close>

definition pingFailedMessage :: string where
  "pingFailedMessage = ''dependency unavailable''"

text \<open>
  \<^verbatim>\<open>PingCheck\<close>. The deadline is handed to the pinger, which decides what it does with it: \<open>ping\<close>
  takes the timeout, \<open>None\<close> for none.
\<close>

definition PingCheck :: "(Duration option \<Rightarrow> ('w, unit) act) \<Rightarrow> Duration \<Rightarrow> 'w Check" where
  "PingCheck ping timeout w =
     (case ping (if timeout > 0 then Some timeout else None) w of
        (Inl err, w1) \<Rightarrow> (\<lparr>DependencyCheck_Message = Some pingFailedMessage, DependencyCheck_Status = DependencyCheckStatusError\<rparr>, w1)
      | (Inr _, w1) \<Rightarrow> (\<lparr>DependencyCheck_Message = None, DependencyCheck_Status = DependencyCheckStatusOk\<rparr>, w1))"

text \<open>
  The loop of \<^verbatim>\<open>runChecks\<close>, over the entries in the order in which the run visits them (Go leaves
  the order of a map open).
\<close>

fun runChecks_loop ::
    "(string \<times> 'w Check) list \<Rightarrow> (string \<rightharpoonup> DependencyCheck) \<Rightarrow> bool \<Rightarrow> 'w \<Rightarrow>
     ((string \<rightharpoonup> DependencyCheck) \<times> bool) \<times> 'w" where
  "runChecks_loop [] results healthy w = ((results, healthy), w)"
| "runChecks_loop ((name, check) # cs) results healthy w =
     (case check w of
        (result, w1) \<Rightarrow>
          runChecks_loop cs (results(name \<mapsto> result))
            (if DependencyCheck_Status result = DependencyCheckStatusError then False else healthy) w1)"

definition runChecks :: "(string \<times> 'w Check) list \<Rightarrow> 'w \<Rightarrow> ((string \<rightharpoonup> DependencyCheck) \<times> bool) \<times> 'w" where
  "runChecks checks w = runChecks_loop checks Map.empty True w"

definition GetLivez :: "('w, GetLivezResponseObject) act" where
  "GetLivez w = (Inr (GetLivez200JSONResponse \<lparr>LivezResponse_Status = LivezResponseStatusOk\<rparr>), w)"

definition GetReadyz :: "'w Server \<Rightarrow> ('w, GetReadyzResponseObject) act" where
  "GetReadyz s w =
     (case runChecks (sv_readyChecks s) w of
        ((checks, healthy), w1) \<Rightarrow>
          if \<not> healthy
          then (Inr (GetReadyz503JSONResponse \<lparr>ReadyzResponse_Checks = checks, ReadyzResponse_Status = NotReady\<rparr>), w1)
          else (Inr (GetReadyz200JSONResponse \<lparr>ReadyzResponse_Checks = checks, ReadyzResponse_Status = Ready\<rparr>), w1))"

definition GetStartupz :: "'w Server \<Rightarrow> ('w, GetStartupzResponseObject) act" where
  "GetStartupz s w =
     (case runChecks (sv_startupChecks s) w of
        ((checks, healthy), w1) \<Rightarrow>
          if \<not> healthy
          then (Inr (GetStartupz503JSONResponse \<lparr>StartupzResponse_Checks = checks, StartupzResponse_Status = Starting\<rparr>), w1)
          else (Inr (GetStartupz200JSONResponse \<lparr>StartupzResponse_Checks = checks, StartupzResponse_Status = Started\<rparr>), w1))"

definition GetVersion :: "'w Server \<Rightarrow> ('w, GetVersionResponseObject) act" where
  "GetVersion s w =
     (Inr (GetVersion200JSONResponse
        \<lparr>VersionResponse_BuildTime = bi_BuildTime (sv_build s), VersionResponse_GitSha = bi_GitSHA (sv_build s),
         VersionResponse_GoVersion = bi_GoVersion (sv_build s), VersionResponse_Service = bi_Service (sv_build s),
         VersionResponse_Version = bi_Version (sv_build s)\<rparr>), w)"

section \<open>Facts about the probes\<close>

text \<open>The results of a run, one for each check in the order of the run.\<close>

fun check_results :: "(string \<times> 'w Check) list \<Rightarrow> 'w \<Rightarrow> (string \<times> DependencyCheck) list \<times> 'w" where
  "check_results [] w = ([], w)"
| "check_results ((name, check) # cs) w =
     (case check w of (r, w1) \<Rightarrow> (case check_results cs w1 of (rs, w2) \<Rightarrow> ((name, r) # rs, w2)))"

abbreviation failed :: "string \<times> DependencyCheck \<Rightarrow> bool" where
  "failed \<equiv> \<lambda>(_, r). DependencyCheck_Status r = DependencyCheckStatusError"

lemma check_results_names: "map fst (fst (check_results cs w)) = map fst cs"
  by (induction cs w rule: check_results.induct) (auto split: prod.splits)

lemma runChecks_loop_results:
  "distinct (map fst cs) \<Longrightarrow> dom results \<inter> fst ` set cs = {} \<Longrightarrow>
   runChecks_loop cs results healthy w =
     ((results ++ map_of (fst (check_results cs w)), healthy \<and> \<not> list_ex failed (fst (check_results cs w))),
      snd (check_results cs w))"
proof (induction cs results healthy w rule: runChecks_loop.induct)
  case (2 name check cs results healthy w)
  obtain r w1 where c: "check w = (r, w1)" by fastforce
  have "name \<notin> dom (map_of (fst (check_results cs w1)))"
    using 2(2) check_results_names [of cs w1] by (auto simp: dom_map_of_conv_image_fst simp flip: set_map)
  then have "results(name \<mapsto> r) ++ map_of (fst (check_results cs w1)) =
      results ++ (map_of (fst (check_results cs w1)))(name \<mapsto> r)"
    by (simp add: map_add_upd_left)
  moreover have "dom (results(name \<mapsto> r)) \<inter> fst ` set cs = {}" "distinct (map fst cs)"
    using 2(2,3) by auto
  ultimately show ?case using 2(1) [OF c [symmetric]] c by (simp add: split_beta del: fun_upd_apply)
qed simp

lemma runChecks_results:
  assumes "distinct (map fst cs)"
  shows "runChecks cs w =
    ((map_of (fst (check_results cs w)), \<not> list_ex failed (fst (check_results cs w))), snd (check_results cs w))"
  using runChecks_loop_results [OF assms, of Map.empty True w] by (simp add: runChecks_def)

lemma set_check_distinct: "distinct (map fst m) \<Longrightarrow> distinct (map fst (set_check name c m))"
  by (auto simp: set_check_def distinct_map inj_on_def)

text \<open>
  C37: the readiness probe runs every registered check exactly once, in whatever order, reports
  the result of each under its name, and answers 503 exactly when one of them reports an error; a
  skipped check does not make the service unready.
\<close>

theorem readyz_reports_every_check:
  assumes "distinct (map fst (sv_readyChecks s))" and "check_results (sv_readyChecks s) w = (rs, w')"
  shows "GetReadyz s w =
      (Inr (if list_ex failed rs
            then GetReadyz503JSONResponse \<lparr>ReadyzResponse_Checks = map_of rs, ReadyzResponse_Status = ''not_ready''\<rparr>
            else GetReadyz200JSONResponse \<lparr>ReadyzResponse_Checks = map_of rs, ReadyzResponse_Status = ''ready''\<rparr>), w') \<and>
    map fst rs = map fst (sv_readyChecks s)"
  using runChecks_results [OF assms(1), of w] check_results_names [of "sv_readyChecks s" w] assms(2)
  by (auto simp: GetReadyz_def NotReady_def Ready_def)

definition example_probes :: "nat Server" where
  "example_probes = NewServer ''go1.26''
     [WithReadinessCheck ''postgres'' (PingCheck (\<lambda>t w. (Inr (), w + 1)) (2 * Second)),
      WithReadinessCheck ''redis'' (PingCheck (\<lambda>t w. (Inl (Leaf (OtherErr ''dial tcp 10.0.0.5:6379: refused'')), w + 1)) (2 * Second))]"

theorem readyz_reports_every_check_witness:
  "snd (GetReadyz example_probes 0) = 2 \<and>
   (\<exists>body. fst (GetReadyz example_probes 0) = Inr (GetReadyz503JSONResponse body) \<and>
     map_option DependencyCheck_Message (ReadyzResponse_Checks body ''redis'') = Some (Some ''dependency unavailable'') \<and>
     map_option DependencyCheck_Status (ReadyzResponse_Checks body ''postgres'') = Some ''ok'')"
proof -
  let ?rs = "[(''postgres'', \<lparr>DependencyCheck_Message = None, DependencyCheck_Status = DependencyCheckStatusOk\<rparr>),
     (''redis'', \<lparr>DependencyCheck_Message = Some pingFailedMessage, DependencyCheck_Status = DependencyCheckStatusError\<rparr>)]"
  have "sv_readyChecks example_probes =
      [(''postgres'', PingCheck (\<lambda>t w. (Inr (), w + 1)) (2 * Second)),
       (''redis'', PingCheck (\<lambda>t w. (Inl (Leaf (OtherErr ''dial tcp 10.0.0.5:6379: refused'')), w + 1)) (2 * Second))]"
    by (simp add: example_probes_def NewServer_def WithReadinessCheck_def set_check_def zero_Server_def)
  then have "distinct (map fst (sv_readyChecks example_probes))" "check_results (sv_readyChecks example_probes) 0 = (?rs, 2)"
    by (simp_all add: PingCheck_def)
  then show ?thesis
    using readyz_reports_every_check [of example_probes 0 ?rs 2]
    by (simp add: DependencyCheckStatusOk_def DependencyCheckStatusError_def pingFailedMessage_def)
qed

end
