(* ===== verification/Api_Inspect.thy ===== *)
theory Api_Inspect
  imports Api_Server
begin

text \<open>
  The diagnostic endpoints: \<^verbatim>\<open>inspect.go\<close>, \<^verbatim>\<open>status.go\<close>, \<^verbatim>\<open>delay.go\<close> and \<^verbatim>\<open>ratelimit.go\<close> of
  \<^verbatim>\<open>internal/httpapi\<close>.

  A \<^verbatim>\<open>float64\<close> is a rational number, an infinity or not a number. The product with a constant and
  the conversion to a duration (which Go leaves to the machine when the value does not fit) are the
  parameter \<open>toDuration\<close>.
\<close>

section \<open>inspect.go\<close>

definition maxEchoBodyBytes :: int where
  "maxEchoBodyBytes = push_bit 10 64"

definition echoBodyTooLargeMessage :: string where
  "echoBodyTooLargeMessage = ''request body exceeds the maximum echo size of '' @ show_int maxEchoBodyBytes @ '' bytes''"

definition headerMap :: "Request option \<Rightarrow> HeaderMap" where
  "headerMap ro = (case ro of None \<Rightarrow> Map.empty | Some r \<Rightarrow> (\<lambda>name. Header r name))"

definition GetUuid :: "'w pkgs \<Rightarrow> ('w, GetUuidResponseObject) act" where
  "GetUuid K w = (case uuid_New K w of (u, w1) \<Rightarrow> (Inr (GetUuid200JSONResponse \<lparr>UuidResponse_Uuid = u\<rparr>), w1))"

definition GetIp :: "Ctx \<Rightarrow> ('w, GetIpResponseObject) act" where
  "GetIp ctx w = (Inr (GetIp200JSONResponse \<lparr>IpResponse_Origin = originIP (requestFrom ctx)\<rparr>), w)"

definition GetHeaders :: "Ctx \<Rightarrow> ('w, GetHeadersResponseObject) act" where
  "GetHeaders ctx w = (Inr (GetHeaders200JSONResponse \<lparr>HeadersResponse_Headers = headerMap (requestFrom ctx)\<rparr>), w)"

definition GetUserAgent :: "Ctx \<Rightarrow> ('w, GetUserAgentResponseObject) act" where
  "GetUserAgent ctx w =
     (let ua = (case requestFrom ctx of Some r \<Rightarrow> UserAgent r | None \<Rightarrow> [])
      in (Inr (GetUserAgent200JSONResponse \<lparr>UserAgentResponse_UserAgent = ua\<rparr>), w))"

definition GetScheme :: "Ctx \<Rightarrow> ('w, GetSchemeResponseObject) act" where
  "GetScheme ctx w = (Inr (GetScheme200JSONResponse \<lparr>SchemeResponse_Scheme = requestScheme (requestFrom ctx)\<rparr>), w)"

definition echoResponse :: "Ctx \<Rightarrow> string option \<Rightarrow> EchoResponse" where
  "echoResponse ctx body =
     (let resp = \<lparr>EchoResponse_Body = body, EchoResponse_Headers = Map.empty, EchoResponse_Method = [],
                  EchoResponse_Origin = [], EchoResponse_Path = [], EchoResponse_Query = Map.empty,
                  EchoResponse_Scheme = EchoResponseSchemeHttp\<rparr>
      in case requestFrom ctx of
           None \<Rightarrow> resp
         | Some r \<Rightarrow> resp\<lparr>EchoResponse_Method := Method r, EchoResponse_Path := URL_Path r,
                         EchoResponse_Query := URL_Query r, EchoResponse_Headers := headerMap (Some r),
                         EchoResponse_Origin := originIP (Some r), EchoResponse_Scheme := requestScheme (Some r)\<rparr>)"

definition echoWithBody :: "Ctx \<Rightarrow> string option \<Rightarrow> EchoResponse option" where
  "echoWithBody ctx body =
     (if (case body of Some b \<Rightarrow> int (length b) > maxEchoBodyBytes | None \<Rightarrow> False) then None
      else Some (echoResponse ctx body))"

definition GetEcho :: "Ctx \<Rightarrow> ('w, GetEchoResponseObject) act" where
  "GetEcho ctx w = (Inr (GetEcho200JSONResponse (echoResponse ctx None)), w)"

definition PostEcho :: "Ctx \<Rightarrow> string option \<Rightarrow> ('w, PostEchoResponseObject) act" where
  "PostEcho ctx body w =
     (case echoWithBody ctx body of
        None \<Rightarrow> (Inr (PostEcho413JSONResponse \<lparr>ErrorResponse_Error = echoBodyTooLargeMessage\<rparr>), w)
      | Some resp \<Rightarrow> (Inr (PostEcho200JSONResponse resp), w))"

definition PutEcho :: "Ctx \<Rightarrow> string option \<Rightarrow> ('w, PutEchoResponseObject) act" where
  "PutEcho ctx body w =
     (case echoWithBody ctx body of
        None \<Rightarrow> (Inr (PutEcho413JSONResponse \<lparr>ErrorResponse_Error = echoBodyTooLargeMessage\<rparr>), w)
      | Some resp \<Rightarrow> (Inr (PutEcho200JSONResponse resp), w))"

definition PatchEcho :: "Ctx \<Rightarrow> string option \<Rightarrow> ('w, PatchEchoResponseObject) act" where
  "PatchEcho ctx body w =
     (case echoWithBody ctx body of
        None \<Rightarrow> (Inr (PatchEcho413JSONResponse \<lparr>ErrorResponse_Error = echoBodyTooLargeMessage\<rparr>), w)
      | Some resp \<Rightarrow> (Inr (PatchEcho200JSONResponse resp), w))"

definition DeleteEcho :: "Ctx \<Rightarrow> string option \<Rightarrow> ('w, DeleteEchoResponseObject) act" where
  "DeleteEcho ctx body w =
     (case echoWithBody ctx body of
        None \<Rightarrow> (Inr (DeleteEcho413JSONResponse \<lparr>ErrorResponse_Error = echoBodyTooLargeMessage\<rparr>), w)
      | Some resp \<Rightarrow> (Inr (DeleteEcho200JSONResponse resp), w))"

section \<open>status.go\<close>

text \<open>\<^verbatim>\<open>http.StatusText\<close>.\<close>

definition status_texts :: "(int \<times> string) list" where
  "status_texts =
     [(100, ''Continue''), (101, ''Switching Protocols''), (102, ''Processing''), (103, ''Early Hints''),
      (200, ''OK''), (201, ''Created''), (202, ''Accepted''), (203, ''Non-Authoritative Information''),
      (204, ''No Content''), (205, ''Reset Content''), (206, ''Partial Content''), (207, ''Multi-Status''),
      (208, ''Already Reported''), (226, ''IM Used''),
      (300, ''Multiple Choices''), (301, ''Moved Permanently''), (302, ''Found''), (303, ''See Other''),
      (304, ''Not Modified''), (305, ''Use Proxy''), (307, ''Temporary Redirect''), (308, ''Permanent Redirect''),
      (400, ''Bad Request''), (401, ''Unauthorized''), (402, ''Payment Required''), (403, ''Forbidden''),
      (404, ''Not Found''), (405, ''Method Not Allowed''), (406, ''Not Acceptable''),
      (407, ''Proxy Authentication Required''), (408, ''Request Timeout''), (409, ''Conflict''), (410, ''Gone''),
      (411, ''Length Required''), (412, ''Precondition Failed''), (413, ''Request Entity Too Large''),
      (414, ''Request URI Too Long''), (415, ''Unsupported Media Type''), (416, ''Requested Range Not Satisfiable''),
      (417, ''Expectation Failed''), (418, ''I'' @ [CHR 0x27] @ ''m a teapot''), (421, ''Misdirected Request''),
      (422, ''Unprocessable Entity''), (423, ''Locked''), (424, ''Failed Dependency''), (425, ''Too Early''),
      (426, ''Upgrade Required''), (428, ''Precondition Required''), (429, ''Too Many Requests''),
      (431, ''Request Header Fields Too Large''), (451, ''Unavailable For Legal Reasons''),
      (500, ''Internal Server Error''), (501, ''Not Implemented''), (502, ''Bad Gateway''),
      (503, ''Service Unavailable''), (504, ''Gateway Timeout''), (505, ''HTTP Version Not Supported''),
      (506, ''Variant Also Negotiates''), (507, ''Insufficient Storage''), (508, ''Loop Detected''),
      (510, ''Not Extended''), (511, ''Network Authentication Required'')]"

definition GetStatus :: "int \<Rightarrow> ('w, GetStatusResponseObject) act" where
  "GetStatus code w =
     (if code < 100 \<or> code > 599
      then (Inr (GetStatus400JSONResponse \<lparr>ErrorResponse_Error = ''status code must be in the range 100-599''\<rparr>), w)
      else if code < 200 \<or> code = 204 \<or> code = 304
      then (Inr (statusNoBodyResponse code), w)
      else (Inr (GetStatusdefaultJSONResponse
                   \<lparr>StatusResponse_Code = code, StatusResponse_Description = map_of status_texts code\<rparr> code), w))"

section \<open>delay.go\<close>

datatype float64 = Finite rat | PosInf | NegInf | NaN

definition float_less_zero :: "float64 \<Rightarrow> bool" where
  "float_less_zero x = (case x of Finite q \<Rightarrow> q < 0 | NegInf \<Rightarrow> True | _ \<Rightarrow> False)"

definition maxDelay :: Duration where
  "maxDelay = 10 * Second"

definition clampDelay :: "(float64 \<Rightarrow> Duration) \<Rightarrow> float64 \<Rightarrow> Duration" where
  "clampDelay toDuration seconds =
     (let delay = toDuration seconds in if delay > maxDelay then maxDelay else delay)"

text \<open>The wait on the timer or the request context is \<open>rt_After\<close>, as in the retry loop of transfers.\<close>

definition GetDelay :: "'w rt \<Rightarrow> (float64 \<Rightarrow> Duration) \<Rightarrow> float64 \<Rightarrow> ('w, GetDelayResponseObject) act" where
  "GetDelay T toDuration seconds w =
     (if float_less_zero seconds
      then (Inr (GetDelay400JSONResponse \<lparr>ErrorResponse_Error = ''delay seconds must not be negative''\<rparr>), w)
      else (let delay = clampDelay toDuration seconds
            in case rt_After T delay w of
                 (Some err, w1) \<Rightarrow> (Inl err, w1)
               | (None, w1) \<Rightarrow> (Inr (GetDelay200JSONResponse \<lparr>DelayResponse_Delay = of_int delay / of_int Second\<rparr>), w1)))"

section \<open>ratelimit.go\<close>

definition GetRatelimit :: "'w Server \<Rightarrow> Ctx \<Rightarrow> ('w, GetRatelimitResponseObject) act" where
  "GetRatelimit s ctx w =
     (case sv_ratelimiter s of
        None \<Rightarrow> (Inr (GetRatelimit200JSONResponse
                   \<lparr>RateLimitResponse_Limit = 0, RateLimitResponse_Remaining = 0, RateLimitResponse_Reset = 0\<rparr>
                   None None None), w)
      | Some limiter \<Rightarrow>
          (let ip = originIP (requestFrom ctx)
           in case lim_Allow limiter ip w of
                (result, w1) \<Rightarrow>
                  (let limit = wrap32 (r_Limit result);
                       remaining = wrap32 (r_Remaining result);
                       reset = wrap32 (Seconds (r_Reset result))
                   in if \<not> r_Allowed result
                      then (Inr (GetRatelimit429JSONResponse \<lparr>ErrorResponse_Error = ''rate limit exceeded''\<rparr>
                              (Some limit) (Some remaining) (Some reset)
                              (Some (wrap32 (Seconds (r_RetryAfter result))))), w1)
                      else (Inr (GetRatelimit200JSONResponse
                              \<lparr>RateLimitResponse_Limit = limit, RateLimitResponse_Remaining = remaining,
                               RateLimitResponse_Reset = reset\<rparr>
                              (Some limit) (Some remaining) (Some reset)), w1))))"

section \<open>Facts\<close>

lemma echoWithBody_Some: "echoWithBody ctx body = Some resp \<Longrightarrow> EchoResponse_Body resp = body"
  by (auto simp: echoWithBody_def echoResponse_def Let_def split: if_splits option.splits)

lemma echoWithBody_limit: "echoWithBody ctx (Some b) = None \<longleftrightarrow> 65536 < length b"
  by (simp add: echoWithBody_def maxEchoBodyBytes_def push_bit_eq_mult)

lemma clampDelay_le: "clampDelay toDuration seconds \<le> 10 * Second"
  by (simp add: clampDelay_def maxDelay_def Let_def)

text \<open>
  C38: the status endpoint answers with the code it was asked for, for every code from 200 to 599
  and for 101, with a body exactly where HTTP allows one, and with 400 outside 100 to 599. For the
  other informational codes it sends that code and then, because such a response does not end the
  exchange, a final 200.
\<close>

theorem status_endpoint_answers_with_the_code:
  assumes "GetStatus code (x :: 'w) = (Inr resp, x')" and "VisitGetStatusResponse (\<lambda>_. None) resp fresh_writer = (e, wr)"
  shows "e = None \<and> x' = x \<and>
    (if code < 100 \<or> 599 < code then final_status wr = 400
     else if 200 \<le> code \<or> code = 101
     then final_status wr = code \<and> wr_info wr = [] \<and> (wr_body wr = [] \<longleftrightarrow> code \<in> {101, 204, 304})
     else final_status wr = 200 \<and> wr_info wr = [code] \<and> wr_body wr = [])"
  using assms
  by (auto simp: GetStatus_def visitJSON_def WriteHeader_def write_body_def fresh_writer_def final_status_def
    Header_Set_def split: if_splits)

theorem status_endpoint_answers_with_the_code_witness:
  "final_status (snd (VisitGetStatusResponse (\<lambda>_. None) (projr (fst (GetStatus 418 ()))) fresh_writer)) = 418 \<and>
   final_status (snd (VisitGetStatusResponse (\<lambda>_. None) (projr (fst (GetStatus 103 ()))) fresh_writer)) = 200"
proof -
  have "GetStatus 418 () = (Inr (projr (fst (GetStatus 418 ()))), ())"
       "GetStatus 103 () = (Inr (projr (fst (GetStatus 103 ()))), ())"
    by (simp_all add: GetStatus_def)
  from this [THEN status_endpoint_answers_with_the_code, OF prod.collapse [symmetric]] show ?thesis by simp
qed

end
