(* ===== verification/Api_World.thy ===== *)
theory Api_World
  imports Api_Server
begin

text \<open>
  What the handlers rely on when Redis and PostgreSQL are used side by side: calls of the user store
  leave the keys in Redis alone (time may pass), \<^verbatim>\<open>google/uuid\<close> reads and prints the canonical form,
  and an instance of everything in memory.
\<close>

section \<open>Time may pass, nothing else\<close>

definition quiet :: "('w \<Rightarrow> Time) \<Rightarrow> ('w \<Rightarrow> keyspace) \<Rightarrow> 'w \<Rightarrow> 'w \<Rightarrow> bool" where
  "quiet now kv w w' \<longleftrightarrow> now w' = now w \<and> kv w' = kv w \<or> elapses now kv w w'"

lemma quiet_refl [simp]: "quiet now kv w w"
  by (simp add: quiet_def)

lemma live_at_live_at: "t \<le> t' \<Longrightarrow> live_at t' (live_at t ks) = live_at t' ks"
  by (auto simp: live_at_def fun_eq_iff split: option.splits if_splits)

lemma quiet_trans: "quiet now kv w w' \<Longrightarrow> quiet now kv w' w'' \<Longrightarrow> quiet now kv w w''"
  by (auto simp: quiet_def elapses_def live_at_live_at)

lemma quiet_keys: "quiet now kv w w' \<Longrightarrow> kv w' k = Some e \<Longrightarrow> kv w k = Some e"
  by (cases e) (auto simp: quiet_def elapses_def live_at_Some)

lemma quiet_time: "quiet now kv w w' \<Longrightarrow> now w \<le> now w'"
  by (auto simp: quiet_def elapses_def)

lemma session_reach_quiet:
  "session_reach E m now kv I w \<Longrightarrow> quiet now kv w w' \<Longrightarrow> session_reach E m now kv I w'"
  unfolding quiet_def by (elim disjE; rule session_reach.more, assumption)
    (auto intro: session_step.elsewhere session_step.elapse)

section \<open>A user store beside Redis\<close>

text \<open>\<open>Q w w'\<close>: what a call of the store may do to the rest of the world.\<close>

locale calm_store =
  fixes U :: "'w userStore" and Q :: "'w \<Rightarrow> 'w \<Rightarrow> bool"
  assumes RegisterUser_calm: "us_RegisterUser U params w = (x1, w') \<Longrightarrow> Q w w'"
    and UserByUsername_calm: "us_UserByUsername U name w = (x2, w') \<Longrightarrow> Q w w'"
    and UserByID_calm: "us_UserByID U i w = (x2, w') \<Longrightarrow> Q w w'"
    and UpdatePassword_calm: "us_UpdatePassword U i h w = (x3, w') \<Longrightarrow> Q w w'"
    and ListUsers_calm: "us_ListUsers U w = (x4, w') \<Longrightarrow> Q w w'"
    and ListAllAccounts_calm: "us_ListAllAccounts U w = (x5, w') \<Longrightarrow> Q w w'"
    and ListTransfers_calm: "us_ListTransfers U w = (x6, w') \<Longrightarrow> Q w w'"
    and Transfer_calm: "us_Transfer U tparams w = (x7, w') \<Longrightarrow> Q w w'"

text \<open>It is enough that the calls to the database and the waiting of the retry loop are calm.\<close>

locale calm_pg =
  fixes P :: "'w pg" and T :: "'w rt" and Q :: "'w \<Rightarrow> 'w \<Rightarrow> bool"
  assumes Q_refl: "Q w w" and Q_trans: "Q w w' \<Longrightarrow> Q w' w'' \<Longrightarrow> Q w w''"
    and send_Q: "pg_send P w = (e, w') \<Longrightarrow> Q w w'" and uuid_Q: "pg_uuid P w = (u, w') \<Longrightarrow> Q w w'"
    and begin_Q: "pg_begin P lvl w = (y, w') \<Longrightarrow> Q w w'" and commit_Q: "pg_commit P d w = (y, w') \<Longrightarrow> Q w w'"
    and rand_Q: "rt_Int64N T n w = (k, w') \<Longrightarrow> Q w w'" and after_Q: "rt_After T dur w = (c, w') \<Longrightarrow> Q w w'"
begin

definition calm_query :: "('w, 'a) query \<Rightarrow> bool" where
  "calm_query q \<longleftrightarrow> (\<forall>d w x d' w'. q (d, w) = (x, d', w') \<longrightarrow> Q w w')"

lemma calm_queryI: "(\<And>d w x d' w'. q (d, w) = (x, d', w') \<Longrightarrow> Q w w') \<Longrightarrow> calm_query q"
  by (simp add: calm_query_def)

lemma calm_queryD: "calm_query q \<Longrightarrow> q (d, w) = (x, d', w') \<Longrightarrow> Q w w'"
  by (auto simp: calm_query_def)

lemma sent_calm: "calm_query f \<Longrightarrow> calm_query (sent P f)"
  by (auto simp: calm_query_def sent_def split: prod.splits option.splits dest: send_Q intro: Q_trans)

lemma pure_calm:
  assumes "\<And>d w. snd (snd (f (d, w))) = w"
  shows "calm_query f"
proof (rule calm_queryI)
  fix d w x d' w' assume "f (d, w) = (x, d', w')"
  with assms [of d w] show "Q w w'" by (simp add: Q_refl)
qed

lemma uuid_calm:
  assumes "\<And>d w i w1. pg_uuid P w = (i, w1) \<Longrightarrow> snd (snd (f (d, w))) = w1"
  shows "calm_query f"
proof (rule calm_queryI)
  fix d w x d' w' assume "f (d, w) = (x, d', w')"
  with assms [of w _ _ d] uuid_Q show "Q w w'" by (cases "pg_uuid P w") force
qed

lemma queries_calm:
  "calm_query (AdjustBalance P a)" "calm_query (CreateAccount P b)" "calm_query (GetAccountsForUpdate P ids)"
  "calm_query (ListAllAccounts P)" "calm_query (CreateUser P c)" "calm_query (GetUserByID P i)"
  "calm_query (GetUserByUsername P n)" "calm_query (ListUsers_query P)" "calm_query (UpdateUserPassword P e)"
  "calm_query (InsertTransfer P t)" "calm_query (ListTransfers_query P)" "calm_query (hold P ms)"
  unfolding AdjustBalance_def CreateAccount_def GetAccountsForUpdate_def ListAllAccounts_def CreateUser_def
    GetUserByID_def GetUserByUsername_def ListUsers_query_def UpdateUserPassword_def InsertTransfer_def
    ListTransfers_query_def
  subgoal by (rule sent_calm, rule pure_calm) (simp add: Let_def split: option.split)
  subgoal by (rule sent_calm, rule uuid_calm) (simp add: Let_def)
  subgoal by (rule sent_calm, rule pure_calm) simp
  subgoal by (rule sent_calm, rule pure_calm) simp
  subgoal by (rule sent_calm, rule uuid_calm) (simp add: Let_def)
  subgoal by (rule sent_calm, rule pure_calm) (simp split: option.split)
  subgoal by (rule sent_calm, rule pure_calm) (simp split: option.split)
  subgoal by (rule sent_calm, rule pure_calm) simp
  subgoal by (rule sent_calm, rule pure_calm) simp
  subgoal by (rule sent_calm, rule uuid_calm) (simp add: Let_def)
  subgoal by (rule sent_calm, rule pure_calm) simp
  subgoal
    by (rule calm_queryI)
      (auto simp: hold_def Q_refl sent_def split: if_splits prod.splits option.splits sum.splits dest: send_Q)
  done

lemma pool_query_calm: "calm_query q \<Longrightarrow> pool_query P q w = (x, w') \<Longrightarrow> Q w w'"
  by (auto simp: pool_query_def split: prod.splits sum.splits dest: calm_queryD commit_Q intro: Q_trans)

lemma WithTx_calm: "calm_query q \<Longrightarrow> WithTx P q w = (x, w') \<Longrightarrow> Q w w'"
  by (auto simp: WithTx_def split: prod.splits sum.splits dest!: calm_queryD commit_Q begin_Q intro: Q_trans)

lemma register_tx_calm: "calm_query (register_tx P params)"
  by (rule calm_queryI)
    (auto simp: register_tx_def split: prod.splits sum.splits if_splits dest!: calm_queryD [OF queries_calm(2)]
      calm_queryD [OF queries_calm(5)] intro: Q_trans)

lemma transfer_tx_calm: "calm_query (transfer_tx P params fromID toID)"
  by (rule calm_queryI)
    (auto simp: transfer_tx_def split: prod.splits sum.splits if_splits option.splits
      dest!: calm_queryD [OF queries_calm(1)] calm_queryD [OF queries_calm(3)] calm_queryD [OF queries_calm(10)]
        calm_queryD [OF queries_calm(12)]; meson Q_trans)

lemma transferOnce_calm: "transferOnce P lvl params fromID toID ownerID w = (x, w') \<Longrightarrow> Q w w'"
  by (auto simp: transferOnce_def split: prod.splits sum.splits if_splits
    dest!: calm_queryD [OF transfer_tx_calm] begin_Q commit_Q intro: Q_trans)

lemma transfer_loop_calm:
  assumes "\<And>w x w'. once w = (x, w') \<Longrightarrow> Q w w'"
  shows "transfer_loop T once n k w = (x, w') \<Longrightarrow> Q w w'"
proof (induction n arbitrary: k w)
  case 0
  then show ?case by (simp add: Q_refl)
next
  case (Suc n)
  from Suc.prems show ?case
    by (auto simp: retryBackoff_def split: prod.splits sum.splits if_splits option.splits
      dest!: assms Suc.IH rand_Q after_Q intro: Q_trans Q_refl)
qed

lemma transfers_calm:
  "transfer_loop T (transferOnce P lvl params fromID toID ownerID) n k w = (x, w') \<Longrightarrow> Q w w'"
  by (rule transfer_loop_calm) (rule transferOnce_calm)

lemma store_calm: "calm_store (store_userStore P T) Q"
proof
  show "us_RegisterUser (store_userStore P T) params w = (x1, w') \<Longrightarrow> Q w w'" for params w x1 w'
    by (auto simp: store_userStore_def RegisterUser_def split: prod.splits sum.splits
      dest!: WithTx_calm [OF register_tx_calm])
  show "us_UserByUsername (store_userStore P T) name w = (x2, w') \<Longrightarrow> Q w w'" for name w x2 w'
    by (auto simp: store_userStore_def UserByUsername_def split: prod.splits sum.splits if_splits
      dest!: pool_query_calm [OF queries_calm(7)])
  show "us_UserByID (store_userStore P T) i w = (x2, w') \<Longrightarrow> Q w w'" for i w x2 w'
    by (auto simp: store_userStore_def UserByID_def Q_refl split: prod.splits sum.splits if_splits
      dest!: pool_query_calm [OF queries_calm(6)])
  show "us_UpdatePassword (store_userStore P T) i h w = (x3, w') \<Longrightarrow> Q w w'" for i h w x3 w'
    by (auto simp: store_userStore_def UpdatePassword_def Q_refl split: prod.splits sum.splits if_splits
      dest!: pool_query_calm [OF queries_calm(9)])
  show "us_ListUsers (store_userStore P T) w = (x4, w') \<Longrightarrow> Q w w'" for w x4 w'
    by (auto simp: store_userStore_def ListUsers_def split: prod.splits sum.splits
      dest!: pool_query_calm [OF queries_calm(8)])
  show "us_ListAllAccounts (store_userStore P T) w = (x5, w') \<Longrightarrow> Q w w'" for w x5 w'
    by (auto simp: store_userStore_def ListAllAccounts_admin_def split: prod.splits sum.splits
      dest!: pool_query_calm [OF queries_calm(4)])
  show "us_ListTransfers (store_userStore P T) w = (x6, w') \<Longrightarrow> Q w w'" for w x6 w'
    by (auto simp: store_userStore_def ListTransfers_def split: prod.splits sum.splits
      dest!: pool_query_calm [OF queries_calm(11)])
  show "us_Transfer (store_userStore P T) tparams w = (x7, w') \<Longrightarrow> Q w w'" for tparams w x7 w'
    by (auto simp: store_userStore_def Transfer_def Q_refl Let_def split: if_splits sum.splits elim: transfers_calm)
qed

end

sublocale calm_pg \<subseteq> calm_store "store_userStore P T" Q
  by (rule store_calm)

section \<open>google/uuid\<close>

locale uuid_package =
  fixes K :: "'w pkgs"
  assumes Parse_canonical: "length b = 16 \<Longrightarrow> uuid_Parse K (uuidString \<lparr>u_Bytes = b, u_Valid = True\<rparr>) = Inr b"
    and String_canonical: "length b = 16 \<Longrightarrow> uuid_String K b = uuidString \<lparr>u_Bytes = b, u_Valid = True\<rparr>"
begin

lemma Parse_uuidString: "uuid_ok u \<Longrightarrow> uuid_Parse K (uuidString u) = Inr (u_Bytes u)"
  using Parse_canonical [of "u_Bytes u"] by (cases u) (auto simp: uuid_ok_def)

end

section \<open>Everything in memory\<close>

definition app_pkgs :: "appmem pkgs" where
  "app_pkgs = \<lparr>pk_env = mem_env,
     uuid_Parse = (\<lambda>s. case scan_uuid s of Inl e \<Rightarrow> Inl e | Inr u \<Rightarrow> Inr (u_Bytes u)),
     uuid_String = (\<lambda>b. uuidString \<lparr>u_Bytes = b, u_Valid = True\<rparr>),
     uuid_New = (\<lambda>w. (u_Bytes (mem_uuid (mem_next w)), w\<lparr>mem_next := Suc (mem_next w)\<rparr>)),
     json_encode = (\<lambda>b. None)\<rparr>"

interpretation app_pkgs: uuid_package app_pkgs
  by unfold_locales (simp_all add: app_pkgs_def scan_uuidString uuid_ok_def)

lemma mem_kv_eq: "mem_now w' = mem_now w \<Longrightarrow> mem_keys w' = mem_keys w \<Longrightarrow> mem_kv w' = mem_kv w"
  by (simp add: mem_kv_def)

interpretation app_calm: calm_pg "mem_pg :: appmem pg" mem_rt "quiet mem_now mem_kv"
proof (unfold_locales, goal_cases)
  case (2 w w' w'')
  then show ?case by (rule quiet_trans)
qed (auto simp: mem_pg_def mem_rt_def quiet_def mem_kv_def)

definition app_mgr :: "appmem Manager" where
  "app_mgr = redis_Manager mem_redis mem_now (1800 * Second) (43200 * Second)"

definition app_settings :: AuthSettings where
  "app_settings = \<lparr>st_BcryptCost = 12, st_SessionCookieName = ''devopsbin_session'',
     st_CSRFCookieName = ''devopsbin_csrf'', st_SessionAbsoluteTTL = 43200 * Second\<rparr>"

definition app_server :: "appmem Server" where
  "app_server = NewServer ''go1.26''
     [WithAuth (store_userStore mem_pg mem_rt) app_mgr app_settings,
      WithPasswordRecovery (redis_Recovery mem_redis (900 * Second)),
      WithLoginLockout (redis_Lockout mem_redis 5 (900 * Second) (900 * Second)),
      WithRateLimiter (limiter_rateLimiter (redis_Limiter mem_redis mem_now ''demo'' 5 (10 * Second)))]"

lemma app_server_simps [simp]:
  "sv_sessions app_server = Some app_mgr" "sv_users app_server = Some (store_userStore mem_pg mem_rt)"
  "sv_authSettings app_server = app_settings"
  "sv_recovery app_server = Some (redis_Recovery mem_redis (900 * Second))"
  "sv_lockout app_server = Some (redis_Lockout mem_redis 5 (900 * Second) (900 * Second))"
  by (simp_all add: app_server_def NewServer_def WithAuth_def WithPasswordRecovery_def WithLoginLockout_def
    WithRateLimiter_def zero_Server_def Let_def)

lemma app_pkgs_env [simp]: "pk_env app_pkgs = mem_env"
  by (simp add: app_pkgs_def)

lemma app_setup: "redis_sessions (mem_redis :: appmem redis) mem_env mem_now mem_kv (1800 * Second) (43200 * Second)"
  by (rule mem_redis_sessions) simp_all

text \<open>A request as a client without a proxy sends it, with the given cookies and headers.\<close>

definition app_request :: "string \<Rightarrow> string \<Rightarrow> (string \<times> string) list \<Rightarrow> Request" where
  "app_request meth path hs =
     Request meth path Map.empty (map_of (map (\<lambda>(k, v). (k, [v])) hs)) ''192.0.2.7:4711'' True Background"

end
