(* ===== verification/Api_Accounts.thy ===== *)
theory Api_Accounts
  imports Api_World
begin

text \<open>
  Accounts and administration over HTTP: \<^verbatim>\<open>transfer.go\<close> and \<^verbatim>\<open>admin.go\<close> of \<^verbatim>\<open>internal/httpapi\<close>. That the
  caller is logged in, and an administrator where needed, is the middleware's business.
\<close>

section \<open>Listings\<close>

text \<open>The loops that convert rows, with the error of the first identifier that does not parse.\<close>

definition account_of :: "'w pkgs \<Rightarrow> Store.AdminAccount \<Rightarrow> Api_Types.AdminAccount res" where
  "account_of K a =
     (case uuid_Parse K (aa_ID a) of
        Inl err \<Rightarrow> Inl (Wrapf ''httpapi: parse account id %q: %w'' [err])
      | Inr i \<Rightarrow> Inr \<lparr>AdminAccount_BalanceCents = aa_BalanceCents a, AdminAccount_CreatedAt = aa_CreatedAt a,
                      AdminAccount_Id = i, AdminAccount_Name = aa_Name a, AdminAccount_OwnerUsername = aa_OwnerUsername a\<rparr>)"

definition user_of :: "'w pkgs \<Rightarrow> Store.AdminUser \<Rightarrow> Api_Types.AdminUser res" where
  "user_of K u =
     (case uuid_Parse K (au_ID u) of
        Inl err \<Rightarrow> Inl (Wrapf ''httpapi: parse user id %q: %w'' [err])
      | Inr i \<Rightarrow> Inr \<lparr>AdminUser_CreatedAt = au_CreatedAt u, AdminUser_Id = i, AdminUser_Role = au_Role u,
                      AdminUser_Username = au_Username u\<rparr>)"

definition transfer_of :: "'w pkgs \<Rightarrow> Store.AdminTransfer \<Rightarrow> Api_Types.AdminTransfer res" where
  "transfer_of K t =
     (case uuid_Parse K (at_ID t) of
        Inl err \<Rightarrow> Inl (Wrapf ''httpapi: parse transfer id %q: %w'' [err])
      | Inr i \<Rightarrow>
     (case uuid_Parse K (at_FromAccountID t) of
        Inl err \<Rightarrow> Inl (Wrapf ''httpapi: parse from-account id %q: %w'' [err])
      | Inr fromID \<Rightarrow>
     (case uuid_Parse K (at_ToAccountID t) of
        Inl err \<Rightarrow> Inl (Wrapf ''httpapi: parse to-account id %q: %w'' [err])
      | Inr toID \<Rightarrow>
          Inr \<lparr>AdminTransfer_AmountCents = at_AmountCents t, AdminTransfer_CreatedAt = at_CreatedAt t,
               AdminTransfer_FromAccountId = fromID, AdminTransfer_FromAccountName = at_FromAccountName t,
               AdminTransfer_Id = i, AdminTransfer_ToAccountId = toID, AdminTransfer_ToAccountName = at_ToAccountName t\<rparr>)))"

fun convert_all :: "('a \<Rightarrow> 'b res) \<Rightarrow> 'a list \<Rightarrow> 'b list \<Rightarrow> 'b list res" where
  "convert_all f [] out = Inr out"
| "convert_all f (x # xs) out = (case f x of Inl err \<Rightarrow> Inl err | Inr y \<Rightarrow> convert_all f xs (out @ [y]))"

definition GetAccounts :: "'w pkgs \<Rightarrow> 'w Server \<Rightarrow> ('w, GetAccountsResponseObject) act" where
  "GetAccounts K s w =
     (case with_users s us_ListAllAccounts w of
        (Inl err, w1) \<Rightarrow> (Inl err, w1)
      | (Inr rows, w1) \<Rightarrow>
          (case convert_all (account_of K) rows [] of
             Inl err \<Rightarrow> (Inl err, w1)
           | Inr out \<Rightarrow> (Inr (GetAccounts200JSONResponse \<lparr>AccountListResponse_Accounts = out\<rparr>), w1)))"

definition GetAdminUsers :: "'w pkgs \<Rightarrow> 'w Server \<Rightarrow> ('w, GetAdminUsersResponseObject) act" where
  "GetAdminUsers K s w =
     (case with_users s us_ListUsers w of
        (Inl err, w1) \<Rightarrow> (Inl err, w1)
      | (Inr rows, w1) \<Rightarrow>
          (case convert_all (user_of K) rows [] of
             Inl err \<Rightarrow> (Inl err, w1)
           | Inr out \<Rightarrow> (Inr (GetAdminUsers200JSONResponse \<lparr>UserListResponse_Users = out\<rparr>), w1)))"

definition GetAdminAccounts :: "'w pkgs \<Rightarrow> 'w Server \<Rightarrow> ('w, GetAdminAccountsResponseObject) act" where
  "GetAdminAccounts K s w =
     (case with_users s us_ListAllAccounts w of
        (Inl err, w1) \<Rightarrow> (Inl err, w1)
      | (Inr rows, w1) \<Rightarrow>
          (case convert_all (account_of K) rows [] of
             Inl err \<Rightarrow> (Inl err, w1)
           | Inr out \<Rightarrow> (Inr (GetAdminAccounts200JSONResponse \<lparr>AccountListResponse_Accounts = out\<rparr>), w1)))"

definition GetAdminTransfers :: "'w pkgs \<Rightarrow> 'w Server \<Rightarrow> ('w, GetAdminTransfersResponseObject) act" where
  "GetAdminTransfers K s w =
     (case with_users s us_ListTransfers w of
        (Inl err, w1) \<Rightarrow> (Inl err, w1)
      | (Inr rows, w1) \<Rightarrow>
          (case convert_all (transfer_of K) rows [] of
             Inl err \<Rightarrow> (Inl err, w1)
           | Inr out \<Rightarrow> (Inr (GetAdminTransfers200JSONResponse \<lparr>TransferListResponse_Transfers = out\<rparr>), w1)))"

section \<open>Administration of a user\<close>

definition PostAdminUserUnlock :: "'w pkgs \<Rightarrow> 'w Server \<Rightarrow> uuid \<Rightarrow> ('w, PostAdminUserUnlockResponseObject) act" where
  "PostAdminUserUnlock K s i w =
     (case with_users s (\<lambda>u. us_UserByID u (uuid_String K i)) w of
        (Inl err, w1) \<Rightarrow>
          (if errors_is err ErrUserNotFound
           then (Inr (PostAdminUserUnlock404JSONResponse \<lparr>ErrorResponse_Error = ''user not found''\<rparr>), w1)
           else (Inl err, w1))
      | (Inr user, w1) \<Rightarrow>
          (case (case sv_lockout s of None \<Rightarrow> (Inr (), w1) | Some l \<Rightarrow> Unlock l (Username user) w1) of
             (Inl err, w2) \<Rightarrow> (Inl err, w2)
           | (Inr _, w2) \<Rightarrow> (Inr PostAdminUserUnlock204Response, w2)))"

definition admin_reset_ack :: string where
  "admin_reset_ack = ''a reset token has been issued for the user''"

definition PostAdminUserPasswordReset ::
    "'w pkgs \<Rightarrow> 'w Server \<Rightarrow> uuid \<Rightarrow> ('w, PostAdminUserPasswordResetResponseObject) act" where
  "PostAdminUserPasswordReset K s i w =
     (case with_users s (\<lambda>u. us_UserByID u (uuid_String K i)) w of
        (Inl err, w1) \<Rightarrow>
          (if errors_is err ErrUserNotFound
           then (Inr (PostAdminUserPasswordReset404JSONResponse \<lparr>ErrorResponse_Error = ''user not found''\<rparr>), w1)
           else (Inl err, w1))
      | (Inr user, w1) \<Rightarrow>
          (case sv_recovery s of
             None \<Rightarrow> (Inr (PostAdminUserPasswordReset200JSONResponse
                        \<lparr>PasswordResetResponse_Message = admin_reset_ack, PasswordResetResponse_Token = None\<rparr>), w1)
           | Some recovery \<Rightarrow>
               (case CreateResetToken (pk_env K) recovery (ID user) w1 of
                  (Inl err, w2) \<Rightarrow> (Inl err, w2)
                | (Inr token, w2) \<Rightarrow>
                    (Inr (PostAdminUserPasswordReset200JSONResponse
                       \<lparr>PasswordResetResponse_Message = admin_reset_ack, PasswordResetResponse_Token = Some token\<rparr>), w2))))"

section \<open>Transfers\<close>

definition transfer_params :: "'w pkgs \<Rightarrow> Session \<Rightarrow> TransferRequest \<Rightarrow> PostTransferParams \<Rightarrow> TransferParams" where
  "transfer_params K sess b ps =
     (let p0 = \<lparr>tp_SessionUserID = s_UserID sess, tp_FromAccountID = uuid_String K (TransferRequest_FromAccountId b),
                tp_ToAccountID = uuid_String K (TransferRequest_ToAccountId b),
                tp_AmountCents = TransferRequest_AmountCents b, tp_Isolation = [], tp_HoldMs = 0, tp_MaxRetries = 0\<rparr>;
          p1 = (case PostTransferParams_Isolation ps of Some i \<Rightarrow> p0\<lparr>tp_Isolation := i\<rparr> | None \<Rightarrow> p0)
      in case PostTransferParams_HoldMs ps of Some h \<Rightarrow> p1\<lparr>tp_HoldMs := h\<rparr> | None \<Rightarrow> p1)"

definition transfer_error :: "goerr \<Rightarrow> PostTransferResponseObject option" where
  "transfer_error err =
     (if errors_is err ErrInvalidTransfer
      then Some (PostTransfer400JSONResponse \<lparr>ErrorResponse_Error = ''invalid transfer: amount must be positive and accounts must differ''\<rparr>)
      else if errors_is err ErrNotAccountOwner
      then Some (PostTransfer403JSONResponse \<lparr>ErrorResponse_Error = ''you do not own the source account''\<rparr>)
      else if errors_is err ErrAccountNotFound
      then Some (PostTransfer404JSONResponse \<lparr>ErrorResponse_Error = ''source or destination account not found''\<rparr>)
      else if errors_is err ErrInsufficientFunds
      then Some (PostTransfer409JSONResponse \<lparr>ErrorResponse_Error = ''insufficient funds''\<rparr>)
      else if errors_is err ErrRetriesExhausted
      then Some (PostTransfer409JSONResponse \<lparr>ErrorResponse_Error = ''transfer could not commit due to serialization conflicts; please retry''\<rparr>)
      else None)"

definition transfer_result :: "'w pkgs \<Rightarrow> Store_Transfer.TransferResult \<Rightarrow> Api_Types.TransferResult res" where
  "transfer_result K result =
     (case uuid_Parse K (tr_TransferID result) of
        Inl err \<Rightarrow> Inl (Wrapf ''httpapi: parse transfer id %q: %w'' [err])
      | Inr transferID \<Rightarrow>
     (case uuid_Parse K (tr_FromAccountID result) of
        Inl err \<Rightarrow> Inl (Wrapf ''httpapi: parse from-account id %q: %w'' [err])
      | Inr fromID \<Rightarrow>
     (case uuid_Parse K (tr_ToAccountID result) of
        Inl err \<Rightarrow> Inl (Wrapf ''httpapi: parse to-account id %q: %w'' [err])
      | Inr toID \<Rightarrow>
          Inr \<lparr>TransferResult_AmountCents = tr_AmountCents result, TransferResult_Attempts = wrap32 (tr_Attempts result),
               TransferResult_CreatedAt = tr_CreatedAt result, TransferResult_FromAccountId = fromID,
               TransferResult_FromBalanceCents = tr_FromBalanceCents result, TransferResult_ToAccountId = toID,
               TransferResult_ToBalanceCents = tr_ToBalanceCents result, TransferResult_TransferId = transferID\<rparr>)))"

definition PostTransfer ::
    "'w pkgs \<Rightarrow> 'w Server \<Rightarrow> Ctx \<Rightarrow> PostTransferParams \<Rightarrow> TransferRequest option \<Rightarrow> ('w, PostTransferResponseObject) act" where
  "PostTransfer K s ctx ps body w =
     (case body of
        None \<Rightarrow> (Inr (PostTransfer400JSONResponse \<lparr>ErrorResponse_Error = ''request body is required''\<rparr>), w)
      | Some b \<Rightarrow>
     (case sessionFrom ctx of
        None \<Rightarrow> (Inr (PostTransfer401JSONResponse \<lparr>ErrorResponse_Error = ''authentication required''\<rparr>), w)
      | Some sess \<Rightarrow>
     (case with_users s (\<lambda>u. us_Transfer u (transfer_params K sess b ps)) w of
        (Inl err, w1) \<Rightarrow> (case transfer_error err of Some resp \<Rightarrow> (Inr resp, w1) | None \<Rightarrow> (Inl err, w1))
      | (Inr result, w1) \<Rightarrow>
          (case transfer_result K result of
             Inl err \<Rightarrow> (Inl err, w1)
           | Inr out \<Rightarrow> (Inr (PostTransfer200JSONResponse out), w1)))))"

section \<open>A transfer from end to end\<close>

definition transfer_status :: "errkind option \<Rightarrow> int" where
  "transfer_status v =
     (case v of
        None \<Rightarrow> 200
      | Some k \<Rightarrow> if k = ErrInvalidTransfer then 400 else if k = ErrNotAccountOwner then 403
          else if k = ErrAccountNotFound then 404 else 409)"

lemma transfer_params_simps [simp]:
  "tp_SessionUserID (transfer_params K sess b ps) = s_UserID sess"
  "tp_FromAccountID (transfer_params K sess b ps) = uuid_String K (TransferRequest_FromAccountId b)"
  "tp_ToAccountID (transfer_params K sess b ps) = uuid_String K (TransferRequest_ToAccountId b)"
  "tp_AmountCents (transfer_params K sess b ps) = TransferRequest_AmountCents b"
  by (simp_all add: transfer_params_def Let_def split: option.split)

lemma visit_transfer_error:
  assumes "transfer_error (Leaf k) = Some resp"
  shows "final_status (snd (VisitPostTransferResponse (\<lambda>_. None) resp fresh_writer)) = transfer_status (Some k)"
  using assms
  by (auto simp: transfer_error_def transfer_status_def visitJSON_def fresh_writer_def final_status_def WriteHeader_def
    write_body_def Header_Set_def split: if_splits)

text \<open>The body of the 200 response against the tables after the transfer.\<close>

abbreviation uuid_of :: "uuid \<Rightarrow> UUID" where
  "uuid_of b \<equiv> \<lparr>u_Bytes = b, u_Valid = True\<rparr>"

definition result_stored :: "TransferRequest \<Rightarrow> db \<Rightarrow> Api_Types.TransferResult \<Rightarrow> bool" where
  "result_stored b d out \<longleftrightarrow>
     TransferResult_FromAccountId out = TransferRequest_FromAccountId b \<and>
     TransferResult_ToAccountId out = TransferRequest_ToAccountId b \<and>
     TransferResult_AmountCents out = TransferRequest_AmountCents b \<and>
     (\<exists>a \<in> set (accounts d). a_ID a = uuid_of (TransferRequest_FromAccountId b) \<and>
        a_BalanceCents a = TransferResult_FromBalanceCents out) \<and>
     (\<exists>a \<in> set (accounts d). a_ID a = uuid_of (TransferRequest_ToAccountId b) \<and>
        a_BalanceCents a = TransferResult_ToBalanceCents out) \<and>
     (\<exists>t \<in> set (transfers d). u_Bytes (t_ID t) = TransferResult_TransferId out \<and>
        t_CreatedAt t = TransferResult_CreatedAt out)"

context uuid_package
begin

lemma transfer_result_ok:
  assumes "reported params (uuid_of (TransferRequest_FromAccountId b)) (uuid_of (TransferRequest_ToAccountId b)) d r" "db_wf d"
    and "params = transfer_params K sess b ps"
    and "length (TransferRequest_FromAccountId b) = 16" "length (TransferRequest_ToAccountId b) = 16" and "tr_Attempts r = 1"
  shows "\<exists>out. transfer_result K r = Inr out \<and> result_stored b d out \<and> TransferResult_Attempts out = 1"
proof -
  obtain e where e: "e \<in> set (transfers d)" "uuidString (t_ID e) = tr_TransferID r" "t_CreatedAt e = tr_CreatedAt r"
    using assms(1) by (auto simp: reported_def)
  have "uuid_ok (t_ID e)" using assms(2) e(1) by (auto simp: db_wf_def transfer_ok_def)
  then have "uuid_Parse K (tr_TransferID r) = Inr (u_Bytes (t_ID e))" using e(2) Parse_uuidString by metis
  moreover have "tr_FromAccountID r = uuid_String K (TransferRequest_FromAccountId b)"
      "tr_ToAccountID r = uuid_String K (TransferRequest_ToAccountId b)" "tr_AmountCents r = TransferRequest_AmountCents b"
    using assms(1,3) by (auto simp: reported_def)
  ultimately show ?thesis
    using assms e by (auto simp: transfer_result_def Parse_canonical String_canonical result_stored_def reported_def wrap32_def)
qed

text \<open>The names of the request are the canonical spellings of its identifiers, so they are parsed back to them.\<close>

lemma parsed_request:
  assumes "pg_service P" "parsed P params fromID toID" "params = transfer_params K sess b ps"
    and "length (TransferRequest_FromAccountId b) = 16" "length (TransferRequest_ToAccountId b) = 16"
  shows "fromID = uuid_of (TransferRequest_FromAccountId b)" "toID = uuid_of (TransferRequest_ToAccountId b)"
  using assms pg_service.scan_canonical [OF assms(1), of "uuid_of (TransferRequest_FromAccountId b)"]
    pg_service.scan_canonical [OF assms(1), of "uuid_of (TransferRequest_ToAccountId b)"]
  by (simp_all add: parsed_def String_canonical uuid_ok_def)

end

text \<open>
  C23: a transfer request over HTTP gets the documented answer. When the database answers, the
  status is 400, 403, 404 or 409 exactly when the rules refuse the request of the session's user,
  and then the tables are as before; otherwise it is 200, the money has moved between the two
  accounts named in the request, and the response names them with the balances that are now stored
  for them, the amount, the identifier and time of the ledger entry that was stored and one attempt.
\<close>

theorem PostTransfer_gives_the_documented_answer:
  assumes "retry_service P T" and "uuid_package K" and "db_wf (pg_db P w)" and "answering P"
    and "\<And>w'. pg_db P w' = pg_db P w \<Longrightarrow> fst (pg_uuid P w') \<notin> t_ID ` set (transfers (pg_db P w))"
    and "\<And>a. a \<in> set (accounts (pg_db P w)) \<Longrightarrow> a_BalanceCents a + TransferRequest_AmountCents b < 2 ^ 63"
    and "TransferRequest_AmountCents b < 2 ^ 63"
    and "length (TransferRequest_FromAccountId b) = 16" and "length (TransferRequest_ToAccountId b) = 16"
    and "sv_users s = Some (store_userStore P T)" and "sessionFrom ctx = Some sess"
    and "params = transfer_params K sess b ps"
    and "PostTransfer K s ctx ps (Some b) w = (x, w')"
  shows "\<exists>resp. x = Inr resp \<and>
    final_status (snd (VisitPostTransferResponse (\<lambda>_. None) resp fresh_writer)) =
      transfer_status (transfer_verdict P params (pg_db P w)) \<and>
    (if transfer_verdict P params (pg_db P w) = None
     then settled params (uuid_of (TransferRequest_FromAccountId b)) (uuid_of (TransferRequest_ToAccountId b))
         (pg_db P w) (pg_db P w') \<and>
       (\<exists>out. resp = PostTransfer200JSONResponse out \<and> result_stored b (pg_db P w') out \<and> TransferResult_Attempts out = 1)
     else pg_db P w' = pg_db P w)"
proof -
  obtain y w1 where t: "Transfer P T params w = (y, w1)" by fastforce
  have u: "with_users s (\<lambda>u. us_Transfer u params) w = (y, w1)"
    using t assms(10) by (simp add: with_users_def store_userStore_def)
  have amt: "tp_AmountCents params < 2 ^ 63" using assms(7,12) by simp
  have ans: "case transfer_verdict P params (pg_db P w) of
      Some k \<Rightarrow> fst (Transfer P T params w) = Inl (Leaf k)
    | None \<Rightarrow> \<exists>r. fst (Transfer P T params w) = Inr r \<and> tr_Attempts r = 1"
    by (rule transfer_answered [OF assms(1,3) amt assms(4,5)]) (use assms(6,12) in simp_all)
  show ?thesis
  proof (cases "transfer_verdict P params (pg_db P w)")
    case (Some k)
    then have y: "y = Inl (Leaf k)" using ans t by simp
    have "pg_db P w1 = pg_db P w"
      using transfer_failed [OF assms(1,3) amt t [unfolded y]] by (auto simp: commit_lost_def)
    moreover obtain resp where r: "transfer_error (Leaf k) = Some resp"
      using verdict_kind [OF Some] by (auto simp: transfer_error_def)
    moreover have "x = Inr resp" "w' = w1"
      using assms(11,13) u [unfolded assms(12)] y r by (simp_all add: PostTransfer_def)
    ultimately show ?thesis using Some visit_transfer_error [OF r] by simp
  next
    case None
    then obtain r where y: "y = Inr r" and one: "tr_Attempts r = 1" using ans t by auto
    obtain fromID toID where p: "parsed P params fromID toID" and st: "settled params fromID toID (pg_db P w) (pg_db P w1)"
      and rp: "reported params fromID toID (pg_db P w1) r"
      using transfer_succeeded [OF assms(1,3) amt t [unfolded y]] by blast
    have "pg_service P" using assms(1) by (simp add: retry_service_def)
    note ids = uuid_package.parsed_request [OF assms(2) this p assms(12,8,9)]
    obtain out where out: "transfer_result K r = Inr out" "result_stored b (pg_db P w1) out" "TransferResult_Attempts out = 1"
      using uuid_package.transfer_result_ok [OF assms(2) rp [unfolded ids] _ assms(12,8,9) one] st by (auto simp: settled_def)
    have "x = Inr (PostTransfer200JSONResponse out)" "w' = w1"
      using assms(11,13) u [unfolded assms(12)] y out(1) by (simp_all add: PostTransfer_def)
    then show ?thesis using None st out ids
      by (auto simp: transfer_status_def visitJSON_def fresh_writer_def final_status_def WriteHeader_def write_body_def Header_Set_def)
  qed
qed

definition alice_session :: Session where
  "alice_session = \<lparr>s_ID = ''sid'', s_UserID = uuidString (mem_uuid 1), s_Username = ''alice'', s_Role = ''user'',
     s_CSRFToken = ''tok'', s_CreatedAt = 0, s_LastSeenAt = 0\<rparr>"

definition alice_pays_bob :: "int \<Rightarrow> TransferRequest" where
  "alice_pays_bob amount = \<lparr>TransferRequest_AmountCents = amount, TransferRequest_FromAccountId = u_Bytes (mem_uuid 2),
     TransferRequest_ToAccountId = u_Bytes (mem_uuid 4)\<rparr>"

definition no_params :: PostTransferParams where
  "no_params = \<lparr>PostTransferParams_Isolation = None, PostTransferParams_HoldMs = None, PostTransferParams_XCSRFToken = None\<rparr>"

definition alice_posts :: "int \<Rightarrow> PostTransferResponseObject res \<times> appmem" where
  "alice_posts amount = PostTransfer app_pkgs app_server (withSession Background alice_session) no_params
     (Some (alice_pays_bob amount)) app_both"

theorem PostTransfer_gives_the_documented_answer_witness:
  "final_status (snd (VisitPostTransferResponse (\<lambda>_. None) (projr (fst (alice_posts 100001))) fresh_writer)) = 409 \<and>
   pg_db mem_pg (snd (alice_posts 100001)) = pg_db mem_pg app_both \<and>
   (\<exists>out. fst (alice_posts 2500) = Inr (PostTransfer200JSONResponse out) \<and>
     result_stored (alice_pays_bob 2500) (pg_db mem_pg (snd (alice_posts 2500))) out) \<and>
   map a_BalanceCents (accounts (pg_db mem_pg (snd (alice_posts 2500)))) = [97500, 102500]"
proof -
  have none: "transfers (pg_db mem_pg app_both) = []" by code_simp
  have small: "list_all (\<lambda>a. a_BalanceCents a \<le> 100000) (accounts (pg_db mem_pg app_both))" by code_simp
  have v: "transfer_verdict (mem_pg :: appmem pg) (transfer_params app_pkgs alice_session (alice_pays_bob 100001) no_params)
      (pg_db mem_pg app_both) = Some ErrInsufficientFunds"
    "transfer_verdict (mem_pg :: appmem pg) (transfer_params app_pkgs alice_session (alice_pays_bob 2500) no_params)
      (pg_db mem_pg app_both) = None" by code_simp+
  have ans: "answering (mem_pg :: appmem pg)" by (simp add: answering_def mem_pg_def)
  have len: "length (u_Bytes (mem_uuid n)) = 16" for n by (simp add: mem_uuid_def)
  have bal: "a_BalanceCents a + TransferRequest_AmountCents (alice_pays_bob n) < 2 ^ 63"
    if "n \<le> 100001" "a \<in> set (accounts (pg_db mem_pg app_both))" for a n
  proof -
    have "a_BalanceCents a \<le> 100000" using small that(2) by (simp only: list_all_iff)
    then show ?thesis using that(1) by (simp add: alice_pays_bob_def)
  qed
  note t = PostTransfer_gives_the_documented_answer [OF mem_rt.retry_service_axioms app_pkgs.uuid_package_axioms
      app_both_wf ans _ bal _ _ _ app_server_simps(2) _ refl, of _ "withSession Background alice_session" alice_session
      no_params "fst (alice_posts n)" "snd (alice_posts n)" for n]
  have "\<exists>resp. fst (alice_posts 100001) = Inr resp \<and>
    final_status (snd (VisitPostTransferResponse (\<lambda>_. None) resp fresh_writer)) = 409 \<and>
    pg_db mem_pg (snd (alice_posts 100001)) = pg_db mem_pg app_both"
    using t [of 100001 100001] v(1)
    by (simp add: none withSession_def transfer_status_def alice_posts_def) (simp add: alice_pays_bob_def len)
  moreover have "\<exists>out. fst (alice_posts 2500) = Inr (PostTransfer200JSONResponse out) \<and>
     result_stored (alice_pays_bob 2500) (pg_db mem_pg (snd (alice_posts 2500))) out"
    using t [of 2500 2500] v(2)
    by (simp add: none withSession_def transfer_status_def alice_posts_def) (force simp: alice_pays_bob_def len)
  moreover have "map a_BalanceCents (accounts (pg_db mem_pg (snd (alice_posts 2500)))) = [97500, 102500]" by code_simp
  ultimately show ?thesis by auto
qed

end
