(* ===== verification/Api_Auth.thy ===== *)
theory Api_Auth
  imports Api_World
begin

text \<open>
  Authentication over HTTP: \<^verbatim>\<open>auth.go\<close>, \<^verbatim>\<open>auth_password.go\<close> and the middleware of \<^verbatim>\<open>authmw.go\<close> in
  \<^verbatim>\<open>internal/httpapi\<close>. A handler returns the response object or the error that the generated layer
  turns into a 500.
\<close>

section \<open>Cookies and sessions\<close>

definition csrfHeaderName :: string where
  "csrfHeaderName = ''X-CSRF-Token''"

text \<open>The form under which \<^verbatim>\<open>Header.Get\<close> looks the name up.\<close>

definition csrfHeaderKey :: string where
  "csrfHeaderKey = ''X-Csrf-Token''"

definition defaultUserRole :: string where
  "defaultUserRole = ''user''"

definition basePath :: string where
  "basePath = ''/api/v1''"

definition sessionCookie :: "'w Server \<Rightarrow> Request option \<Rightarrow> string \<Rightarrow> int \<Rightarrow> HttpCookie" where
  "sessionCookie s r value maxAge =
     \<lparr>ck_Name = st_SessionCookieName (sv_authSettings s), ck_Value = value, ck_Path = basePath, ck_MaxAge = maxAge,
      ck_HttpOnly = True, ck_Secure = (requestScheme r = ''https''), ck_SameSite = ''Lax''\<rparr>"

definition csrfCookie :: "'w Server \<Rightarrow> Request option \<Rightarrow> string \<Rightarrow> int \<Rightarrow> HttpCookie" where
  "csrfCookie s r value maxAge =
     \<lparr>ck_Name = st_CSRFCookieName (sv_authSettings s), ck_Value = value, ck_Path = ''/'', ck_MaxAge = maxAge,
      ck_HttpOnly = False, ck_Secure = (requestScheme r = ''https''), ck_SameSite = ''Lax''\<rparr>"

definition userResponse :: "'w pkgs \<Rightarrow> User \<Rightarrow> UserResponse res" where
  "userResponse K u =
     (case uuid_Parse K (ID u) of
        Inl err \<Rightarrow> Inl (Wrapf ''httpapi: parse user id %q: %w'' [err])
      | Inr i \<Rightarrow> Inr \<lparr>UserResponse_Id = i, UserResponse_Role = Role u, UserResponse_Username = Username u\<rparr>)"

definition revokeRequestSession :: "'w Server \<Rightarrow> Request option \<Rightarrow> 'w \<Rightarrow> 'w" where
  "revokeRequestSession s ro w =
     (case ro of
        None \<Rightarrow> w
      | Some r \<Rightarrow>
          (case Cookie r (st_SessionCookieName (sv_authSettings s)) of
             None \<Rightarrow> w
           | Some v \<Rightarrow> if v = [] then w else snd (with_sessions s (\<lambda>m. DeleteSession m v) w)))"

text \<open>
  \<^verbatim>\<open>int(d.Seconds())\<close>, the whole seconds; the detour over \<^verbatim>\<open>float64\<close> is exact for durations of whole
  seconds and for all durations below 48 days.
\<close>

definition max_age :: "Duration \<Rightarrow> int" where
  "max_age d = go_quot d Second"

definition startSession ::
    "'w pkgs \<Rightarrow> 'w Server \<Rightarrow> Ctx \<Rightarrow> User \<Rightarrow> int \<Rightarrow> ('w, authSuccessResponse \<times> Session) act" where
  "startSession K s ctx user statusCode w =
     (let r = requestFrom ctx;
          w1 = revokeRequestSession s r w
      in case with_sessions s (\<lambda>m. CreateSession (pk_env K) m
                \<lparr>i_UserID = ID user, i_Username = Username user, i_Role = Role user\<rparr>) w1 of
           (Inl err, w2) \<Rightarrow> (Inl err, w2)
         | (Inr sess, w2) \<Rightarrow>
             (case userResponse K user of
                Inl err \<Rightarrow> (Inl err, w2)
              | Inr body \<Rightarrow>
                  (let maxAge = max_age (st_SessionAbsoluteTTL (sv_authSettings s))
                   in (Inr (\<lparr>as_statusCode = statusCode,
                             as_cookies = [sessionCookie s r (s_ID sess) maxAge, csrfCookie s r (s_CSRFToken sess) maxAge],
                             as_body = body\<rparr>, sess), w2))))"

section \<open>auth.go\<close>

definition PostAuthRegister ::
    "'w pkgs \<Rightarrow> 'w Server \<Rightarrow> Ctx \<Rightarrow> RegisterRequest option \<Rightarrow> ('w, PostAuthRegisterResponseObject) act" where
  "PostAuthRegister K s ctx body w =
     (case body of
        None \<Rightarrow> (Inr (PostAuthRegister400JSONResponse \<lparr>ErrorResponse_Error = ''request body is required''\<rparr>), w)
      | Some b \<Rightarrow>
          (let username = TrimSpace (RegisterRequest_Username b);
               password = RegisterRequest_Password b
           in if username = [] \<or> password = []
              then (Inr (PostAuthRegister400JSONResponse
                      \<lparr>ErrorResponse_Error = ''username and password are required''\<rparr>), w)
              else (case HashPassword (pk_env K) password (st_BcryptCost (sv_authSettings s)) w of
                (Inl err, w1) \<Rightarrow> (Inl err, w1)
              | (Inr hash, w1) \<Rightarrow>
                  (case with_users s (\<lambda>u. us_RegisterUser u
                            \<lparr>nu_Username = username, nu_PasswordHash = hash, nu_Role = defaultUserRole\<rparr>) w1 of
                     (Inl err, w2) \<Rightarrow>
                       (if errors_is err ErrUsernameTaken
                        then (Inr (PostAuthRegister409JSONResponse \<lparr>ErrorResponse_Error = ''username is already taken''\<rparr>), w2)
                        else (Inl err, w2))
                   | (Inr user, w2) \<Rightarrow>
                       (case startSession K s ctx user 201 w2 of
                          (Inl err, w3) \<Rightarrow> (Inl err, w3)
                        | (Inr (resp, _), w3) \<Rightarrow> (Inr (PostAuthRegister_authSuccessResponse resp), w3))))))"

definition locked_out :: "'w Server \<Rightarrow> string \<Rightarrow> string \<Rightarrow> 'w \<Rightarrow> (bool \<times> Duration) \<times> 'w" where
  "locked_out s username ip w =
     (case sv_lockout s of None \<Rightarrow> ((False, 0), w) | Some l \<Rightarrow> Locked l username ip w)"

definition PostAuthLogin ::
    "'w pkgs \<Rightarrow> 'w Server \<Rightarrow> Ctx \<Rightarrow> LoginRequest option \<Rightarrow> ('w, PostAuthLoginResponseObject) act" where
  "PostAuthLogin K s ctx body w =
     (case body of
        None \<Rightarrow> (Inr (PostAuthLogin400JSONResponse \<lparr>ErrorResponse_Error = ''request body is required''\<rparr>), w)
      | Some b \<Rightarrow>
          (let username = TrimSpace (LoginRequest_Username b);
               password = LoginRequest_Password b
           in if username = [] \<or> password = []
              then (Inr (PostAuthLogin400JSONResponse \<lparr>ErrorResponse_Error = ''username and password are required''\<rparr>), w)
              else (let ip = originIP (requestFrom ctx)
                    in case locked_out s username ip w of
                         ((True, retryAfter), w1) \<Rightarrow>
                           (Inr (PostAuthLogin423JSONResponse
                              \<lparr>ErrorResponse_Error = ''too many failed login attempts; try again later''\<rparr>
                              (Some (wrap32 (RetryAfterSeconds retryAfter)))), w1)
                       | ((False, _), w1) \<Rightarrow>
                           (case with_users s (\<lambda>u. us_UserByUsername u username) w1 of
                              (found, w2) \<Rightarrow>
                                (if (case found of Inl err \<Rightarrow> \<not> errors_is err ErrUserNotFound | Inr _ \<Rightarrow> False)
                                 then (Inl (projl found), w2)
                                 else if (case found of Inl err \<Rightarrow> True
                                          | Inr user \<Rightarrow> \<not> CheckPassword (pk_env K) (PasswordHash user) password)
                                 then (let w3 = (case sv_lockout s of None \<Rightarrow> w2 | Some l \<Rightarrow> RecordFailure l username ip w2)
                                       in (Inr (PostAuthLogin401JSONResponse
                                            \<lparr>ErrorResponse_Error = ''invalid username or password''\<rparr>), w3))
                                 else (let w3 = (case sv_lockout s of None \<Rightarrow> w2 | Some l \<Rightarrow> Reset l username ip w2)
                                       in case startSession K s ctx (User.truncate (projr found)) 200 w3 of
                                            (Inl err, w4) \<Rightarrow> (Inl err, w4)
                                          | (Inr (resp, _), w4) \<Rightarrow> (Inr (PostAuthLogin_authSuccessResponse resp), w4)))))))"

definition PostAuthLogout :: "'w Server \<Rightarrow> Ctx \<Rightarrow> ('w, PostAuthLogoutResponseObject) act" where
  "PostAuthLogout s ctx w =
     (case (case sessionFrom ctx of
              Some sess \<Rightarrow> with_sessions s (\<lambda>m. DeleteSession m (s_ID sess)) w
            | None \<Rightarrow> (Inr (), w)) of
        (Inl err, w1) \<Rightarrow> (Inl err, w1)
      | (Inr _, w1) \<Rightarrow>
          (let r = requestFrom ctx
           in (Inr (PostAuthLogout_logoutResponse \<lparr>lo_cookies = [sessionCookie s r [] (- 1), csrfCookie s r [] (- 1)]\<rparr>), w1)))"

definition GetAuthMe :: "'w pkgs \<Rightarrow> Ctx \<Rightarrow> ('w, GetAuthMeResponseObject) act" where
  "GetAuthMe K ctx w =
     (case sessionFrom ctx of
        None \<Rightarrow> (Inr (GetAuthMe401JSONResponse \<lparr>ErrorResponse_Error = ''authentication required''\<rparr>), w)
      | Some sess \<Rightarrow>
          (case userResponse K \<lparr>ID = s_UserID sess, Username = s_Username sess, Role = s_Role sess\<rparr> of
             Inl err \<Rightarrow> (Inl err, w)
           | Inr body \<Rightarrow> (Inr (GetAuthMe200JSONResponse body), w)))"

section \<open>auth\_password.go\<close>

definition PostAuthPasswordChange ::
    "'w pkgs \<Rightarrow> 'w Server \<Rightarrow> Ctx \<Rightarrow> PasswordChangeRequest option \<Rightarrow> ('w, PostAuthPasswordChangeResponseObject) act" where
  "PostAuthPasswordChange K s ctx body w =
     (case sessionFrom ctx of
        None \<Rightarrow> (Inr (PostAuthPasswordChange401JSONResponse \<lparr>ErrorResponse_Error = ''authentication required''\<rparr>), w)
      | Some sess \<Rightarrow>
     (case body of
        None \<Rightarrow> (Inr (PostAuthPasswordChange400JSONResponse \<lparr>ErrorResponse_Error = ''request body is required''\<rparr>), w)
      | Some b \<Rightarrow>
     (let newPassword = PasswordChangeRequest_NewPassword b
      in if PasswordChangeRequest_CurrentPassword b = [] \<or> newPassword = []
         then (Inr (PostAuthPasswordChange400JSONResponse
                 \<lparr>ErrorResponse_Error = ''current and new passwords are required''\<rparr>), w)
         else
     (case with_users s (\<lambda>u. us_UserByID u (s_UserID sess)) w of
        (Inl err, w1) \<Rightarrow>
          (if errors_is err ErrUserNotFound
           then (Inr (PostAuthPasswordChange401JSONResponse \<lparr>ErrorResponse_Error = ''authentication required''\<rparr>), w1)
           else (Inl err, w1))
      | (Inr user, w1) \<Rightarrow>
          if \<not> CheckPassword (pk_env K) (PasswordHash user) (PasswordChangeRequest_CurrentPassword b)
          then (Inr (PostAuthPasswordChange403JSONResponse \<lparr>ErrorResponse_Error = ''current password is incorrect''\<rparr>), w1)
          else
     (case HashPassword (pk_env K) newPassword (st_BcryptCost (sv_authSettings s)) w1 of
        (Inl err, w2) \<Rightarrow> (Inl err, w2)
      | (Inr hash, w2) \<Rightarrow>
     (case with_users s (\<lambda>u. us_UpdatePassword u (ID user) hash) w2 of
        (Inl err, w3) \<Rightarrow> (Inl err, w3)
      | (Inr _, w3) \<Rightarrow>
     (case startSession K s ctx (User.truncate user) 200 w3 of
        (Inl err, w4) \<Rightarrow> (Inl err, w4)
      | (Inr (resp, newSession), w4) \<Rightarrow>
     (case with_sessions s (\<lambda>m. RevokeUserSessions m (ID user) (s_ID newSession)) w4 of
        (Inl err, w5) \<Rightarrow> (Inl err, w5)
      | (Inr _, w5) \<Rightarrow> (Inr (PostAuthPasswordChange_passwordChangeResponse resp), w5)))))))))"

definition reset_ack :: string where
  "reset_ack = ''if the user exists, a reset token has been issued''"

definition PostAuthPasswordResetRequest ::
    "'w pkgs \<Rightarrow> 'w Server \<Rightarrow> PasswordResetRequestRequest option \<Rightarrow>
     ('w, PostAuthPasswordResetRequestResponseObject) act" where
  "PostAuthPasswordResetRequest K s body w =
     (case body of
        None \<Rightarrow> (Inr (PostAuthPasswordResetRequest400JSONResponse \<lparr>ErrorResponse_Error = ''request body is required''\<rparr>), w)
      | Some b \<Rightarrow>
          (let username = TrimSpace (PasswordResetRequestRequest_Username b)
           in if username = []
              then (Inr (PostAuthPasswordResetRequest400JSONResponse \<lparr>ErrorResponse_Error = ''username is required''\<rparr>), w)
              else (case sv_recovery s of
                      None \<Rightarrow> (Inr (PostAuthPasswordResetRequest200JSONResponse
                                 \<lparr>PasswordResetResponse_Message = reset_ack, PasswordResetResponse_Token = None\<rparr>), w)
                    | Some recovery \<Rightarrow>
                        (case with_users s (\<lambda>u. us_UserByUsername u username) w of
                           (Inl err, w1) \<Rightarrow>
                             (if errors_is err ErrUserNotFound
                              then (Inr (PostAuthPasswordResetRequest200JSONResponse
                                     \<lparr>PasswordResetResponse_Message = reset_ack, PasswordResetResponse_Token = None\<rparr>), w1)
                              else (Inl err, w1))
                         | (Inr user, w1) \<Rightarrow>
                             (case CreateResetToken (pk_env K) recovery (ID user) w1 of
                                (Inl err, w2) \<Rightarrow> (Inl err, w2)
                              | (Inr token, w2) \<Rightarrow>
                                  (Inr (PostAuthPasswordResetRequest200JSONResponse
                                     \<lparr>PasswordResetResponse_Message = reset_ack, PasswordResetResponse_Token = Some token\<rparr>), w2))))))"

definition PostAuthPasswordReset ::
    "'w pkgs \<Rightarrow> 'w Server \<Rightarrow> PasswordResetRequest option \<Rightarrow> ('w, PostAuthPasswordResetResponseObject) act" where
  "PostAuthPasswordReset K s body w =
     (case body of
        None \<Rightarrow> (Inr (PostAuthPasswordReset400JSONResponse \<lparr>ErrorResponse_Error = ''request body is required''\<rparr>), w)
      | Some b \<Rightarrow>
          if PasswordResetRequest_Token b = [] \<or> PasswordResetRequest_NewPassword b = []
          then (Inr (PostAuthPasswordReset400JSONResponse \<lparr>ErrorResponse_Error = ''token and new password are required''\<rparr>), w)
          else
     (case sv_recovery s of
        None \<Rightarrow> (Inr (PostAuthPasswordReset410JSONResponse \<lparr>ErrorResponse_Error = ''reset token is invalid or expired''\<rparr>), w)
      | Some recovery \<Rightarrow>
     (case ConsumeResetToken recovery (PasswordResetRequest_Token b) w of
        (Inl err, w1) \<Rightarrow>
          (if errors_is err ErrResetTokenInvalid
           then (Inr (PostAuthPasswordReset410JSONResponse \<lparr>ErrorResponse_Error = ''reset token is invalid or expired''\<rparr>), w1)
           else (Inl err, w1))
      | (Inr userID, w1) \<Rightarrow>
     (case HashPassword (pk_env K) (PasswordResetRequest_NewPassword b) (st_BcryptCost (sv_authSettings s)) w1 of
        (Inl err, w2) \<Rightarrow> (Inl err, w2)
      | (Inr hash, w2) \<Rightarrow>
     (case with_users s (\<lambda>u. us_UpdatePassword u userID hash) w2 of
        (Inl err, w3) \<Rightarrow>
          (if errors_is err ErrUserNotFound
           then (Inr (PostAuthPasswordReset410JSONResponse \<lparr>ErrorResponse_Error = ''reset token is invalid or expired''\<rparr>), w3)
           else (Inl err, w3))
      | (Inr _, w3) \<Rightarrow>
     (case with_sessions s (\<lambda>m. RevokeUserSessions m userID []) w3 of
        (Inl err, w4) \<Rightarrow> (Inl err, w4)
      | (Inr _, w4) \<Rightarrow> (Inr (PostAuthPasswordReset200JSONResponse \<lparr>MessageResponse_Message = ''password has been reset''\<rparr>), w4)))))))"

section \<open>authmw.go\<close>

text \<open>
  A strict handler gets the context, the writer and the request, and returns the response object
  (\<open>None\<close> for nil: the response was already written) or an error.
\<close>

type_synonym ('w, 'r) StrictHandlerFunc = "Ctx \<Rightarrow> Writer \<Rightarrow> Request \<Rightarrow> 'w \<Rightarrow> ('r option res \<times> Writer) \<times> 'w"

definition sessionProtectedOps :: "string list" where
  "sessionProtectedOps =
     [''PostAuthLogout'', ''GetAuthMe'', ''PostAuthPasswordChange'', ''GetAccounts'', ''PostTransfer'',
      ''GetAdminUsers'', ''GetAdminAccounts'', ''GetAdminTransfers'', ''PostAdminUserUnlock'',
      ''PostAdminUserPasswordReset'']"

definition roleProtectedOps :: "string \<rightharpoonup> string" where
  "roleProtectedOps =
     [''GetAdminUsers'' \<mapsto> ''admin'', ''GetAdminAccounts'' \<mapsto> ''admin'', ''GetAdminTransfers'' \<mapsto> ''admin'',
      ''PostAdminUserUnlock'' \<mapsto> ''admin'', ''PostAdminUserPasswordReset'' \<mapsto> ''admin'']"

definition isUnsafeMethod :: "string \<Rightarrow> bool" where
  "isUnsafeMethod meth \<longleftrightarrow> meth = ''POST'' \<or> meth = ''PUT'' \<or> meth = ''PATCH'' \<or> meth = ''DELETE''"

definition writeJSONError :: "'w pkgs \<Rightarrow> Writer \<Rightarrow> int \<Rightarrow> string \<Rightarrow> Writer" where
  "writeJSONError K w code message =
     (case json_encode K (JSON_ErrorResponse \<lparr>ErrorResponse_Error = message\<rparr>) of
        Some err \<Rightarrow> http_Error message code w
      | None \<Rightarrow> write_body (JSON_ErrorResponse \<lparr>ErrorResponse_Error = message\<rparr>)
                  (WriteHeader code (Header_Set ''Content-Type'' ''application/json'' w)))"

definition loadSession :: "'w pkgs \<Rightarrow> 'w Server \<Rightarrow> Request option \<Rightarrow> 'w \<Rightarrow> Session option \<times> 'w" where
  "loadSession K s ro x =
     (case ro of
        None \<Rightarrow> (None, x)
      | Some r \<Rightarrow>
          (case Cookie r (st_SessionCookieName (sv_authSettings s)) of
             None \<Rightarrow> (None, x)
           | Some v \<Rightarrow>
               if v = [] then (None, x)
               else (case with_sessions s (\<lambda>m. GetSession (pk_env K) m v) x of
                       (Inl err, x1) \<Rightarrow> (None, x1)
                     | (Inr sess, x1) \<Rightarrow> (Some sess, x1))))"

definition authMiddleware ::
    "'w pkgs \<Rightarrow> 'w Server \<Rightarrow> ('w, 'r) StrictHandlerFunc \<Rightarrow> string \<Rightarrow> ('w, 'r) StrictHandlerFunc" where
  "authMiddleware K s next operationID ctx w r x =
     (if operationID \<notin> set sessionProtectedOps then next ctx w r x
      else (case loadSession K s (Some r) x of
              (None, x1) \<Rightarrow> ((Inr None, writeJSONError K w 401 ''authentication required''), x1)
            | (Some sess, x1) \<Rightarrow>
                if isUnsafeMethod (Method r) \<and>
                   \<not> ValidCSRFToken (s_CSRFToken sess) (Header_Get (Header r) csrfHeaderKey)
                then ((Inr None, writeJSONError K w 403 ''invalid or missing CSRF token''), x1)
                else if (case roleProtectedOps operationID of Some role \<Rightarrow> s_Role sess \<noteq> role | None \<Rightarrow> False)
                then ((Inr None, writeJSONError K w 403 ''insufficient privileges''), x1)
                else (case with_sessions s (\<lambda>m. TouchSession (pk_env K) m sess) x1 of
                        (Inl err, x2) \<Rightarrow> ((Inr None, writeJSONError K w 401 ''authentication required''), x2)
                      | (Inr _, x2) \<Rightarrow> next (withSession ctx sess) w r x2)))"

section \<open>The middleware fails closed\<close>

text \<open>The conditions under which the handler of a protected operation may run.\<close>

definition admitted :: "'w env \<Rightarrow> 'w Manager \<Rightarrow> string \<Rightarrow> Request \<Rightarrow> string \<Rightarrow> Session \<Rightarrow> 'w \<Rightarrow> 'w \<Rightarrow> bool" where
  "admitted E m operationID r sid sess x x2 \<longleftrightarrow> sid \<noteq> [] \<and>
     (\<exists>x1. GetSession E m sid x = (Inr sess, x1) \<and> TouchSession E m sess x1 = (Inr (), x2)) \<and>
     (if Method r \<in> {''POST'', ''PUT'', ''PATCH'', ''DELETE''}
      then s_CSRFToken sess \<noteq> [] \<and> Header_Get (Header r) csrfHeaderKey = s_CSRFToken sess else True) \<and>
     (case roleProtectedOps operationID of Some role \<Rightarrow> s_Role sess = role | None \<Rightarrow> True)"

text \<open>The decision, apart from the response that carries it out.\<close>

definition auth_verdict ::
    "'w pkgs \<Rightarrow> 'w Server \<Rightarrow> string \<Rightarrow> Request \<Rightarrow> 'w \<Rightarrow> ((int \<times> string) + Session) \<times> 'w" where
  "auth_verdict K s operationID r x =
     (case loadSession K s (Some r) x of
        (None, x1) \<Rightarrow> (Inl (401, ''authentication required''), x1)
      | (Some sess, x1) \<Rightarrow>
          if isUnsafeMethod (Method r) \<and> \<not> ValidCSRFToken (s_CSRFToken sess) (Header_Get (Header r) csrfHeaderKey)
          then (Inl (403, ''invalid or missing CSRF token''), x1)
          else if (case roleProtectedOps operationID of Some role \<Rightarrow> s_Role sess \<noteq> role | None \<Rightarrow> False)
          then (Inl (403, ''insufficient privileges''), x1)
          else (case with_sessions s (\<lambda>m. TouchSession (pk_env K) m sess) x1 of
                  (Inl err, x2) \<Rightarrow> (Inl (401, ''authentication required''), x2)
                | (Inr _, x2) \<Rightarrow> (Inr sess, x2)))"

lemma authMiddleware_verdict:
  "operationID \<in> set sessionProtectedOps \<Longrightarrow>
   authMiddleware K s next operationID ctx w r x =
     (case auth_verdict K s operationID r x of
        (Inl (code, msg), x2) \<Rightarrow> ((Inr None, writeJSONError K w code msg), x2)
      | (Inr sess, x2) \<Rightarrow> next (withSession ctx sess) w r x2)"
  by (simp add: authMiddleware_def auth_verdict_def split: prod.split option.split sum.split)

lemma verdict_rejected: "auth_verdict K s operationID r x = (Inl (code, msg), x2) \<Longrightarrow> code \<in> {401, 403}"
  by (auto simp: auth_verdict_def split: prod.splits option.splits sum.splits if_splits)

lemma CSRF_eq: "ValidCSRFToken expected provided \<longleftrightarrow> expected = provided \<and> expected \<noteq> []"
  by (auto simp: ValidCSRFToken_def ConstantTimeCompare_eq)

lemma loadSession_Some:
  assumes "loadSession K s (Some r) x = (Some sess, x1)" "sv_sessions s = Some m"
  obtains sid where "Cookie r (st_SessionCookieName (sv_authSettings s)) = Some sid" "sid \<noteq> []"
    "GetSession (pk_env K) m sid x = (Inr sess, x1)"
  using assms by (auto simp: loadSession_def with_sessions_def split: option.splits if_splits prod.splits sum.splits)

lemma verdict_admitted:
  assumes v: "auth_verdict K s operationID r x = (Inr sess, x2)" and m: "sv_sessions s = Some m"
  shows "\<exists>sid. Cookie r (st_SessionCookieName (sv_authSettings s)) = Some sid \<and>
    admitted (pk_env K) m operationID r sid sess x x2"
proof -
  obtain x1 where l: "loadSession K s (Some r) x = (Some sess, x1)"
    and t: "TouchSession (pk_env K) m sess x1 = (Inr (), x2)"
    and c: "isUnsafeMethod (Method r) \<Longrightarrow> ValidCSRFToken (s_CSRFToken sess) (Header_Get (Header r) csrfHeaderKey)"
    and a: "case roleProtectedOps operationID of Some role \<Rightarrow> s_Role sess = role | None \<Rightarrow> True"
    using v m by (auto simp: auth_verdict_def with_sessions_def split: prod.splits option.splits sum.splits if_splits)
  from l m obtain sid where "Cookie r (st_SessionCookieName (sv_authSettings s)) = Some sid" "sid \<noteq> []"
    "GetSession (pk_env K) m sid x = (Inr sess, x1)" by (rule loadSession_Some)
  then show ?thesis using t c a by (auto simp: admitted_def isUnsafeMethod_def CSRF_eq)
qed

text \<open>
  C2: the authentication middleware fails closed. For a protected operation either the wrapped
  handler does not run at all, whatever it is, and the response is a 401 or 403 error; or the
  request carries the cookie of a session that was found valid and could be renewed, with its CSRF
  token in the header when the method changes state and with the required role for an operation of
  the administrator, and the handler runs with that session in its context.
\<close>

theorem auth_middleware_fails_closed:
  assumes "sv_sessions s = Some m" and "operationID \<in> set sessionProtectedOps"
  shows "(\<exists>sid sess x2. Cookie r (st_SessionCookieName (sv_authSettings s)) = Some sid \<and>
      admitted (pk_env K) m operationID r sid sess x x2 \<and>
      (\<forall>handler :: ('w, 'r) StrictHandlerFunc. authMiddleware K s handler operationID ctx w r x = handler (withSession ctx sess) w r x2)) \<or>
    (\<exists>code msg x2. (code = 401 \<or> code = 403) \<and>
      (\<forall>handler :: ('w, 'r) StrictHandlerFunc. authMiddleware K s handler operationID ctx w r x = ((Inr None, writeJSONError K w code msg), x2)))"
proof (cases "auth_verdict K s operationID r x")
  case (Pair v x2)
  show ?thesis
  proof (cases v)
    case (Inl p)
    then show ?thesis
      using verdict_rejected [of K s operationID r x "fst p" "snd p" x2] Pair
      by (cases p) (auto simp: authMiddleware_verdict [OF assms(2)])
  next
    case (Inr sess)
    then show ?thesis
      using verdict_admitted [OF _ assms(1), of K operationID r x sess x2] Pair
      by (auto simp: authMiddleware_verdict [OF assms(2)])
  qed
qed

theorem auth_middleware_fails_closed_witness:
  "\<exists>code. (code = 401 \<or> code = 403) \<and>
    fst (authMiddleware app_pkgs app_server (\<lambda>ctx w r x. ((Inr (Some ()), w), x)) ''GetAuthMe'' Background fresh_writer
      (app_request ''GET'' ''/api/v1/auth/me'' []) app_start) = (Inr None, snd (fst (authMiddleware app_pkgs app_server
      (\<lambda>ctx w r x. ((Inr (Some ()), w), x)) ''GetAuthMe'' Background fresh_writer
      (app_request ''GET'' ''/api/v1/auth/me'' []) app_start))) \<and>
    final_status (snd (fst (authMiddleware app_pkgs app_server (\<lambda>ctx w r x. ((Inr (Some ()), w), x)) ''GetAuthMe''
      Background fresh_writer (app_request ''GET'' ''/api/v1/auth/me'' []) app_start))) = code"
proof -
  let ?r = "app_request ''GET'' ''/api/v1/auth/me'' []"
  have c: "Cookie ?r (st_SessionCookieName (sv_authSettings app_server)) = None"
    by (simp add: app_settings_def) code_simp
  have p: "''GetAuthMe'' \<in> set sessionProtectedOps" by code_simp
  have w: "final_status (writeJSONError app_pkgs fresh_writer code msg) = code" if "200 \<le> code" for code msg
    using that by (simp add: writeJSONError_def app_pkgs_def write_body_def WriteHeader_def Header_Set_def
      fresh_writer_def final_status_def)
  show ?thesis
    using auth_middleware_fails_closed [OF app_server_simps(1) p, where r = ?r and K = app_pkgs and
      ctx = Background and w = fresh_writer and x = app_start and ?'r = unit] c w by auto
qed

end
