(* ===== verification/Session_Progress.thy ===== *)
theory Session_Progress
  imports Auth_Session
begin

text \<open>
  When Redis answers, the random source delivers and sessions can be encoded, the operations of the
  session manager succeed: the other half of the facts of \<open>Auth_Session\<close>, which hold whatever fails.
\<close>

section \<open>Stores and packages that do not fail\<close>

locale steady_session_store = session_store +
  assumes Set_total: "fst (ss_Set S k v ttl w) = Inr ()"
    and Get_total: "kv w k = Some (VStr v, d) \<Longrightarrow> fst (ss_Get S k w) = Inr v"
    and Del_total: "fst (ss_Del S k w) = Inr ()"
    and SAdd_total: "kv w k = None \<or> (\<exists>ms d. kv w k = Some (VSet ms, d)) \<Longrightarrow> 0 < ttl \<Longrightarrow>
        fst (ss_SAdd S k m ttl w) = Inr ()"
    and SMembers_total: "kv w k = None \<or> (\<exists>ms d. kv w k = Some (VSet ms, d)) \<Longrightarrow>
        \<exists>ids. fst (ss_SMembers S k w) = Inr ids"
    and Get_none: "kv w k = None \<Longrightarrow> \<exists>e. fst (ss_Get S k w) = Inl e \<and> isMiss e"

context reliable_redis
begin

lemma is_steady_session_store: "steady_session_store (client_SessionStore R) IsMiss now kv"
proof (unfold_locales, goal_cases)
  case (4 w k ttl m)
  then show ?case by (auto simp: wires intro!: Client_SAdd_total)
next
  case (5 w k)
  then show ?case by (auto simp: wires intro!: Client_SMembers_total)
next
  case (6 w k)
  then show ?case using Client_Get_total(1) [of w k] by (simp add: wires IsMiss_def)
qed (simp_all add: wires Client_Set_total Client_Get_total Client_Del_total)

end

sublocale reliable_redis \<subseteq> session: steady_session_store "client_SessionStore R" IsMiss now kv
  by (rule is_steady_session_store)

text \<open>\<^verbatim>\<open>crypto/rand\<close> never fails, and a struct of strings and times can always be encoded.\<close>

locale steady_env =
  fixes E :: "'w env"
  assumes rand_total: "\<exists>b. fst (rand_Read E n w) = Inr b"
    and json_total: "\<exists>d. json_Marshal E s = Inr d"
begin

lemma randomToken_total: "\<exists>tok w'. randomToken E w = (Inr tok, w')"
  using rand_total [of tokenBytes w] by (cases "rand_Read E tokenBytes w") (auto simp: randomToken_def)

end

interpretation mem_env: steady_env mem_env
  by unfold_locales (simp_all add: mem_env_def)

section \<open>The operations succeed\<close>

locale steady_sessions = session_manager S isMiss now kv E idle life +
    steady_session_store S isMiss now kv + steady_env E
  for S :: "'w SessionStore" and isMiss and now :: "'w \<Rightarrow> Time" and kv and E :: "'w env"
    and idle life :: Duration
begin

lemma save_total: "\<exists>w'. save E M s ttl w = (Inr (), w')"
proof -
  obtain d where "json_Marshal E s = Inr d" using json_total by blast
  then show ?thesis
    using Set_total [of "sessionKey (s_ID s)" d ttl w]
    by (cases "ss_Set S (sessionKey (s_ID s)) d ttl w") (auto simp: save_def)
qed

lemma DeleteSession_total: "\<exists>w'. DeleteSession M sid w = (Inr (), w')"
  using Del_total [of "sessionKey sid" w] by (cases "ss_Del S (sessionKey sid) w") (auto simp: DeleteSession_def)

lemma index_shape:
  assumes "sessions_wf E life t ks I"
  shows "ks (userSessionsKey uid) = None \<or> (\<exists>ms d. ks (userSessionsKey uid) = Some (VSet ms, d))"
  by (rule sessions_wf_old_index [OF assms, of uid]) blast

lemma CreateSession_total:
  assumes "kv w (userSessionsKey (i_UserID ident)) = None \<or>
    (\<exists>ms d. kv w (userSessionsKey (i_UserID ident)) = Some (VSet ms, d))"
  shows "\<exists>s w'. CreateSession E M ident w = (Inr s, w')"
proof -
  obtain sid w1 where t1: "randomToken E w = (Inr sid, w1)" using randomToken_total by blast
  obtain csrf w2 where t2: "randomToken E w1 = (Inr csrf, w2)" using randomToken_total by blast
  define s where "s = \<lparr>s_ID = sid, s_UserID = i_UserID ident, s_Username = i_Username ident,
    s_Role = i_Role ident, s_CSRFToken = csrf, s_CreatedAt = now w2, s_LastSeenAt = now w2\<rparr>"
  obtain w3 where sv: "save E M s idle w2 = (Inr (), w3)" using save_total by blast
  have "kv w3 (userSessionsKey (i_UserID ident)) = kv w (userSessionsKey (i_UserID ident))"
    using save_effect(2) [OF sv idle_pos] randomToken_frame [OF t1] randomToken_frame [OF t2] by auto
  with assms have "fst (ss_SAdd S (userSessionsKey (i_UserID ident)) sid life w3) = Inr ()"
    by (intro SAdd_total life_pos) simp
  then show ?thesis
    using t1 t2 sv by (cases "ss_SAdd S (userSessionsKey (i_UserID ident)) sid life w3")
      (auto simp: CreateSession_def s_def Let_def)
qed

lemma revoke_loop_total: "\<exists>w'. revoke_loop M ex ids w = (Inr (), w')"
proof (induction ids arbitrary: w)
  case (Cons sid ids)
  obtain w1 where "DeleteSession M sid w = (Inr (), w1)" using DeleteSession_total by blast
  then show ?case using Cons.IH [of w] Cons.IH [of w1] by auto
qed simp

lemma RevokeUserSessions_total:
  assumes "kv w (userSessionsKey uid) = None \<or> (\<exists>ms d. kv w (userSessionsKey uid) = Some (VSet ms, d))"
  shows "\<exists>w'. RevokeUserSessions M uid ex w = (Inr (), w')"
proof -
  obtain ids w1 where m: "ss_SMembers S (userSessionsKey uid) w = (Inr ids, w1)"
    using SMembers_total [OF assms] by (cases "ss_SMembers S (userSessionsKey uid) w") auto
  obtain w2 where "revoke_loop M ex ids w1 = (Inr (), w2)" using revoke_loop_total by blast
  then show ?thesis
    using m Del_total [of "userSessionsKey uid" w2] by (cases "ss_Del S (userSessionsKey uid) w2")
      (auto simp: RevokeUserSessions_def Let_def)
qed

text \<open>A session that is in the store is found, and touched while its absolute lifetime lasts.\<close>

lemma GetSession_total:
  assumes "kv w (sessionKey sid) = Some (VStr raw, d)" "json_Unmarshal E raw = Inr s"
    and "s_CreatedAt s \<le> now w" "now w \<le> s_CreatedAt s + life"
  shows "\<exists>w'. GetSession E M sid w = (Inr (s\<lparr>s_ID := sid\<rparr>), w')"
proof -
  obtain w1 where g: "ss_Get S (sessionKey sid) w = (Inr raw, w1)"
    using Get_total [OF assms(1)] by (cases "ss_Get S (sessionKey sid) w") auto
  have "time_Sub (now w) (s_CreatedAt s) \<le> life"
    using assms(3,4) life_int by (auto simp: time_Sub_def is_int64_def)
  with g assms(2) Get_frame [OF g] show ?thesis by (auto simp: GetSession_def Let_def)
qed

lemma GetSession_none:
  "kv w (sessionKey sid) = None \<Longrightarrow> \<exists>w'. GetSession E M sid w = (Inl (Leaf ErrSessionNotFound), w')"
  using Get_none [of w "sessionKey sid"] by (cases "ss_Get S (sessionKey sid) w") (auto simp: GetSession_def)

lemma TouchSession_total:
  assumes "s_CreatedAt s \<le> now w" "now w < s_CreatedAt s + life"
  shows "\<exists>w'. TouchSession E M s w = (Inr (), w')"
proof -
  have sub: "time_Sub (now w) (s_CreatedAt s) = now w - s_CreatedAt s"
    using assms life_int by (auto simp: time_Sub_def is_int64_def)
  moreover have "wrap64 (life - (now w - s_CreatedAt s)) = life - (now w - s_CreatedAt s)"
    using assms life_int by (intro wrap64_id) (auto simp: is_int64_def)
  ultimately have "0 < remainingTTL M (s_CreatedAt s) (now w)"
    using assms idle_pos by (simp add: remainingTTL_def Let_def)
  then show ?thesis
    using save_total [of "s\<lparr>s_LastSeenAt := now w\<rparr>" "remainingTTL M (s_CreatedAt s) (now w)" w]
    by (simp add: TouchSession_def Let_def)
qed

end

context steady_sessions
begin

lemma px_idle_le: "px idle \<le> life"
  using idle_pos idle_le life_pos zdvd_imp_le [OF life_ms life_pos] px_le [of idle] by (auto simp: px_def)

text \<open>A session that was just created serves a request within its idle window.\<close>

lemma created_then_served:
  assumes cs: "CreateSession E M ident w = (Inr s, w')"
    and utf: "utf8_text (i_UserID ident)" "utf8_text (i_Username ident)" "utf8_text (i_Role ident)"
    and el: "elapses now kv w' w2" and lt: "now w2 < now w + px idle"
  obtains w3 w4 where "GetSession E M (s_ID s) w2 = (Inr s, w3)" "TouchSession E M s w3 = (Inr (), w4)"
    "s_UserID s = i_UserID ident" "s_Username s = i_Username ident" "s_Role s = i_Role ident" "s_CSRFToken s \<noteq> ''''"
proof -
  obtain w0 w1 csrf wc raw where csrf: "randomToken E w1 = (Inr csrf, wc)"
      and s: "s = \<lparr>s_ID = s_ID s, s_UserID = i_UserID ident, s_Username = i_Username ident,
              s_Role = i_Role ident, s_CSRFToken = csrf, s_CreatedAt = now w, s_LastSeenAt = now w\<rparr>"
      and raw: "json_Marshal E s = Inr raw" and t0: "now w0 = now w"
      and k0: "kv w0 = (kv w)(sessionKey (s_ID s) \<mapsto> (VStr raw, Some (now w + px idle)))"
      and sa: "ss_SAdd S (userSessionsKey (i_UserID ident)) (s_ID s) life w0 = (Inr (), w')"
    by (rule CreateSession_ok [OF cs])
  have f: "s_UserID s = i_UserID ident" "s_Username s = i_Username ident" "s_Role s = i_Role ident"
      "s_CSRFToken s = csrf" "s_CreatedAt s = now w" by (subst s, simp)+
  have k': "kv w2 (sessionKey (s_ID s)) = Some (VStr raw, Some (now w + px idle))"
    using SAdd_frame(2) [OF sa, of "sessionKey (s_ID s)"] k0 el lt by (simp add: elapses_def live_at_def)
  obtain s' where u: "json_Unmarshal E raw = Inr s'" "s_CreatedAt s' = now w"
    using json_time [OF raw] f(5) by auto
  have t: "now w \<le> now w2" "now w2 < now w + life"
    using el SAdd_frame(1) [OF sa] t0 lt px_idle_le by (auto simp: elapses_def)
  obtain w3 where g: "GetSession E M (s_ID s) w2 = (Inr (s'\<lparr>s_ID := s_ID s\<rparr>), w3)"
    using GetSession_total [OF k' u(1)] u(2) t by auto
  have get: "GetSession E M (s_ID s) w2 = (Inr s, w3)"
    using created_then_get(1) [OF cs utf el g lt] g by simp
  obtain w4 where "TouchSession E M s w3 = (Inr (), w4)"
    using TouchSession_total [of s w3] GetSession_ok(1) [OF get] t f(5) by auto
  moreover have "csrf \<noteq> ''''"
    by (rule randomToken_ok [OF csrf]) (auto simp: length_token_of tokenBytes_def simp flip: length_greater_0_conv)
  ultimately show thesis using that get f by simp
qed

lemma created_then_looked_up:
  assumes cs: "CreateSession E M ident w = (Inr s, w')"
    and utf: "utf8_text (i_UserID ident)" "utf8_text (i_Username ident)" "utf8_text (i_Role ident)"
    and el: "elapses now kv w' w2" and get: "GetSession E M (s_ID s) w2 = (x, w3)"
  shows "x = (if now w2 < now w + px idle then Inr s else Inl (Leaf ErrSessionNotFound))"
proof (cases "now w2 < now w + px idle")
  case True
  then show ?thesis using created_then_served [OF cs utf el] get by auto
next
  case False
  obtain w0 raw where k0: "kv w0 = (kv w)(sessionKey (s_ID s) \<mapsto> (VStr raw, Some (now w + px idle)))"
      and sa: "ss_SAdd S (userSessionsKey (i_UserID ident)) (s_ID s) life w0 = (Inr (), w')"
    by (rule CreateSession_ok [OF cs])
  have "kv w2 (sessionKey (s_ID s)) = None"
    using SAdd_frame(2) [OF sa, of "sessionKey (s_ID s)"] k0 el False by (simp add: elapses_def live_at_def)
  from GetSession_none [OF this] False show ?thesis using get by auto
qed

end

definition steady_redis_sessions ::
    "'w redis \<Rightarrow> 'w env \<Rightarrow> ('w \<Rightarrow> Time) \<Rightarrow> ('w \<Rightarrow> keyspace) \<Rightarrow> Duration \<Rightarrow> Duration \<Rightarrow> bool" where
  "steady_redis_sessions R E now kv idle life \<longleftrightarrow>
     redis_sessions R E now kv idle life \<and> reliable_redis R now kv \<and> steady_env E"

lemma steady_session_manager:
  assumes "steady_redis_sessions R E now kv idle life"
  shows "steady_sessions (client_SessionStore R) IsMiss now kv E idle life"
  using assms redis_session_manager [of R E now kv idle life] reliable_redis.is_steady_session_store [of R now kv]
  by (simp add: steady_redis_sessions_def steady_sessions_def)

lemma mem_steady:
  assumes "0 < idle" "idle \<le> life" "life < 2 ^ 63 - 1" "Millisecond dvd life"
  shows "steady_redis_sessions mem_redis mem_env mem_now mem_kv idle life"
  using mem_redis_sessions [OF assms] mem.reliable_redis_axioms mem_env.steady_env_axioms
  by (simp add: steady_redis_sessions_def)

text \<open>
  C27: the idle window. A session that was created, looked up again after nothing but the passing
  of time, is returned exactly as it was created as long as less than the idle window (in the
  milliseconds that Redis keeps) has passed, and is reported missing from then on, when Redis answers.
  When Redis may fail the lookup may fail with another error, but it never returns anything else,
  never reports a session within its window as missing or expired, and never returns one after it.
\<close>

theorem created_session_lookup:
  assumes "redis_sessions R E now kv idle life"
    and "CreateSession E (redis_Manager R now idle life) ident w = (Inr s, w')"
    and "utf8_text (i_UserID ident)" "utf8_text (i_Username ident)" "utf8_text (i_Role ident)"
    and "elapses now kv w' w2"
    and "GetSession E (redis_Manager R now idle life) (s_ID s) w2 = (x, w3)"
  shows "(if now w2 < now w + px idle
      then (\<forall>y. x = Inr y \<longrightarrow> y = s) \<and> x \<noteq> Inl (Leaf ErrSessionNotFound) \<and> x \<noteq> Inl (Leaf ErrSessionExpired)
      else (\<forall>y. x \<noteq> Inr y)) \<and>
    (reliable_redis R now kv \<and> steady_env E \<longrightarrow>
      x = (if now w2 < now w + px idle then Inr s else Inl (Leaf ErrSessionNotFound)))"
proof -
  have "x = (if now w2 < now w + px idle then Inr s else Inl (Leaf ErrSessionNotFound))"
    if "reliable_redis R now kv \<and> steady_env E"
  proof -
    have "steady_redis_sessions R E now kv idle life" using assms(1) that by (simp add: steady_redis_sessions_def)
    from steady_sessions.created_then_looked_up [OF steady_session_manager [OF this] assms(2-7)] show ?thesis .
  qed
  then show ?thesis
    using session_manager.created_then_get [OF redis_session_manager [OF assms(1)] assms(2-7)] by simp
qed

theorem created_session_lookup_witness:
  "fst (GetSession mem_env mem_mgr (s_ID mem_session) (mem_later (1799 * Second) mem_in)) = Inr mem_session \<and>
   fst (GetSession mem_env mem_mgr (s_ID mem_session) (mem_later (1800 * Second) mem_in)) = Inl (Leaf ErrSessionNotFound)"
proof -
  note c = created_session_lookup [OF mem_setup, folded mem_mgr_def, OF mem_login_ok _ _ _
      mem_later_elapses prod.collapse [symmetric]]
  have t: "mem_now mem_in = 0" by code_simp
  have u: "utf8_text (i_UserID alice)" "utf8_text (i_Username alice)" "utf8_text (i_Role alice)"
    by code_simp+
  show ?thesis
    using c [OF u, of "1799 * Second"] c [OF u, of "1800 * Second"]
    by (simp add: t mem_later_def px_def mem.reliable_redis_axioms mem_env.steady_env_axioms)
qed

interpretation mem_steady: steady_sessions "client_SessionStore mem_redis" IsMiss mem_now mem_kv mem_env
    "1800 * Second" "43200 * Second"
  by (rule steady_session_manager, rule mem_steady) simp_all

end
