(* ===== verification/Api_Sessions.thy ===== *)
theory Api_Sessions
  imports Api_Auth Session_Progress
begin

text \<open>
  What the authentication endpoints do to the sessions: the handlers of \<^verbatim>\<open>auth.go\<close> and
  \<^verbatim>\<open>auth_password.go\<close> are histories of session operations, so the facts about reachable states of the
  session store hold across them.
\<close>

section \<open>A server over a session store\<close>

text \<open>The server works with a session manager on Redis and a user store that leaves Redis alone.\<close>

definition api_sessions ::
    "'w redis \<Rightarrow> 'w pkgs \<Rightarrow> 'w Server \<Rightarrow> 'w userStore \<Rightarrow> ('w \<Rightarrow> Time) \<Rightarrow> ('w \<Rightarrow> keyspace) \<Rightarrow>
     Duration \<Rightarrow> Duration \<Rightarrow> bool" where
  "api_sessions R K s U now kv idle life \<longleftrightarrow>
     redis_sessions R (pk_env K) now kv idle life \<and> calm_store U (quiet now kv) \<and>
     sv_sessions s = Some (redis_Manager R now idle life) \<and> sv_users s = Some U"

lemma fresh_id_mono:
  "fresh_id ks I sid \<Longrightarrow> (\<And>k e. ks' k = Some e \<Longrightarrow> ks k = Some e) \<Longrightarrow> fresh_id ks' I sid"
  unfolding fresh_id_def by blast

locale session_api = session_manager S isMiss now kv "pk_env K" idle life + calm_store U "quiet now kv"
  for S :: "'w SessionStore" and isMiss and now :: "'w \<Rightarrow> Time" and kv and K :: "'w pkgs"
    and idle life :: Duration and U :: "'w userStore" +
  fixes s :: "'w Server"
  assumes server_sessions: "sv_sessions s = Some (NewManager S isMiss idle life now)"
    and server_users: "sv_users s = Some U"
begin

lemma server_simps [simp]: "with_sessions s f w = f M w" "with_users s g w = g U w"
  by (simp_all add: with_sessions_def with_users_def server_sessions server_users)

lemma revokeRequestSession_cases:
  "revokeRequestSession s ro w = w \<or> (\<exists>sid. revokeRequestSession s ro w = snd (DeleteSession M sid w))"
  by (auto simp: revokeRequestSession_def split: option.split)

lemma revokeRequestSession_reach:
  assumes "session_reach (pk_env K) M now kv I w"
  shows "session_reach (pk_env K) M now kv I (revokeRequestSession s ro w)"
proof (cases "revokeRequestSession s ro w = w")
  case False
  then obtain sid where d: "revokeRequestSession s ro w = snd (DeleteSession M sid w)"
    using revokeRequestSession_cases [of ro w] by blast
  have "session_step (pk_env K) M now kv (I, w) (I, snd (DeleteSession M sid w))"
    by (rule session_step.logout [OF surjective_pairing])
  with session_reach.more [OF assms] d show ?thesis by simp
qed (use assms in simp)

lemma revokeRequestSession_frame:
  "now (revokeRequestSession s ro w) = now w \<and>
   (\<forall>k e. kv (revokeRequestSession s ro w) k = Some e \<longrightarrow> kv w k = Some e)"
proof (cases "revokeRequestSession s ro w = w")
  case False
  then obtain sid where "revokeRequestSession s ro w = snd (DeleteSession M sid w)"
    using revokeRequestSession_cases [of ro w] by blast
  with DeleteSession_effect(1,2) [OF surjective_pairing, of sid w] show ?thesis
    by (auto split: if_splits)
qed simp

lemma startSession_ok:
  assumes "startSession K s ctx user code w = (Inr (resp, sess), w')"
  shows "CreateSession (pk_env K) M \<lparr>i_UserID = ID user, i_Username = Username user, i_Role = Role user\<rparr>
      (revokeRequestSession s (requestFrom ctx) w) = (Inr sess, w')"
    and "map ck_Value (as_cookies resp) = [s_ID sess, s_CSRFToken sess]"
  using assms
  by (auto simp: startSession_def Let_def sessionCookie_def csrfCookie_def split: prod.splits sum.splits)

lemma startSession_token:
  assumes "startSession K s ctx user code w = (Inr (resp, sess), w')"
  shows "set (ck_Value (hd (as_cookies resp))) \<subseteq> set base64url_alphabet"
proof -
  obtain w0 w1 where "randomToken (pk_env K) w0 = (Inr (s_ID sess), w1)"
    by (rule CreateSession_ok [OF startSession_ok(1) [OF assms]])
  then obtain b where "s_ID sess = token_of b" by (rule randomToken_ok)
  then show ?thesis using startSession_ok(2) [OF assms] set_token_of [of b] by auto
qed

lemma CreateSession_fields:
  assumes "CreateSession (pk_env K) M ident w = (Inr sess, w')"
  shows "s_UserID sess = i_UserID ident" "s_Username sess = i_Username ident" "s_Role sess = i_Role ident"
  using assms by (auto simp: CreateSession_def Let_def split: prod.splits sum.splits)

lemma startSession_reach:
  assumes st: "startSession K s ctx user code w = (Inr (resp, sess), w')"
    and reach: "session_reach (pk_env K) M now kv I w" and fresh: "fresh_id (kv w) I (s_ID sess)"
  shows "session_reach (pk_env K) M now kv (I(s_ID sess \<mapsto> (ID user, now w))) w'"
proof -
  let ?w1 = "revokeRequestSession s (requestFrom ctx) w"
  have fr: "fresh_id (kv ?w1) I (s_ID sess)"
    by (rule fresh_id_mono [OF fresh]) (use revokeRequestSession_frame in blast)
  have "session_step (pk_env K) M now kv (I, ?w1) (I(s_ID sess \<mapsto> (ID user, now ?w1)), w')"
    using session_step.login [where now = now and kv = kv, OF startSession_ok(1) [OF st] fr] by simp
  then show ?thesis
    using session_reach.more [OF revokeRequestSession_reach [OF reach, of "requestFrom ctx"]]
    using conjunct1 [OF revokeRequestSession_frame] by simp
qed

end

lemma session_api_setup:
  assumes "api_sessions R K s U now kv idle life"
  shows "session_api (client_SessionStore R) IsMiss now kv K idle life U s"
  using assms redis_session_manager [of R "pk_env K" now kv idle life]
  by (simp add: api_sessions_def session_api_def session_api_axioms_def)

lemma app_api: "api_sessions mem_redis app_pkgs app_server (store_userStore mem_pg mem_rt) mem_now mem_kv
    (1800 * Second) (43200 * Second)"
  using app_setup app_calm.store_calm by (simp add: api_sessions_def app_mgr_def)

interpretation app_api: session_api "client_SessionStore mem_redis" IsMiss mem_now mem_kv app_pkgs
    "1800 * Second" "43200 * Second" "store_userStore mem_pg mem_rt" app_server
  by (rule session_api_setup [OF app_api])

section \<open>Password change and reset\<close>

context session_api
begin

lemma RevokeUserSessions_time: "RevokeUserSessions M uid ex w = (x, w') \<Longrightarrow> now w' = now w"
  by (erule RevokeUserSessions_run) auto

lemma RevokeUserSessions_keys:
  assumes "RevokeUserSessions M uid ex w = (x, w')"
  shows "kv w' k = kv w k \<or> kv w' k = None"
  using assms
proof (cases rule: RevokeUserSessions_run)
  case (2 ids w1 w2 y)
  then show ?thesis using revoke_loop_effect(2) [OF 2(4), of k] by (auto split: if_splits)
qed simp

lemma HashPassword_quiet: "HashPassword (pk_env K) p cost w = (h, w') \<Longrightarrow> quiet now kv w w'"
  using HashPassword_frame by (simp add: quiet_def)

text \<open>A revocation in a reachable state, and the state after it.\<close>

lemma revoke_reach:
  assumes "RevokeUserSessions M uid ex w = (Inr (), w')" and "session_reach (pk_env K) M now kv I w"
  shows "session_reach (pk_env K) M now kv I w'"
    and "I sid = Some (uid, c) \<Longrightarrow> sid \<noteq> ex \<Longrightarrow> now w' < c + life \<Longrightarrow> kv w' (sessionKey sid) = None"
    and "I ex = Some (uid, c) \<Longrightarrow> kv w' (sessionKey ex) = kv w (sessionKey ex)"
proof -
  have wf: "sessions_wf (pk_env K) life (now w) (kv w) I" using session_reach_wf [OF assms(2)] by simp
  show "session_reach (pk_env K) M now kv I w'"
    by (rule session_reach.more [OF assms(2)]) (rule session_step.revoke [OF assms(1)])
  show "kv w' (sessionKey sid) = None" if "I sid = Some (uid, c)" "sid \<noteq> ex" "now w' < c + life"
    using RevokeUserSessions_gone [OF assms(1) wf that(1,2)] RevokeUserSessions_time [OF assms(1)] that(3) by simp
  show "kv w' (sessionKey ex) = kv w (sessionKey ex)" if "I ex = Some (uid, c)"
    using RevokeUserSessions_other [OF assms(1) wf that] by simp
qed

lemma CreateSession_stored:
  assumes "CreateSession (pk_env K) M ident w = (Inr sess, w')"
  shows "kv w' (sessionKey (s_ID sess)) \<noteq> None" and "now w' = now w"
proof -
  obtain w3 raw where c: "now w3 = now w" "kv w3 (sessionKey (s_ID sess)) = Some (VStr raw, Some (now w + px idle))"
      "ss_SAdd S (userSessionsKey (i_UserID ident)) (s_ID sess) life w3 = (Inr (), w')"
    by (rule CreateSession_ok [OF assms]) (metis fun_upd_same)
  show "now w' = now w" using SAdd_frame(1) [OF c(3)] c(1) by simp
  show "kv w' (sessionKey (s_ID sess)) \<noteq> None" using SAdd_frame(2) [OF c(3), of "sessionKey (s_ID sess)"] c(2) by simp
qed

text \<open>The first session of all is the only one its user's index lists.\<close>

lemma CreateSession_index:
  assumes "CreateSession (pk_env K) M ident w = (Inr sess, w')"
    and "\<And>u. kv w (userSessionsKey u) = None" and "kv w' (userSessionsKey uid) = Some (VSet ms, d)"
  shows "set ms \<subseteq> {s_ID sess}"
proof -
  obtain w3 where none: "\<And>u. kv w3 (userSessionsKey u) = None"
      and sa: "ss_SAdd S (userSessionsKey (i_UserID ident)) (s_ID sess) life w3 = (Inr (), w')"
    by (rule CreateSession_ok [OF assms(1)]) (metis assms(2) fun_upd_other sessionKey_neq_user)
  have "uid = i_UserID ident"
    using SAdd_frame(2) [OF sa, of "userSessionsKey uid"] none [of uid] assms(3) by auto
  then show ?thesis
    using SAdd_ok [OF sa life_pos, of "[]"] none assms(3) by (auto split: if_splits)
qed

lemma PostAuthPasswordChange_run:
  assumes "PostAuthPasswordChange K s ctx (Some b) w = (Inr (PostAuthPasswordChange_passwordChangeResponse resp), w')"
    and "sessionFrom ctx = Some sess"
  obtains user w1 hash w2 w3 new w4 where "us_UserByID U (s_UserID sess) w = (Inr user, w1)"
    and "CheckPassword (pk_env K) (PasswordHash user) (PasswordChangeRequest_CurrentPassword b)"
    and "HashPassword (pk_env K) (PasswordChangeRequest_NewPassword b) (st_BcryptCost (sv_authSettings s)) w1 = (Inr hash, w2)"
    and "us_UpdatePassword U (ID user) hash w2 = (Inr (), w3)"
    and "startSession K s ctx (User.truncate user) 200 w3 = (Inr (resp, new), w4)"
    and "RevokeUserSessions M (ID user) (s_ID new) w4 = (Inr (), w')"
  using assms
  by (auto simp: PostAuthPasswordChange_def Let_def split: prod.splits sum.splits if_splits)

lemma PostAuthPasswordReset_run:
  assumes "PostAuthPasswordReset K s (Some b) w = (Inr (PostAuthPasswordReset200JSONResponse m), w')"
    and "sv_recovery s = Some recovery"
  obtains uid w1 hash w2 w3 where "ConsumeResetToken recovery (PasswordResetRequest_Token b) w = (Inr uid, w1)"
    and "HashPassword (pk_env K) (PasswordResetRequest_NewPassword b) (st_BcryptCost (sv_authSettings s)) w1 = (Inr hash, w2)"
    and "us_UpdatePassword U uid hash w2 = (Inr (), w3)"
    and "RevokeUserSessions M uid '''' w3 = (Inr (), w')"
  using assms
  by (auto simp: PostAuthPasswordReset_def split: prod.splits sum.splits if_splits)

end

section \<open>The handlers succeed when the services answer\<close>

locale steady_api = session_api S isMiss now kv K idle life U s +
    steady_sessions S isMiss now kv "pk_env K" idle life
  for S :: "'w SessionStore" and isMiss and now :: "'w \<Rightarrow> Time" and kv and K :: "'w pkgs"
    and idle life :: Duration and U :: "'w userStore" and s :: "'w Server"
begin

lemma startSession_total:
  assumes "session_reach (pk_env K) M now kv I w" and "uuid_Parse K (ID user) = Inr i"
  shows "\<exists>resp sess w'. startSession K s ctx user code w = (Inr (resp, sess), w')"
proof -
  let ?w1 = "revokeRequestSession s (requestFrom ctx) w"
  have "sessions_wf (pk_env K) life (now ?w1) (kv ?w1) I"
    using session_reach_wf [OF revokeRequestSession_reach [OF assms(1)]] by blast
  from CreateSession_total [OF index_shape [OF this]]
  obtain sess w' where "CreateSession (pk_env K) M
      \<lparr>i_UserID = ID user, i_Username = Username user, i_Role = Role user\<rparr> ?w1 = (Inr sess, w')" by blast
  then show ?thesis using assms(2) by (simp add: startSession_def Let_def userResponse_def)
qed

lemma PostAuthPasswordChange_total:
  assumes reach: "session_reach (pk_env K) M now kv I w" and sess: "sessionFrom ctx = Some sess"
    and set: "PasswordChangeRequest_CurrentPassword b \<noteq> []" "PasswordChangeRequest_NewPassword b \<noteq> []"
    and user: "us_UserByID U (s_UserID sess) w = (Inr user, w1)"
    and pw: "CheckPassword (pk_env K) (PasswordHash user) (PasswordChangeRequest_CurrentPassword b)"
    and hash: "HashPassword (pk_env K) (PasswordChangeRequest_NewPassword b) (st_BcryptCost (sv_authSettings s)) w1 = (Inr h, w2)"
    and upd: "us_UpdatePassword U (ID user) h w2 = (Inr (), w3)"
    and parse: "uuid_Parse K (ID user) = Inr i"
    and fresh: "\<And>sid w4. randomToken (pk_env K) (revokeRequestSession s (requestFrom ctx) w3) = (Inr sid, w4) \<Longrightarrow>
        fresh_id (kv w) I sid"
  obtains resp new w' where "PostAuthPasswordChange K s ctx (Some b) w = (Inr (PostAuthPasswordChange_passwordChangeResponse resp), w')"
    "now w' = now w3" "fresh_id (kv w) I (ck_Value (hd (as_cookies resp)))"
proof -
  have q: "quiet now kv w w3"
    using UserByID_calm [OF user] HashPassword_quiet [OF hash] UpdatePassword_calm [OF upd] by (blast intro: quiet_trans)
  note r3 = session_reach_quiet [OF reach q]
  obtain resp new w4 where st: "startSession K s ctx (User.truncate user) 200 w3 = (Inr (resp, new), w4)"
    using startSession_total [OF r3, of "User.truncate user" i ctx 200] parse by (auto simp: User.truncate_def)
  note ok = startSession_ok [OF st]
  have id: "fresh_id (kv w) I (s_ID new)"
    by (rule CreateSession_ok [OF ok(1)]) (use fresh in blast)
  have "fresh_id (kv w3) I (s_ID new)" by (rule fresh_id_mono [OF id]) (rule quiet_keys [OF q])
  from session_reach_wf [OF startSession_reach [OF st r3 this]]
  obtain w' where rv: "RevokeUserSessions M (ID user) (s_ID new) w4 = (Inr (), w')"
    using RevokeUserSessions_total [of w4 "ID user" "s_ID new"] index_shape [where ks = "kv w4"] by blast
  have "PostAuthPasswordChange K s ctx (Some b) w = (Inr (PostAuthPasswordChange_passwordChangeResponse resp), w')"
    using sess set user pw hash upd st rv by (simp add: PostAuthPasswordChange_def Let_def)
  moreover have "ck_Value (hd (as_cookies resp)) = s_ID new" using ok(2) by auto
  moreover have "now w' = now w3"
    using RevokeUserSessions_time [OF rv] CreateSession_stored(2) [OF ok(1)] revokeRequestSession_frame by simp
  ultimately show thesis using that id by metis
qed

lemma PostAuthPasswordReset_total:
  assumes rec: "sv_recovery s = Some recovery" and "PasswordResetRequest_Token b \<noteq> []" "PasswordResetRequest_NewPassword b \<noteq> []"
    and tok: "ConsumeResetToken recovery (PasswordResetRequest_Token b) w = (Inr uid, w1)"
    and reach: "session_reach (pk_env K) M now kv I w1"
    and hash: "HashPassword (pk_env K) (PasswordResetRequest_NewPassword b) (st_BcryptCost (sv_authSettings s)) w1 = (Inr h, w2)"
    and upd: "us_UpdatePassword U uid h w2 = (Inr (), w3)"
  obtains m w' where "PostAuthPasswordReset K s (Some b) w = (Inr (PostAuthPasswordReset200JSONResponse m), w')"
    "now w' = now w3"
proof -
  have q: "quiet now kv w1 w3"
    using HashPassword_quiet [OF hash] UpdatePassword_calm [OF upd] by (rule quiet_trans)
  from session_reach_wf [OF session_reach_quiet [OF reach q]]
  obtain w' where rv: "RevokeUserSessions M uid [] w3 = (Inr (), w')"
    using RevokeUserSessions_total [of w3 uid] index_shape [where ks = "kv w3"] by blast
  show thesis
    by (rule that [OF _ RevokeUserSessions_time [OF rv]]) (use assms rv in \<open>simp add: PostAuthPasswordReset_def\<close>)
qed

end

interpretation app_steady: steady_api "client_SessionStore mem_redis" IsMiss mem_now mem_kv app_pkgs
    "1800 * Second" "43200 * Second" "store_userStore mem_pg mem_rt" app_server
  by (rule steady_api.intro) (use app_api.session_api_axioms mem_steady.steady_sessions_axioms in \<open>simp_all\<close>)

section \<open>Login\<close>

text \<open>A login that succeeded: the user was found, the password was right, a session was started.\<close>

lemma PostAuthLogin_run:
  assumes "PostAuthLogin K s ctx (Some b) w = (Inr (PostAuthLogin_authSuccessResponse resp), w')"
    and "sv_users s = Some U"
  obtains d w1 user w2 w3 sess where
    "locked_out s (TrimSpace (LoginRequest_Username b)) (originIP (requestFrom ctx)) w = ((False, d), w1)"
    "us_UserByUsername U (TrimSpace (LoginRequest_Username b)) w1 = (Inr user, w2)"
    "CheckPassword (pk_env K) (PasswordHash user) (LoginRequest_Password b)"
    "startSession K s ctx (User.truncate user) 200 w3 = (Inr (resp, sess), w')"
proof -
  let ?u = "TrimSpace (LoginRequest_Username b)"
  obtain lo d w1 where l: "locked_out s ?u (originIP (requestFrom ctx)) w = ((lo, d), w1)" by (metis surj_pair)
  obtain found w2 where f: "us_UserByUsername U ?u w1 = (found, w2)" by fastforce
  define w3 where "w3 = (case sv_lockout s of None \<Rightarrow> w2 | Some l \<Rightarrow> Reset l ?u (originIP (requestFrom ctx)) w2)"
  obtain user where user: "lo = False" "found = Inr user" "CheckPassword (pk_env K) (PasswordHash user) (LoginRequest_Password b)"
    using assms l f
    by (auto simp: PostAuthLogin_def Let_def with_users_def split: if_splits bool.splits sum.splits)
  obtain x w4 where st: "startSession K s ctx (User.truncate user) 200 w3 = (x, w4)" by fastforce
  have "\<exists>sess. x = Inr (resp, sess) \<and> w4 = w'"
    using assms l f user st
    by (auto simp: PostAuthLogin_def Let_def with_users_def w3_def [symmetric] split: if_splits bool.splits sum.splits)
  then show thesis using that l f user st by blast
qed

lemma PostAuthLogin_ok:
  assumes "locked_out s (TrimSpace (LoginRequest_Username b)) (originIP (requestFrom ctx)) w = ((False, d), w1)"
    and "TrimSpace (LoginRequest_Username b) \<noteq> []" "LoginRequest_Password b \<noteq> []"
    and "sv_users s = Some U" "us_UserByUsername U (TrimSpace (LoginRequest_Username b)) w1 = (Inr user, w2)"
    and "CheckPassword (pk_env K) (PasswordHash user) (LoginRequest_Password b)"
    and "w3 = (case sv_lockout s of None \<Rightarrow> w2
      | Some l \<Rightarrow> Reset l (TrimSpace (LoginRequest_Username b)) (originIP (requestFrom ctx)) w2)"
    and "startSession K s ctx (User.truncate user) 200 w3 = (Inr (resp, sess), w')"
  shows "PostAuthLogin K s ctx (Some b) w = (Inr (PostAuthLogin_authSuccessResponse resp), w')"
  using assms by (simp add: PostAuthLogin_def Let_def with_users_def)

lemma startSession_cookies:
  assumes "startSession K s ctx user code w = (Inr (resp, sess), w')"
  shows "as_cookies resp = [sessionCookie s (requestFrom ctx) (s_ID sess) (max_age (st_SessionAbsoluteTTL (sv_authSettings s))),
    csrfCookie s (requestFrom ctx) (s_CSRFToken sess) (max_age (st_SessionAbsoluteTTL (sv_authSettings s)))]"
  using assms by (auto simp: startSession_def Let_def split: prod.splits sum.splits)

context steady_api
begin

lemma started_session_served:
  assumes st: "startSession K s ctx user code w = (Inr (resp, sess), w')"
    and utf: "utf8_text (ID user)" "utf8_text (Username user)" "utf8_text (Role user)"
    and el: "elapses now kv w' x" and lt: "now x < now w' + px idle"
    and op: "operationID \<in> set sessionProtectedOps" "roleProtectedOps operationID \<in> {None, Some (Role user)}"
    and ck: "Cookie r (st_SessionCookieName (sv_authSettings s)) = Some (s_ID sess)"
    and cs: "Header_Get (Header r) csrfHeaderKey = s_CSRFToken sess"
  shows "\<exists>x'. authMiddleware K s next operationID ctx' wr r x = next (withSession ctx' sess) wr r x'"
proof -
  note c = startSession_ok(1) [OF st]
  have t: "now w' = now (revokeRequestSession s (requestFrom ctx) w)" by (rule CreateSession_stored(2) [OF c])
  obtain w3 w4 where "GetSession (pk_env K) M (s_ID sess) x = (Inr sess, w3)"
      "TouchSession (pk_env K) M sess w3 = (Inr (), w4)" "s_Role sess = Role user" "s_CSRFToken sess \<noteq> []"
    by (rule created_then_served [OF c _ _ _ el]) (use utf lt t in auto)
  then show ?thesis
    using op ck cs CreateSession_id_nonempty [OF c]
    by (auto simp: authMiddleware_def loadSession_def ValidCSRFToken_def ConstantTimeCompare_eq split: option.splits)
qed

end

section \<open>A client that returns its cookies\<close>

lemma TrimString_id:
  assumes "\<forall>c \<in> set s. \<not> ascii_space c"
  shows "TrimString s = s"
proof -
  have "dropWhile ascii_space t = t" if "set t = set s" for t
    using assms that hd_in_set [of t] by (auto simp: dropWhile_eq_self_iff)
  then show ?thesis by (simp add: TrimString_def)
qed

lemma token_char_facts: "token_char c \<Longrightarrow> c \<noteq> CHR ''='' \<and> c \<noteq> CHR '';'' \<and> \<not> ascii_space c"
  by (auto simp: token_char_def ascii_space_def)

lemma base64url_cookie: "c \<in> set base64url_alphabet \<Longrightarrow> validCookieValueByte c \<and> \<not> ascii_space c"
  by (auto simp: base64url_alphabet_def validCookieValueByte_def ascii_space_def)

lemma Cookie_returned:
  assumes name: "isToken name" and v: "set v \<subseteq> set base64url_alphabet"
    and h: "Header r ''Cookie'' = Some [name @ ''='' @ v]"
  shows "Cookie r name = Some v"
proof -
  let ?p = "name @ ''='' @ v"
  have n: "c \<noteq> CHR ''=''" "c \<noteq> CHR '';''" "\<not> ascii_space c" if "c \<in> set name" for c
    using name token_char_facts that by (auto simp: isToken_def list_all_iff)
  have w: "validCookieValueByte c" "\<not> ascii_space c" if "c \<in> set v" for c
    using base64url_cookie that v by blast+
  have trim: "TrimString ?p = ?p" "TrimString name = name"
    using n w by (auto intro!: TrimString_id) (auto simp: ascii_space_def)
  have "CHR '';'' \<notin> set ?p" using n w by (auto simp: validCookieValueByte_def)
  then have one: "split_on (CHR '';'') ?p = [?p]" by (rule split_on_single)
  have "takeWhile (\<lambda>c. c \<noteq> CHR ''='') ?p = name" "dropWhile (\<lambda>c. c \<noteq> CHR ''='') ?p = ''='' @ v"
    using n by (auto simp: takeWhile_append2 dropWhile_append2)
  moreover have "hd v \<noteq> CHR 0x22" if "v \<noteq> []"
    using w(1) [of "hd v"] that by (auto simp: validCookieValueByte_def)
  then have "parseCookieValue v = Some v"
    using w by (cases "v = []") (auto simp: parseCookieValue_def Let_def list_all_iff)
  ultimately have "cookie_part name ?p = Some v" using name trim by (simp add: cookie_part_def Let_def isToken_def)
  moreover have "name \<noteq> []" using name by (simp add: isToken_def)
  ultimately show ?thesis using h trim one by (simp add: Cookie_def map_filter_simps)
qed

section \<open>A user with a session\<close>

definition app_session :: Session where
  "app_session = projr (fst (CreateSession mem_env app_mgr
     \<lparr>i_UserID = uuidString (mem_uuid 1), i_Username = ''alice'', i_Role = ''user''\<rparr> app_alice))"

definition app_in :: appmem where
  "app_in = snd (CreateSession mem_env app_mgr
     \<lparr>i_UserID = uuidString (mem_uuid 1), i_Username = ''alice'', i_Role = ''user''\<rparr> app_alice)"

definition app_issued :: issued where
  "app_issued = Map.empty(s_ID app_session \<mapsto> (uuidString (mem_uuid 1), 0))"

lemma app_login: "CreateSession mem_env app_mgr
    \<lparr>i_UserID = uuidString (mem_uuid 1), i_Username = ''alice'', i_Role = ''user''\<rparr> app_alice = (Inr app_session, app_in)"
proof -
  have "\<not> isl (fst (CreateSession mem_env app_mgr
      \<lparr>i_UserID = uuidString (mem_uuid 1), i_Username = ''alice'', i_Role = ''user''\<rparr> app_alice))" by code_simp
  then show ?thesis by (simp add: app_session_def app_in_def prod_eq_iff)
qed

lemma app_alice_kv: "mem_kv app_alice = Map.empty" "mem_now app_alice = 0"
proof -
  have "quiet mem_now mem_kv app_start app_alice"
    using app_calm.RegisterUser_calm [of new_alice app_start _ app_alice]
    by (simp add: store_userStore_def app_alice_def prod_eq_iff)
  moreover have "mem_kv app_start = Map.empty" by (simp add: mem_kv_def app_start_def live_at_def fun_eq_iff)
  ultimately show "mem_kv app_alice = Map.empty"
    by (auto simp: quiet_def elapses_def live_at_def fun_eq_iff)
  show "mem_now app_alice = 0" by code_simp
qed

lemma app_reach: "session_reach mem_env app_mgr mem_now mem_kv app_issued app_in"
proof (rule session_reach.more)
  show "session_reach mem_env app_mgr mem_now mem_kv Map.empty app_alice"
    by (rule session_reach.start) (simp add: app_alice_kv)
  show "session_step mem_env app_mgr mem_now mem_kv (Map.empty, app_alice) (app_issued, app_in)"
    using session_step.login [OF app_login, of mem_kv Map.empty mem_now]
    by (simp add: app_alice_kv fresh_id_def app_issued_def)
qed

lemma app_fresh:
  assumes "sid \<noteq> s_ID app_session"
  shows "fresh_id (mem_kv app_in) app_issued sid"
proof -
  have "sid \<notin> set ms" if "mem_kv app_in (userSessionsKey uid) = Some (VSet ms, d)" for uid ms d
    using app_api.CreateSession_index [OF app_login [unfolded app_mgr_def, folded app_pkgs_env] _ that] assms
    by (auto simp: app_alice_kv)
  then show ?thesis using assms by (simp add: fresh_id_def app_issued_def)
qed

definition app_user :: UserWithHash where
  "app_user = projr (fst (UserByID mem_pg (uuidString (mem_uuid 1)) app_in))"

lemma app_user_found: "us_UserByID (store_userStore mem_pg mem_rt) (s_UserID app_session) app_in = (Inr app_user, app_in)"
proof -
  have "\<not> isl (fst (UserByID mem_pg (uuidString (mem_uuid 1)) app_in))" by code_simp
  moreover have "s_UserID app_session = uuidString (mem_uuid 1)" by code_simp
  moreover have "snd (UserByID mem_pg x w) = w" for x and w :: appmem
    by (simp add: UserByID_def pool_query_def GetUserByID_def sent_def mem_pg_def split: sum.splits prod.splits option.splits)
  ultimately show ?thesis by (simp add: app_user_def store_userStore_def prod_eq_iff)
qed

lemma app_user_facts: "ID app_user = uuidString (mem_uuid 1)" "PasswordHash app_user = ''$2a$pw''"
    "uuid_Parse app_pkgs (ID app_user) = Inr (u_Bytes (mem_uuid 1))"
  by code_simp+

lemma app_update:
  "fst (us_UpdatePassword (store_userStore mem_pg mem_rt) (ID app_user) ''$2a$new'' app_in) = Inr ()"
  "mem_seed (snd (us_UpdatePassword (store_userStore mem_pg mem_rt) (ID app_user) ''$2a$new'' app_in)) = 9"
  "mem_now (snd (us_UpdatePassword (store_userStore mem_pg mem_rt) (ID app_user) ''$2a$new'' app_in)) = 0"
  by code_simp+

lemma app_alice_seed: "mem_seed app_alice = 7"
  by code_simp

definition app_new_password :: PasswordChangeRequest where
  "app_new_password = \<lparr>PasswordChangeRequest_CurrentPassword = ''pw'', PasswordChangeRequest_NewPassword = ''new''\<rparr>"

lemma mem_env_token: "randomToken mem_env w = (Inr (token_of (map (\<lambda>i. word_of_nat (if i = 0 then mem_seed w else i))
    [0..<tokenBytes])), w\<lparr>mem_seed := Suc (mem_seed w)\<rparr>)"
  by (simp add: randomToken_def mem_env_def)

lemma mem_token_inject:
  assumes "fst (randomToken mem_env w) = fst (randomToken mem_env w')"
  shows "(word_of_nat (mem_seed w) :: 8 word) = word_of_nat (mem_seed w')"
  using assms by (simp add: mem_env_token token_of_inject tokenBytes_def upt_rec)

lemma app_session_token: "fst (randomToken mem_env app_alice) = Inr (s_ID app_session)"
  by (rule app_api.CreateSession_ok [unfolded app_pkgs_env, folded app_mgr_def, OF app_login]) simp

definition app_open :: "appmem Server" where
  "app_open = app_server\<lparr>sv_lockout := None\<rparr>"

definition alice_credentials :: LoginRequest where
  "alice_credentials = \<lparr>LoginRequest_Password = ''pw'', LoginRequest_Username = '' alice''\<rparr>"

definition app_by_name :: UserWithHash where
  "app_by_name = projr (fst (UserByUsername mem_pg ''alice'' app_alice))"

lemma app_by_name_found: "us_UserByUsername (store_userStore mem_pg mem_rt) ''alice'' app_alice = (Inr app_by_name, app_alice)"
proof -
  have "\<not> isl (fst (UserByUsername mem_pg ''alice'' app_alice))" by code_simp
  moreover have "snd (UserByUsername mem_pg x w) = w" for x and w :: appmem
    by (simp add: UserByUsername_def pool_query_def GetUserByUsername_def sent_def mem_pg_def
      split: sum.splits prod.splits option.splits)
  ultimately show ?thesis by (simp add: app_by_name_def store_userStore_def prod_eq_iff)
qed

lemma app_by_name_facts: "ID app_by_name = uuidString (mem_uuid 1)" "PasswordHash app_by_name = ''$2a$pw''"
    "Username app_by_name = ''alice''" "Role app_by_name = ''user''"
    "uuid_Parse app_pkgs (ID app_by_name) = Inr (u_Bytes (mem_uuid 1))"
    "utf8_text (ID app_by_name)" "utf8_text (Username app_by_name)" "utf8_text (Role app_by_name)"
  by code_simp+

definition app_forgot :: "string res \<times> appmem" where
  "app_forgot = CreateResetToken mem_env (redis_Recovery mem_redis (900 * Second)) (uuidString (mem_uuid 1)) app_in"

definition app_reset :: PasswordResetRequest where
  "app_reset = \<lparr>PasswordResetRequest_NewPassword = ''new'', PasswordResetRequest_Token = projr (fst app_forgot)\<rparr>"

definition app_consumed :: "string res \<times> appmem" where
  "app_consumed = ConsumeResetToken (redis_Recovery mem_redis (900 * Second)) (projr (fst app_forgot)) (snd app_forgot)"

lemma app_forgot_ok:
  "CreateResetToken mem_env (redis_Recovery mem_redis (900 * Second)) (uuidString (mem_uuid 1)) app_in =
    (Inr (projr (fst app_forgot)), snd app_forgot)"
proof -
  have "\<not> isl (fst app_forgot)" by code_simp
  then show ?thesis by (simp add: app_forgot_def prod_eq_iff)
qed

lemmas app_token = reset_store.Create_ok [OF mem.is_reset_store mem_env.auth_env_axioms app_forgot_ok]

lemma app_forgot_reach: "session_reach mem_env app_mgr mem_now mem_kv app_issued (snd app_forgot)"
  by (rule session_reach.more [OF app_reach], rule session_step.elsewhere)
    (simp_all add: app_token resetKey_neq [symmetric])

lemma app_consumed_ok: "fst app_consumed = Inr (uuidString (mem_uuid 1))"
  by code_simp

lemma app_consumed_update:
  "fst (us_UpdatePassword (store_userStore mem_pg mem_rt) (uuidString (mem_uuid 1)) ''$2a$new'' (snd app_consumed)) = Inr ()"
  "mem_now (snd (us_UpdatePassword (store_userStore mem_pg mem_rt) (uuidString (mem_uuid 1)) ''$2a$new'' (snd app_consumed))) = 0"
  by code_simp+

section \<open>Properties\<close>

text \<open>
  C21: the cookies that a login sets authenticate the requests that follow. A login that succeeds
  found the name unlocked, found the user and checked the password; a request that comes back with the two cookies of the
  response (the CSRF one in its header) within the idle window reaches the handler of any protected
  operation that the user's role admits, with a session of that user in its context, provided Redis
  answers.
\<close>

theorem login_cookies_authenticate:
  assumes "api_sessions R K s U now kv idle life" and "reliable_redis R now kv" and "steady_env (pk_env K)"
    and "PostAuthLogin K s ctx (Some b) w = (Inr (PostAuthLogin_authSuccessResponse resp), w')"
    and "as_cookies resp = [c1, c2]" and "elapses now kv w' x" and "now x < now w' + px idle"
    and "operationID \<in> set sessionProtectedOps"
    and "Cookie r (ck_Name c1) = Some (ck_Value c1)" and "Header_Get (Header r) csrfHeaderKey = ck_Value c2"
  shows "\<exists>d w1 user w2. locked_out s (TrimSpace (LoginRequest_Username b)) (originIP (requestFrom ctx)) w = ((False, d), w1) \<and>
    us_UserByUsername U (TrimSpace (LoginRequest_Username b)) w1 = (Inr user, w2) \<and>
    CheckPassword (pk_env K) (PasswordHash user) (LoginRequest_Password b) \<and>
    (utf8_text (ID user) \<longrightarrow> utf8_text (Username user) \<longrightarrow> utf8_text (Role user) \<longrightarrow>
     roleProtectedOps operationID \<in> {None, Some (Role user)} \<longrightarrow>
     (\<exists>sess x'. s_UserID sess = ID user \<and> s_Username sess = Username user \<and> s_Role sess = Role user \<and>
        authMiddleware K s next operationID ctx' wr r x = next (withSession ctx' sess) wr r x'))"
proof -
  note api = session_api_setup [OF assms(1)]
  have "steady_redis_sessions R (pk_env K) now kv idle life"
    using assms(1-3) by (simp add: api_sessions_def steady_redis_sessions_def)
  from steady_api.intro [OF api steady_session_manager [OF this]]
  have steady: "steady_api (client_SessionStore R) IsMiss now kv K idle life U s" .
  have "sv_users s = Some U" using assms(1) by (simp add: api_sessions_def)
  from PostAuthLogin_run [OF assms(4) this] obtain d w1 user w2 w3 sess where
    user: "locked_out s (TrimSpace (LoginRequest_Username b)) (originIP (requestFrom ctx)) w = ((False, d), w1)"
      "us_UserByUsername U (TrimSpace (LoginRequest_Username b)) w1 = (Inr user, w2)"
      "CheckPassword (pk_env K) (PasswordHash user) (LoginRequest_Password b)"
    and st: "startSession K s ctx (User.truncate user) 200 w3 = (Inr (resp, sess), w')" .
  have c: "ck_Name c1 = st_SessionCookieName (sv_authSettings s)" "ck_Value c1 = s_ID sess" "ck_Value c2 = s_CSRFToken sess"
    using startSession_cookies [OF st] assms(5) by (simp_all add: sessionCookie_def csrfCookie_def)
  have f: "s_UserID sess = ID user" "s_Username sess = Username user" "s_Role sess = Role user"
    using session_api.CreateSession_fields [OF api session_api.startSession_ok(1) [OF api st]]
    by (simp_all add: User.truncate_def)
  have "\<exists>x'. authMiddleware K s next operationID ctx' wr r x = next (withSession ctx' sess) wr r x'"
    if "utf8_text (ID user)" "utf8_text (Username user)" "utf8_text (Role user)"
      "roleProtectedOps operationID \<in> {None, Some (Role user)}"
    by (rule steady_api.started_session_served [OF steady st _ _ _ assms(6,7,8)])
      (use that assms(9,10) c in \<open>simp_all add: User.truncate_def\<close>)
  then show ?thesis using user f by blast
qed

theorem login_cookies_authenticate_witness:
  "\<exists>resp w' r sess x'. PostAuthLogin app_pkgs app_open Background (Some alice_credentials) app_alice =
      (Inr (PostAuthLogin_authSuccessResponse resp), w') \<and>
    authMiddleware app_pkgs app_open (\<lambda>ctx w r x. ((Inr (Some ctx), w), x)) ''GetAuthMe'' Background fresh_writer r w' =
      ((Inr (Some (withSession Background sess)), fresh_writer), x') \<and> s_Username sess = ''alice''"
proof -
  have user: "us_UserByUsername (store_userStore mem_pg mem_rt) ''alice'' app_alice = (Inr app_by_name, app_alice)"
    by (rule app_by_name_found)
  have tr: "TrimSpace (LoginRequest_Username alice_credentials) = ''alice''" by code_simp
  have api: "api_sessions mem_redis app_pkgs app_open (store_userStore mem_pg mem_rt) mem_now mem_kv
      (1800 * Second) (43200 * Second)"
    using app_api by (simp add: api_sessions_def app_open_def)
  have steady: "steady_api (client_SessionStore mem_redis) IsMiss mem_now mem_kv app_pkgs (1800 * Second) (43200 * Second)
      (store_userStore mem_pg mem_rt) app_open"
    using session_api_setup [OF api] mem_steady.steady_sessions_axioms by (simp add: steady_api_def)
  have reach: "session_reach (pk_env app_pkgs) (redis_Manager mem_redis mem_now (1800 * Second) (43200 * Second))
      mem_now mem_kv Map.empty app_alice"
    by (rule session_reach.start) (simp add: app_alice_kv)
  obtain resp sess w' where st: "startSession app_pkgs app_open Background (User.truncate app_by_name) 200 app_alice =
      (Inr (resp, sess), w')"
    using steady_api.startSession_total [OF steady reach, of "User.truncate app_by_name" _ Background 200] app_by_name_facts
    by (auto simp: User.truncate_def)
  have login: "PostAuthLogin app_pkgs app_open Background (Some alice_credentials) app_alice =
      (Inr (PostAuthLogin_authSuccessResponse resp), w')"
    by (rule PostAuthLogin_ok [OF _ _ _ _ _ _ _ st]) (use user app_by_name_facts in
        \<open>simp_all add: tr locked_out_def app_open_def, simp_all add: alice_credentials_def CheckPassword_def mem_env_def\<close>)
  define c1 c2 where "c1 = hd (as_cookies resp)" and "c2 = as_cookies resp ! 1"
  have ck: "as_cookies resp = [c1, c2]" using startSession_cookies [OF st] by (simp add: c1_def c2_def)
  have n: "ck_Name c1 = ''devopsbin_session''"
    using startSession_cookies [OF st] by (simp add: c1_def sessionCookie_def app_open_def app_settings_def)
  have v: "set (ck_Value c1) \<subseteq> set base64url_alphabet"
    using session_api.startSession_token [OF session_api_setup [OF api] st] ck by simp
  define r where "r = app_request ''GET'' ''/api/v1/auth/me'' [(''Cookie'', ck_Name c1 @ ''='' @ ck_Value c1), (''X-Csrf-Token'', ck_Value c2)]"
  have h: "Header r ''Cookie'' = Some [ck_Name c1 @ ''='' @ ck_Value c1]" "Header_Get (Header r) csrfHeaderKey = ck_Value c2"
    by (simp_all add: r_def app_request_def Header_Get_def csrfHeaderKey_def)
  have "isToken (ck_Name c1)" unfolding n by code_simp
  note cookie = Cookie_returned [OF this v h(1)]
  have w: "elapses mem_now mem_kv w' w'" "mem_now w' < mem_now w' + px (1800 * Second)"
    by (simp_all add: elapses_def mem_kv_def live_at_live_at px_def)
  have op: "''GetAuthMe'' \<in> set sessionProtectedOps" "roleProtectedOps ''GetAuthMe'' = None"
    by (simp_all add: sessionProtectedOps_def roleProtectedOps_def)
  have lo: "locked_out app_open u ip app_alice = ((False, d), w1) \<longleftrightarrow> d = 0 \<and> w1 = app_alice" for u ip d w1
    by (auto simp: locked_out_def app_open_def)
  show ?thesis
    using login_cookies_authenticate [OF api mem.reliable_redis_axioms _ login ck w op(1) cookie h(2),
        of "\<lambda>ctx w r x. ((Inr (Some ctx), w), x)" Background fresh_writer, unfolded lo tr app_pkgs_env,
        OF mem_env.steady_env_axioms] op(2) login user app_by_name_facts
    by fastforce
qed

text \<open>
  C5: changing the password signs out every other device. When the change succeeds, the current
  password was the stored one, the new hash was stored for that user, the response carries a new
  session that is in the store, and no other session issued to the user (within its absolute
  lifetime) is left.
\<close>

theorem password_change_signs_out_other_devices:
  assumes "api_sessions R K s U now kv idle life"
    and "session_reach (pk_env K) (redis_Manager R now idle life) now kv I w"
    and "PostAuthPasswordChange K s ctx (Some b) w = (Inr (PostAuthPasswordChange_passwordChangeResponse resp), w')"
    and "sessionFrom ctx = Some sess"
    and "new = ck_Value (hd (as_cookies resp))" and "fresh_id (kv w) I new"
  shows "\<exists>user w1 hash w2 w3. us_UserByID U (s_UserID sess) w = (Inr user, w1) \<and>
    CheckPassword (pk_env K) (PasswordHash user) (PasswordChangeRequest_CurrentPassword b) \<and>
    HashPassword (pk_env K) (PasswordChangeRequest_NewPassword b) (st_BcryptCost (sv_authSettings s)) w1 = (Inr hash, w2) \<and>
    us_UpdatePassword U (ID user) hash w2 = (Inr (), w3) \<and> kv w' (sessionKey new) \<noteq> None \<and>
    (\<exists>t. session_reach (pk_env K) (redis_Manager R now idle life) now kv (I(new \<mapsto> (ID user, t))) w') \<and>
    (\<forall>sid c. I sid = Some (ID user, c) \<longrightarrow> now w' < c + life \<longrightarrow> kv w' (sessionKey sid) = None)"
proof -
  note api = session_api_setup [OF assms(1)]
  have calm: "calm_store U (quiet now kv)" using assms(1) by (simp add: api_sessions_def)
  obtain user w1 hash w2 w3 n w4 where run: "us_UserByID U (s_UserID sess) w = (Inr user, w1)"
      "CheckPassword (pk_env K) (PasswordHash user) (PasswordChangeRequest_CurrentPassword b)"
      "HashPassword (pk_env K) (PasswordChangeRequest_NewPassword b) (st_BcryptCost (sv_authSettings s)) w1 = (Inr hash, w2)"
      "us_UpdatePassword U (ID user) hash w2 = (Inr (), w3)"
      "startSession K s ctx (User.truncate user) 200 w3 = (Inr (resp, n), w4)"
      "RevokeUserSessions (redis_Manager R now idle life) (ID user) (s_ID n) w4 = (Inr (), w')"
    by (rule session_api.PostAuthPasswordChange_run [OF api assms(3,4)])
  have q: "quiet now kv w w3"
    using calm_store.UserByID_calm [OF calm run(1)] session_api.HashPassword_quiet [OF api run(3)]
      calm_store.UpdatePassword_calm [OF calm run(4)] by (blast intro: quiet_trans)
  note ok = session_api.startSession_ok [OF api run(5)]
  have new: "new = s_ID n" using ok(2) assms(5) by auto
  have fr: "fresh_id (kv w3) I new" by (rule fresh_id_mono [OF assms(6)]) (rule quiet_keys [OF q])
  have r4: "session_reach (pk_env K) (redis_Manager R now idle life) now kv (I(new \<mapsto> (ID user, now w3))) w4"
    using session_api.startSession_reach [OF api run(5) session_reach_quiet [OF assms(2) q]] fr
    by (simp add: new User.truncate_def)
  note rv = session_api.revoke_reach [OF api run(6) r4]
  have "kv w' (sessionKey new) \<noteq> None"
    using rv(3) session_api.CreateSession_stored(1) [OF api ok(1)] by (simp add: new)
  moreover have "kv w' (sessionKey sid) = None" if "I sid = Some (ID user, c)" "now w' < c + life" for sid c
  proof -
    have "sid \<noteq> new" using that(1) assms(6) by (auto simp: fresh_id_def)
    then show ?thesis using rv(2) [of sid c] that new by simp
  qed
  ultimately show ?thesis using run(1-4) rv(1) by blast
qed

theorem password_change_signs_out_other_devices_witness:
  "\<exists>resp w'. PostAuthPasswordChange app_pkgs app_server (withSession Background app_session) (Some app_new_password) app_in =
      (Inr (PostAuthPasswordChange_passwordChangeResponse resp), w') \<and>
    mem_kv w' (sessionKey (s_ID app_session)) = None \<and>
    mem_kv w' (sessionKey (ck_Value (hd (as_cookies resp)))) \<noteq> None"
proof -
  let ?U = "store_userStore mem_pg mem_rt" and ?ctx = "withSession Background app_session"
  let ?h = "''$2a$new''" and ?w3 = "snd (us_UpdatePassword (store_userStore mem_pg mem_rt) (ID app_user) ''$2a$new'' app_in)"
  have s: "sessionFrom ?ctx = Some app_session" and rq: "requestFrom ?ctx = None"
    by (simp_all add: withSession_def)
  have user: "us_UserByID ?U (s_UserID app_session) app_in = (Inr app_user, app_in)" by (rule app_user_found)
  have upd: "us_UpdatePassword ?U (ID app_user) ?h app_in = (Inr (), ?w3)"
    using app_update by (simp add: prod_eq_iff)
  have fr: "fresh_id (mem_kv app_in) app_issued sid"
    if "randomToken mem_env (revokeRequestSession app_server None ?w3) = (Inr sid, w4)" for sid w4
  proof (rule app_fresh)
    have "mem_seed ?w3 = 9" "mem_seed app_alice = 7" using app_update by (simp_all add: app_alice_seed)
    then show "sid \<noteq> s_ID app_session"
      using mem_token_inject [of app_alice ?w3] app_session_token that by (auto simp: revokeRequestSession_def)
  qed
  obtain resp w' where run: "PostAuthPasswordChange app_pkgs app_server ?ctx (Some app_new_password) app_in =
      (Inr (PostAuthPasswordChange_passwordChangeResponse resp), w')"
    and t: "mem_now w' = mem_now ?w3" and new: "fresh_id (mem_kv app_in) app_issued (ck_Value (hd (as_cookies resp)))"
    by (rule app_steady.PostAuthPasswordChange_total [unfolded app_pkgs_env, folded app_mgr_def,
          OF app_reach s _ _ user _ _ upd _ fr [folded rq], where b = app_new_password])
      (use app_user_facts in \<open>auto simp: app_new_password_def HashPassword_def mem_env_def CheckPassword_def\<close>)
  have "mem_now w' = 0" using t app_update by simp
  then show ?thesis
    using password_change_signs_out_other_devices [OF app_api, unfolded app_pkgs_env, folded app_mgr_def,
        OF app_reach run s refl new] run user app_user_facts
    by (auto simp: app_issued_def)
qed

text \<open>
  C22: a password reset signs the user out everywhere. When the reset succeeds, the token named
  the user and is gone, the new hash was stored for that user, and no session issued to the user
  (within its absolute lifetime) is left.
\<close>

theorem password_reset_signs_out_everywhere:
  assumes "api_sessions R K s U now kv idle life"
    and "session_reach (pk_env K) (redis_Manager R now idle life) now kv I w"
    and "sv_recovery s = Some (redis_Recovery R ttl)"
    and "PostAuthPasswordReset K s (Some b) w = (Inr (PostAuthPasswordReset200JSONResponse m), w')"
    and "kv w (resetKey (PasswordResetRequest_Token b)) = Some (VStr uid, d)"
  shows "kv w' (resetKey (PasswordResetRequest_Token b)) = None \<and>
    (\<exists>w1 hash w2 w3. HashPassword (pk_env K) (PasswordResetRequest_NewPassword b) (st_BcryptCost (sv_authSettings s)) w1
        = (Inr hash, w2) \<and> us_UpdatePassword U uid hash w2 = (Inr (), w3)) \<and>
    session_reach (pk_env K) (redis_Manager R now idle life) now kv I w' \<and>
    (\<forall>sid c. I sid = Some (uid, c) \<longrightarrow> now w' < c + life \<longrightarrow> kv w' (sessionKey sid) = None)"
proof -
  note api = session_api_setup [OF assms(1)]
  have calm: "calm_store U (quiet now kv)" and rd: "redis_service R now kv"
    using assms(1) by (simp_all add: api_sessions_def redis_sessions_def)
  note rs = redis_service.is_reset_store [OF rd]
  obtain u w1 hash w2 w3 where run: "ConsumeResetToken (redis_Recovery R ttl) (PasswordResetRequest_Token b) w = (Inr u, w1)"
      "HashPassword (pk_env K) (PasswordResetRequest_NewPassword b) (st_BcryptCost (sv_authSettings s)) w1 = (Inr hash, w2)"
      "us_UpdatePassword U u hash w2 = (Inr (), w3)"
      "RevokeUserSessions (redis_Manager R now idle life) u '''' w3 = (Inr (), w')"
    by (rule session_api.PostAuthPasswordReset_run [OF api assms(4,3)])
  note tok = reset_store.Consume_ok [OF rs run(1)]
  have u: "u = uid" using tok(4) assms(5) by auto
  have r1: "session_reach (pk_env K) (redis_Manager R now idle life) now kv I w1"
    by (rule session_reach.more [OF assms(2)], rule session_step.elsewhere)
      (simp_all add: tok resetKey_neq [symmetric])
  have q: "quiet now kv w1 w3"
    using session_api.HashPassword_quiet [OF api run(2)] calm_store.UpdatePassword_calm [OF calm run(3)]
    by (rule quiet_trans)
  note rv = session_api.revoke_reach [OF api run(4) session_reach_quiet [OF r1 q]]
  have wf: "I '''' = None"
    using session_manager.session_reach_wf [OF session_api.axioms(1) [OF api] assms(2)] by simp
  have "kv w' (resetKey t) = None" if "kv w3 (resetKey t) = None" for t
    using session_api.RevokeUserSessions_keys [OF api run(4), of "resetKey t"] that by metis
  moreover have "kv w3 (resetKey (PasswordResetRequest_Token b)) = None"
    using quiet_keys [OF q] tok(1) by (metis fun_upd_same not_None_eq)
  moreover have "kv w' (sessionKey sid) = None" if "I sid = Some (uid, c)" "now w' < c + life" for sid c
    using rv(2) [of sid c] that wf u by (cases "sid = ''''") auto
  ultimately show ?thesis using run(2,3) rv(1) u by blast
qed

theorem password_reset_signs_out_everywhere_witness:
  "\<exists>m w'. PostAuthPasswordReset app_pkgs app_server (Some app_reset) (snd app_forgot) =
      (Inr (PostAuthPasswordReset200JSONResponse m), w') \<and> mem_kv w' (sessionKey (s_ID app_session)) = None \<and>
    mem_kv w' (resetKey (projr (fst app_forgot))) = None"
proof -
  let ?U = "store_userStore mem_pg mem_rt" and ?uid = "uuidString (mem_uuid 1)"
  let ?w3 = "snd (us_UpdatePassword (store_userStore mem_pg mem_rt) (uuidString (mem_uuid 1)) ''$2a$new'' (snd app_consumed))"
  have tok: "ConsumeResetToken (redis_Recovery mem_redis (900 * Second)) (projr (fst app_forgot)) (snd app_forgot) =
      (Inr ?uid, snd app_consumed)"
    using app_consumed_ok by (simp add: app_consumed_def prod_eq_iff)
  have r1: "session_reach mem_env app_mgr mem_now mem_kv app_issued (snd app_consumed)"
    by (rule session_reach.more [OF app_forgot_reach], rule session_step.elsewhere)
      (simp_all add: reset_store.Consume_ok [OF mem.is_reset_store tok] resetKey_neq [symmetric])
  have upd: "us_UpdatePassword ?U ?uid ''$2a$new'' (snd app_consumed) = (Inr (), ?w3)"
    using app_consumed_update(1) by (simp add: prod_eq_iff)
  obtain m w' where run: "PostAuthPasswordReset app_pkgs app_server (Some app_reset) (snd app_forgot) =
      (Inr (PostAuthPasswordReset200JSONResponse m), w')" and t: "mem_now w' = mem_now ?w3"
    by (rule app_steady.PostAuthPasswordReset_total [unfolded app_pkgs_env, folded app_mgr_def,
          OF app_server_simps(4) _ _ _ r1 _ upd, where b = app_reset and w = "snd app_forgot"])
      (use tok app_token in \<open>auto simp: app_reset_def HashPassword_def mem_env_def\<close>)
  have k: "mem_kv (snd app_forgot) (resetKey (PasswordResetRequest_Token app_reset)) =
      Some (VStr ?uid, Some (mem_now app_in + px (900 * Second)))"
    by (simp add: app_token app_reset_def)
  show ?thesis
    using password_reset_signs_out_everywhere [OF app_api, unfolded app_pkgs_env, folded app_mgr_def,
        OF app_forgot_reach app_server_simps(4) run k] run t app_consumed_update(2)
    by (auto simp: app_issued_def app_reset_def)
qed

end
