(* ===== verification/Api_Lockout.thy ===== *)
theory Api_Lockout
  imports Api_Auth
begin

text \<open>
  Guessing passwords over HTTP: \<^verbatim>\<open>PostAuthLogin\<close> of \<^verbatim>\<open>auth.go\<close> together with the lockout of
  \<^verbatim>\<open>internal/auth/lockout.go\<close>. A run of rejected logins is a run of recorded failures, so the lock engages
  at the configured number of attempts.
\<close>

section \<open>Runs of rejected logins\<close>

text \<open>
  \<open>guesses K s now kv u n w w'\<close>: from \<open>w\<close> to \<open>w'\<close> there were \<open>n\<close> logins with the user name \<open>u\<close>, from any
  requests, that were answered 401, with time passing and other activity that leaves the lockout keys
  of \<open>u\<close> alone in between.
\<close>

inductive guesses ::
    "'w pkgs \<Rightarrow> 'w Server \<Rightarrow> ('w \<Rightarrow> Time) \<Rightarrow> ('w \<Rightarrow> keyspace) \<Rightarrow> string \<Rightarrow> nat \<Rightarrow> 'w \<Rightarrow> 'w \<Rightarrow> bool"
  for K s now kv u where
  none: "guesses K s now kv u 0 w w"
| wrong: "guesses K s now kv u n w w1 \<Longrightarrow>
    PostAuthLogin K s ctx (Some b) w1 = (Inr (PostAuthLogin401JSONResponse e), w2) \<Longrightarrow>
    TrimSpace (LoginRequest_Username b) = u \<Longrightarrow> guesses K s now kv u (Suc n) w w2"
| waited: "guesses K s now kv u n w w1 \<Longrightarrow> elapses now kv w1 w2 \<Longrightarrow> guesses K s now kv u n w w2"
| others: "guesses K s now kv u n w w1 \<Longrightarrow> now w2 = now w1 \<Longrightarrow> kv w2 (failUser u) = kv w1 (failUser u) \<Longrightarrow>
    kv w2 (lockUser u) = kv w1 (lockUser u) \<Longrightarrow> guesses K s now kv u n w w2"

lemma failures_quiet: "failures l now kv u n w w1 \<Longrightarrow> quiet now kv w1 w2 \<Longrightarrow> failures l now kv u n w w2"
  unfolding quiet_def by (auto intro: failures.waited failures.others)

locale login_api = lockout_store S isMiss now kv + calm_store U "quiet now kv"
  for S :: "'w LockoutStore" and isMiss and now :: "'w \<Rightarrow> Time" and kv and U :: "'w userStore" +
  fixes s :: "'w Server" and maxA :: int and win ttl :: Duration
  assumes server_lockout: "sv_lockout s = Some (NewLockout S isMiss maxA win ttl)"
    and server_users: "sv_users s = Some U"
begin

text \<open>A rejected login is a recorded failure; nothing but time passed before it.\<close>

lemma rejected_login:
  assumes "PostAuthLogin K s ctx (Some b) w = (Inr (PostAuthLogin401JSONResponse e), w')"
  obtains w1 where "quiet now kv w w1"
    "w' = RecordFailure (L maxA win ttl) (TrimSpace (LoginRequest_Username b)) (originIP (requestFrom ctx)) w1"
    "TrimSpace (LoginRequest_Username b) \<noteq> []"
proof -
  let ?u = "TrimSpace (LoginRequest_Username b)" and ?ip = "originIP (requestFrom ctx)"
  obtain lo d w1 where l: "Locked (L maxA win ttl) ?u ?ip w = ((lo, d), w1)" by (metis surj_pair)
  obtain found w2 where f: "us_UserByUsername U ?u w1 = (found, w2)" by fastforce
  have "quiet now kv w w1" using Locked_frame [OF l] by (simp add: quiet_def)
  then have q: "quiet now kv w w2" using UserByUsername_calm [OF f] by (rule quiet_trans)
  have "w' = RecordFailure (L maxA win ttl) ?u ?ip w2" "?u \<noteq> []"
    using assms l f
    by (auto simp: PostAuthLogin_def Let_def with_users_def locked_out_def server_lockout server_users
      split: if_splits bool.splits sum.splits prod.splits)
  with q show thesis by (rule that)
qed

lemma guesses_failures:
  "guesses K s now kv u n w w' \<Longrightarrow> failures (L maxA win ttl) now kv u n w w'"
proof (induction rule: guesses.induct)
  case (wrong n w w1 ctx b e w2)
  obtain w1' where "quiet now kv w1 w1'" "w2 = RecordFailure (L maxA win ttl) u (originIP (requestFrom ctx)) w1'"
    using rejected_login [OF wrong(2)] wrong(3) by metis
  then show ?case using failures.failed [OF failures_quiet [OF wrong(4)]] by simp
qed (auto intro: failures.intros)

text \<open>A locked login is answered without looking at the password.\<close>

lemma locked_login:
  assumes "Locked (L maxA win ttl) (TrimSpace (LoginRequest_Username b)) (originIP (requestFrom ctx)) w = ((True, d), w')"
    and "TrimSpace (LoginRequest_Username b) \<noteq> []" "LoginRequest_Password b \<noteq> []"
  shows "PostAuthLogin K s ctx (Some b) w = (Inr (PostAuthLogin423JSONResponse
    \<lparr>ErrorResponse_Error = ''too many failed login attempts; try again later''\<rparr>
    (Some (wrap32 (RetryAfterSeconds d)))), w')"
  using assms by (simp add: PostAuthLogin_def Let_def locked_out_def server_lockout)

lemma unlocked_login:
  assumes "Locked (L maxA win ttl) (TrimSpace (LoginRequest_Username b)) (originIP (requestFrom ctx)) w = ((False, d), w')"
  shows "PostAuthLogin K s ctx (Some b) w \<noteq> (Inr (PostAuthLogin423JSONResponse e secs), w'')"
  using assms
  by (auto simp: PostAuthLogin_def Let_def locked_out_def server_lockout split: prod.splits sum.splits if_splits)

end

interpretation app_login: login_api "client_LockoutStore mem_redis" IsMiss mem_now mem_kv "store_userStore mem_pg mem_rt"
    app_server 5 "900 * Second" "900 * Second"
  using mem.is_lockout_store app_calm.store_calm by (simp add: login_api_def login_api_axioms_def)

section \<open>Properties\<close>

text \<open>
  C10: password guessing over HTTP is stopped at the threshold. Let \<open>n\<close> logins with a user name have
  been rejected within one window that started without a counter, and one more be rejected: while the
  lock time after it lasts, a login with that name, right or wrong password, from whatever address that
  is not itself locked, is answered 423 with a retry hint and without touching Redis or the password,
  if and only if \<open>n + 1\<close> has reached the configured number of attempts.
\<close>

theorem guessing_is_locked_out:
  assumes "reliable_redis R now kv" and "calm_store U (quiet now kv)"
    and "sv_lockout s = Some (redis_Lockout R maxAttempts window lockTTL)" and "sv_users s = Some U"
    and "Millisecond \<le> window" and "0 < lockTTL" and "maxAttempts < 2 ^ 63" and "int n + 1 < 2 ^ 63"
    and "guesses K s now kv u n w w1" and "kv w (failUser u) = None" and "kv w (lockUser u) = None"
    and "PostAuthLogin K s ctx (Some b) w1 = (Inr (PostAuthLogin401JSONResponse e), w2)"
    and "TrimSpace (LoginRequest_Username b) = u" and "now w2 < now w + px window"
    and "elapses now kv w2 w3" and "now w3 < now w2 + px lockTTL"
    and "TrimSpace (LoginRequest_Username b') = u" and "LoginRequest_Password b' \<noteq> ''''"
    and "kv w3 (lockIP (originIP (requestFrom ctx'))) = None"
  shows "(\<exists>e' secs w4. PostAuthLogin K s ctx' (Some b') w3 = (Inr (PostAuthLogin423JSONResponse e' (Some secs)), w4) \<and>
    now w4 = now w3 \<and> kv w4 = kv w3) \<longleftrightarrow> maxAttempts \<le> int n + 1"
proof -
  let ?l = "redis_Lockout R maxAttempts window lockTTL"
  note st = reliable_redis.is_steady_lockout_store [OF assms(1)]
  have lo: "lockout_store (client_LockoutStore R) IsMiss now kv" using st by (simp add: steady_lockout_store_def)
  have api: "login_api (client_LockoutStore R) IsMiss now kv U s maxAttempts window lockTTL"
    using lo assms(2-4) by (simp add: login_api_def login_api_axioms_def)
  obtain w1' where q: "quiet now kv w1 w1'" and w2: "w2 = RecordFailure ?l u (originIP (requestFrom ctx)) w1'" and u: "u \<noteq> []"
    using login_api.rejected_login [OF api assms(12)] assms(13) by metis
  have run: "failures ?l now kv u n w w1'"
    by (rule failures_quiet [OF login_api.guesses_failures [OF api assms(9)] q])
  have t: "now w2 = now w1'" using lockout_store.RecordFailure_now [OF lo] w2 by simp
  have lock: "fst (fst (Locked ?l u (originIP (requestFrom ctx')) w3)) \<longleftrightarrow> maxAttempts \<le> int n + 1"
    using steady_lockout_store.lock_after_failures [OF st run assms(10,11,5,6) _ assms(8,7) w2 assms(15) _ assms(19) u]
      assms(14,16) t by simp
  obtain lk d w4 where l: "Locked ?l u (originIP (requestFrom ctx')) w3 = ((lk, d), w4)" by (metis surj_pair)
  note frame = lockout_store.Locked_frame [OF lo l]
  show ?thesis
  proof (cases lk)
    case True
    then show ?thesis
      using login_api.locked_login [OF api, of b' ctx' w3 d w4 K] l lock frame u assms(17,18) by simp
  next
    case False
    then show ?thesis
      using login_api.unlocked_login [OF api, of b' ctx' w3 d w4 K] l lock assms(17) by auto
  qed
qed

definition app_strict :: "appmem Server" where
  "app_strict = app_server\<lparr>sv_lockout := Some (redis_Lockout mem_redis 1 (900 * Second) (600 * Second))\<rparr>"

definition bad_credentials :: LoginRequest where
  "bad_credentials = \<lparr>LoginRequest_Password = ''guess'', LoginRequest_Username = ''mallory''\<rparr>"

definition app_guessed :: appmem where
  "app_guessed = snd (PostAuthLogin app_pkgs app_strict Background (Some bad_credentials) app_start)"

definition elsewhere_ctx :: Ctx where
  "elsewhere_ctx = WithValue (requestCtx (app_request ''POST'' ''/api/v1/auth/login'' [])) Background"

theorem guessing_is_locked_out_witness:
  "\<exists>e secs w4. PostAuthLogin app_pkgs app_strict elsewhere_ctx (Some bad_credentials) app_guessed =
     (Inr (PostAuthLogin423JSONResponse e (Some secs)), w4)"
proof -
  let ?e = "\<lparr>ErrorResponse_Error = ''invalid username or password''\<rparr>"
  have "fst (PostAuthLogin app_pkgs app_strict Background (Some bad_credentials) app_start) =
      Inr (PostAuthLogin401JSONResponse ?e)" by code_simp
  then have rej: "PostAuthLogin app_pkgs app_strict Background (Some bad_credentials) app_start =
      (Inr (PostAuthLogin401JSONResponse ?e), app_guessed)"
    by (simp add: app_guessed_def prod_eq_iff)
  have u: "TrimSpace (LoginRequest_Username bad_credentials) = ''mallory''" by code_simp
  have t: "mem_now app_guessed = 0" "mem_now app_start = 0" by code_simp+
  have k: "mem_kv app_start = Map.empty" by (simp add: mem_kv_def app_start_def live_at_def fun_eq_iff)
  have ip: "mem_kv app_guessed (lockIP (originIP (requestFrom elsewhere_ctx))) = None" by code_simp
  have el: "elapses mem_now mem_kv app_guessed app_guessed" by (simp add: elapses_def mem_kv_def live_at_live_at)
  have sv: "sv_lockout app_strict = Some (redis_Lockout mem_redis 1 (900 * Second) (600 * Second))"
    "sv_users app_strict = Some (store_userStore mem_pg mem_rt)" by (simp_all add: app_strict_def)
  have pw: "LoginRequest_Password bad_credentials \<noteq> []" by (simp add: bad_credentials_def)
  from guessing_is_locked_out [OF mem.reliable_redis_axioms app_calm.store_calm sv _ _ _ _ guesses.none _ _ rej u _ el _ u pw ip]
  show ?thesis by (simp add: t k px_def) blast
qed

end
