(* ===== verification/Lifecycle.thy ===== *)
theory Lifecycle
  imports Config "HOL-Library.Multiset"
begin

text \<open>
  The life of the connections: \<^verbatim>\<open>New\<close>, \<^verbatim>\<open>Ping\<close> and \<^verbatim>\<open>Close\<close> of \<^verbatim>\<open>internal/store/postgres.go\<close> and
  \<^verbatim>\<open>internal/cache/redis.go\<close>, the migration runner of \<^verbatim>\<open>internal/migrate/migrate.go\<close>, and the log level
  of \<^verbatim>\<open>internal/logging/logging.go\<close>.

  The packages \<^verbatim>\<open>pgxpool\<close>, \<^verbatim>\<open>go-redis\<close>, \<^verbatim>\<open>database/sql\<close> and \<^verbatim>\<open>goose\<close> are the record \<open>'w drivers\<close>. What
  they open is named by a handle; a nil pointer is \<open>None\<close>.
\<close>

section \<open>The drivers\<close>

type_synonym handle = nat
type_synonym locker = nat

record MigrationResult =
  mr_String :: string

record MigrationStatus =
  ms_Version :: int
  ms_Path :: string
  ms_State :: string
  ms_AppliedAt :: Time

text \<open>The \<open>Ping\<close> calls get the deadline of their context, \<open>None\<close> for none.\<close>

record 'w drivers =
  pgxpool_ParseConfig :: "string \<Rightarrow> string res"
  pgxpool_NewWithConfig :: "string \<Rightarrow> ('w, handle) act"
  pgxpool_Ping :: "handle \<Rightarrow> Duration option \<Rightarrow> ('w, unit) act"
  pgxpool_Close :: "handle \<Rightarrow> 'w \<Rightarrow> 'w"
  redis_Open :: "rdb \<Rightarrow> 'w \<Rightarrow> handle \<times> 'w"
  redis_Ping :: "handle \<Rightarrow> Duration option \<Rightarrow> ('w, unit) act"
  redis_Close :: "handle \<Rightarrow> ('w, unit) act"
  sql_Open :: "string \<Rightarrow> string \<Rightarrow> ('w, handle) act"
  sql_Close :: "handle \<Rightarrow> ('w, unit) act"
  NewPostgresSessionLocker :: "('w, locker) act"
  goose_NewProvider :: "handle \<Rightarrow> locker \<Rightarrow> ('w, handle) act"
  goose_Up :: "handle \<Rightarrow> ('w, MigrationResult list) act"
  goose_Status :: "handle \<Rightarrow> ('w, MigrationStatus list) act"
  goose_GetDBVersion :: "handle \<Rightarrow> ('w, int) act"

text \<open>\<^verbatim>\<open>defer\<close>: the function runs when the surrounding one returns, whatever it returns.\<close>

definition deferred :: "('w \<Rightarrow> 'w) \<Rightarrow> ('w \<Rightarrow> 'a \<times> 'w) \<Rightarrow> 'w \<Rightarrow> 'a \<times> 'w" where
  "deferred f body w = (case body w of (y, w1) \<Rightarrow> (y, f w1))"

section \<open>internal/store/postgres.go\<close>

text \<open>A \<^verbatim>\<open>*Store\<close> is the handle of its pool.\<close>

definition store_New :: "'w drivers \<Rightarrow> string \<Rightarrow> ('w, handle) act" where
  "store_New D databaseURL w =
     (if databaseURL = [] then (Inl (errorf ''store: database url is empty''), w)
      else (case pgxpool_ParseConfig D databaseURL of
              Inl err \<Rightarrow> (Inl (Wrapf ''store: parse url: %w'' [err]), w)
            | Inr cfg \<Rightarrow>
                (case pgxpool_NewWithConfig D cfg w of
                   (Inl err, w1) \<Rightarrow> (Inl (Wrapf ''store: open pool: %w'' [err]), w1)
                 | (Inr pool, w1) \<Rightarrow> (Inr pool, w1))))"

definition store_Ping :: "'w drivers \<Rightarrow> handle \<Rightarrow> Duration option \<Rightarrow> ('w, unit) act" where
  "store_Ping D s = pgxpool_Ping D s"

definition store_Close :: "'w drivers \<Rightarrow> handle option \<Rightarrow> 'w \<Rightarrow> 'w" where
  "store_Close D s w = (case s of None \<Rightarrow> w | Some pool \<Rightarrow> pgxpool_Close D pool w)"

section \<open>internal/cache/redis.go\<close>

definition cache_New :: "'w drivers \<Rightarrow> RedisConfig \<Rightarrow> ('w, handle) act" where
  "cache_New D cfg w =
     (case New cfg of
        Inl err \<Rightarrow> (Inl err, w)
      | Inr client \<Rightarrow> (case redis_Open D client w of (rdb, w1) \<Rightarrow> (Inr rdb, w1)))"

definition cache_Ping :: "'w drivers \<Rightarrow> handle \<Rightarrow> Duration option \<Rightarrow> ('w, unit) act" where
  "cache_Ping D c = redis_Ping D c"

definition cache_Close :: "'w drivers \<Rightarrow> handle option \<Rightarrow> 'w \<Rightarrow> goerr option \<times> 'w" where
  "cache_Close D c w =
     (case c of
        None \<Rightarrow> (None, w)
      | Some rdb \<Rightarrow> (case redis_Close D rdb w of (Inl err, w1) \<Rightarrow> (Some err, w1) | (Inr _, w1) \<Rightarrow> (None, w1)))"

section \<open>internal/migrate/migrate.go\<close>

record Migrator =
  mg_provider :: handle
  mg_db :: "handle option"

definition migrate_New :: "'w drivers \<Rightarrow> string \<Rightarrow> ('w, Migrator) act" where
  "migrate_New D databaseURL w =
     (if databaseURL = [] then (Inl (errorf ''migrate: database url is empty''), w)
      else (case sql_Open D ''pgx'' databaseURL w of
              (Inl err, w1) \<Rightarrow> (Inl (Wrapf ''migrate: open db: %w'' [err]), w1)
            | (Inr db, w1) \<Rightarrow>
                (case NewPostgresSessionLocker D w1 of
                   (Inl err, w2) \<Rightarrow> (Inl (Wrapf ''migrate: new session locker: %w'' [err]), snd (sql_Close D db w2))
                 | (Inr lk, w2) \<Rightarrow>
                     (case goose_NewProvider D db lk w2 of
                        (Inl err, w3) \<Rightarrow> (Inl (Wrapf ''migrate: new provider: %w'' [err]), snd (sql_Close D db w3))
                      | (Inr provider, w3) \<Rightarrow> (Inr \<lparr>mg_provider = provider, mg_db = Some db\<rparr>, w3)))))"

definition Migrator_Up :: "'w drivers \<Rightarrow> Migrator \<Rightarrow> ('w, MigrationResult list) act" where
  "Migrator_Up D m w =
     (case goose_Up D (mg_provider m) w of
        (Inl err, w1) \<Rightarrow> (Inl (Wrapf ''migrate: up: %w'' [err]), w1)
      | (Inr results, w1) \<Rightarrow> (Inr results, w1))"

definition Migrator_Status :: "'w drivers \<Rightarrow> Migrator \<Rightarrow> ('w, MigrationStatus list) act" where
  "Migrator_Status D m w =
     (case goose_Status D (mg_provider m) w of
        (Inl err, w1) \<Rightarrow> (Inl (Wrapf ''migrate: status: %w'' [err]), w1)
      | (Inr status, w1) \<Rightarrow> (Inr status, w1))"

definition Migrator_Version :: "'w drivers \<Rightarrow> Migrator \<Rightarrow> ('w, int) act" where
  "Migrator_Version D m w =
     (case goose_GetDBVersion D (mg_provider m) w of
        (Inl err, w1) \<Rightarrow> (Inl (Wrapf ''migrate: version: %w'' [err]), w1)
      | (Inr version, w1) \<Rightarrow> (Inr version, w1))"

definition Migrator_Close :: "'w drivers \<Rightarrow> Migrator option \<Rightarrow> 'w \<Rightarrow> goerr option \<times> 'w" where
  "Migrator_Close D mo w =
     (case mo of
        None \<Rightarrow> (None, w)
      | Some m \<Rightarrow>
          (case mg_db m of
             None \<Rightarrow> (None, w)
           | Some db \<Rightarrow>
               (case sql_Close D db w of
                  (Inl err, w1) \<Rightarrow> (Some (Wrapf ''migrate: close db: %w'' [err]), w1)
                | (Inr _, w1) \<Rightarrow> (None, w1))))"

section \<open>internal/logging/logging.go\<close>

text \<open>The levels of \<^verbatim>\<open>log/slog\<close>. A logger is its level here: the output is not modelled.\<close>

definition LevelDebug :: int where "LevelDebug = - 4"
definition LevelInfo :: int where "LevelInfo = 0"
definition LevelWarn :: int where "LevelWarn = 4"
definition LevelError :: int where "LevelError = 8"

definition parseLevel :: "string \<Rightarrow> int" where
  "parseLevel level =
     (let l = ToLower level
      in if l = ''debug'' then LevelDebug
         else if l = ''warn'' then LevelWarn
         else if l = ''error'' then LevelError
         else LevelInfo)"

definition logging_New :: "string \<Rightarrow> int" where
  "logging_New level = parseLevel level"

section \<open>No connection is left open\<close>

text \<open>
  The contract of something that is opened and closed: opening adds one connection to those that are
  open, or none when it fails, and closing takes it away again.
\<close>

datatype conn = PgPool handle | RedisClient handle | SqlDB handle

locale opened_and_closed =
  fixes opn :: "'a \<Rightarrow> ('w, 'h) act" and cls :: "'h \<Rightarrow> 'w \<Rightarrow> 'w" and tag :: "'h \<Rightarrow> conn"
    and conns :: "'w \<Rightarrow> conn multiset"
  assumes opened: "opn a w = (Inr h, w') \<Longrightarrow> conns w' = add_mset (tag h) (conns w)"
    and not_opened: "opn a w = (Inl err, w') \<Longrightarrow> conns w' = conns w"
    and closed: "opn a w0 = (Inr h, w') \<Longrightarrow> conns (cls h w) = conns w - {#tag h#}"
begin

lemma released:
  assumes "\<And>h w. conns (snd (body h w)) = conns w"
  shows "conns (snd (case opn a w of (Inl err, w1) \<Rightarrow> (f err, w1) | (Inr h, w1) \<Rightarrow> deferred (cls h) (body h) w1)) = conns w"
proof (cases "opn a w")
  case (Pair y w1)
  show ?thesis
  proof (cases y)
    case (Inl err)
    then show ?thesis using Pair not_opened by auto
  next
    case (Inr h)
    then show ?thesis
      using Pair opened [of a w h w1] assms [of h w1] closed [of a w h w1] by (simp add: deferred_def split_beta)
  qed
qed

end

text \<open>What the drivers promise.\<close>

locale driver_laws =
  fixes D :: "'w drivers" and conns :: "'w \<Rightarrow> conn multiset"
  assumes pool_opened: "pgxpool_NewWithConfig D c w = (Inr h, w') \<Longrightarrow> conns w' = add_mset (PgPool h) (conns w)"
    and pool_not_opened: "pgxpool_NewWithConfig D c w = (Inl err, w') \<Longrightarrow> conns w' = conns w"
    and pool_closed: "conns (pgxpool_Close D h w) = conns w - {#PgPool h#}"
    and redis_opened: "redis_Open D r w = (h, w') \<Longrightarrow> conns w' = add_mset (RedisClient h) (conns w)"
    and redis_closed: "conns (snd (redis_Close D h w)) = conns w - {#RedisClient h#}"
    and sql_opened: "sql_Open D drv u w = (Inr h, w') \<Longrightarrow> conns w' = add_mset (SqlDB h) (conns w)"
    and sql_not_opened: "sql_Open D drv u w = (Inl err, w') \<Longrightarrow> conns w' = conns w"
    and sql_closed: "conns (snd (sql_Close D h w)) = conns w - {#SqlDB h#}"
    and locker_conns: "conns (snd (NewPostgresSessionLocker D w)) = conns w"
    and provider_conns: "conns (snd (goose_NewProvider D h lk w)) = conns w"
    and goose_conns: "conns (snd (goose_Up D h w)) = conns w" "conns (snd (goose_Status D h w)) = conns w"
      "conns (snd (goose_GetDBVersion D h w)) = conns w"
begin

lemma store_New_opens:
  "store_New D url w = (y, w') \<Longrightarrow> conns w' = (case y of Inl _ \<Rightarrow> conns w | Inr h \<Rightarrow> add_mset (PgPool h) (conns w))"
  by (auto simp: store_New_def split: if_splits sum.splits prod.splits dest: pool_opened pool_not_opened)

lemma cache_New_opens:
  "cache_New D cfg w = (y, w') \<Longrightarrow> conns w' = (case y of Inl _ \<Rightarrow> conns w | Inr h \<Rightarrow> add_mset (RedisClient h) (conns w))"
  by (auto simp: cache_New_def split: sum.splits prod.splits dest: redis_opened)

lemma cache_Close_closes: "conns (snd (cache_Close D (Some h) w)) = conns w - {#RedisClient h#}"
  using redis_closed [of h w] by (auto simp: cache_Close_def split: prod.splits sum.splits)

text \<open>A migration runner that could not be set up does not keep its database open.\<close>

lemma migrate_New_opens:
  assumes "migrate_New D url w = (y, w')"
  shows "(case y of Inl _ \<Rightarrow> conns w' = conns w
    | Inr m \<Rightarrow> \<exists>db. mg_db m = Some db \<and> conns w' = add_mset (SqlDB db) (conns w))"
proof (cases "sql_Open D ''pgx'' url w")
  case (Pair x w1)
  show ?thesis
  proof (cases x)
    case (Inl err)
    then show ?thesis using assms Pair sql_not_opened by (auto simp: migrate_New_def split: if_splits)
  next
    case (Inr db)
    note o = sql_opened [OF Pair [unfolded Inr]]
    have l: "NewPostgresSessionLocker D w1 = (z, w2) \<Longrightarrow> conns w2 = conns w1" for z w2
      using locker_conns [of w1] by simp
    have p: "goose_NewProvider D db lk w2 = (z, w3) \<Longrightarrow> conns w3 = conns w2" for lk w2 z w3
      using provider_conns [of db lk w2] by simp
    show ?thesis
      using assms Pair Inr o by (auto simp: migrate_New_def sql_closed split: if_splits prod.splits sum.splits dest!: l p)
  qed
qed

end

sublocale driver_laws \<subseteq> pg_pool: opened_and_closed "store_New D" "\<lambda>h. store_Close D (Some h)" PgPool conns
proof
  show "store_New D a w = (Inr h, w') \<Longrightarrow> conns w' = add_mset (PgPool h) (conns w)" for a w h w'
    by (drule store_New_opens) simp
  show "store_New D a w = (Inl err, w') \<Longrightarrow> conns w' = conns w" for a w err w'
    by (drule store_New_opens) simp
  show "store_New D a w0 = (Inr h, w') \<Longrightarrow> conns (store_Close D (Some h) w) = conns w - {#PgPool h#}" for a w0 h w' w
    by (simp add: store_Close_def pool_closed)
qed

sublocale driver_laws \<subseteq> redis_client: opened_and_closed "cache_New D" "\<lambda>h w. snd (cache_Close D (Some h) w)" RedisClient conns
proof
  show "cache_New D a w = (Inr h, w') \<Longrightarrow> conns w' = add_mset (RedisClient h) (conns w)" for a w h w'
    by (drule cache_New_opens) simp
  show "cache_New D a w = (Inl err, w') \<Longrightarrow> conns w' = conns w" for a w err w'
    by (drule cache_New_opens) simp
qed (rule cache_Close_closes)

sublocale driver_laws \<subseteq> runner: opened_and_closed "migrate_New D" "\<lambda>m w. snd (Migrator_Close D (Some m) w)"
    "\<lambda>m. SqlDB (the (mg_db m))" conns
proof
  show "migrate_New D a w = (Inr m, w') \<Longrightarrow> conns w' = add_mset (SqlDB (the (mg_db m))) (conns w)" for a w m w'
    by (drule migrate_New_opens) auto
  show "migrate_New D a w = (Inl err, w') \<Longrightarrow> conns w' = conns w" for a w err w'
    by (drule migrate_New_opens) simp
  show "migrate_New D a w0 = (Inr m, w') \<Longrightarrow>
      conns (snd (Migrator_Close D (Some m) w)) = conns w - {#SqlDB (the (mg_db m))#}" for a w0 m w' w
    using sql_closed [of "the (mg_db m)" w] migrate_New_opens [of a w0 "Inr m" w']
    by (auto simp: Migrator_Close_def split: prod.splits sum.splits)
qed

end
