(* ===== verification/Api_Strict.thy ===== *)
theory Api_Strict
  imports Api_Inspect Api_Auth Api_Accounts
begin

text \<open>
  The strict half of the generated \<^verbatim>\<open>internal/httpapi/openapi.gen.go\<close>: the interface that the server
  implements (\<^verbatim>\<open>StrictServerInterface\<close>), and for each operation the method of \<^verbatim>\<open>strictHandler\<close> that
  reads the body, runs the operation behind the middlewares and writes its response. The request
  object of an operation is passed as its fields.
\<close>

section \<open>The packages the generated code calls\<close>

text \<open>
  \<open>wb_read\<close> is \<^verbatim>\<open>io.ReadAll(r.Body)\<close>, the fields named after a type are \<^verbatim>\<open>json.NewDecoder(r.Body).Decode\<close>
  into that type, \<open>error_string\<close> is \<^verbatim>\<open>err.Error()\<close>.
\<close>

record 'w web =
  wb_pkgs :: "'w pkgs"
  wb_read :: "Request \<Rightarrow> ('w, string) act"
  wb_LoginRequest :: "Request \<Rightarrow> ('w, LoginRequest) act"
  wb_PasswordChangeRequest :: "Request \<Rightarrow> ('w, PasswordChangeRequest) act"
  wb_PasswordResetRequest :: "Request \<Rightarrow> ('w, PasswordResetRequest) act"
  wb_PasswordResetRequestRequest :: "Request \<Rightarrow> ('w, PasswordResetRequestRequest) act"
  wb_RegisterRequest :: "Request \<Rightarrow> ('w, RegisterRequest) act"
  wb_TransferRequest :: "Request \<Rightarrow> ('w, TransferRequest) act"
  error_string :: "goerr \<Rightarrow> string"

section \<open>The interface\<close>

record 'w StrictServerInterface =
  ssi_GetAccounts :: "Ctx \<Rightarrow> ('w, GetAccountsResponseObject) act"
  ssi_GetAdminAccounts :: "Ctx \<Rightarrow> ('w, GetAdminAccountsResponseObject) act"
  ssi_GetAdminTransfers :: "Ctx \<Rightarrow> ('w, GetAdminTransfersResponseObject) act"
  ssi_GetAdminUsers :: "Ctx \<Rightarrow> ('w, GetAdminUsersResponseObject) act"
  ssi_PostAdminUserPasswordReset :: "Ctx \<Rightarrow> uuid \<Rightarrow> PostAdminUserPasswordResetParams \<Rightarrow> ('w, PostAdminUserPasswordResetResponseObject) act"
  ssi_PostAdminUserUnlock :: "Ctx \<Rightarrow> uuid \<Rightarrow> PostAdminUserUnlockParams \<Rightarrow> ('w, PostAdminUserUnlockResponseObject) act"
  ssi_PostAuthLogin :: "Ctx \<Rightarrow> LoginRequest option \<Rightarrow> ('w, PostAuthLoginResponseObject) act"
  ssi_PostAuthLogout :: "Ctx \<Rightarrow> PostAuthLogoutParams \<Rightarrow> ('w, PostAuthLogoutResponseObject) act"
  ssi_GetAuthMe :: "Ctx \<Rightarrow> ('w, GetAuthMeResponseObject) act"
  ssi_PostAuthPasswordChange :: "Ctx \<Rightarrow> PostAuthPasswordChangeParams \<Rightarrow> PasswordChangeRequest option \<Rightarrow> ('w, PostAuthPasswordChangeResponseObject) act"
  ssi_PostAuthPasswordReset :: "Ctx \<Rightarrow> PasswordResetRequest option \<Rightarrow> ('w, PostAuthPasswordResetResponseObject) act"
  ssi_PostAuthPasswordResetRequest :: "Ctx \<Rightarrow> PasswordResetRequestRequest option \<Rightarrow> ('w, PostAuthPasswordResetRequestResponseObject) act"
  ssi_PostAuthRegister :: "Ctx \<Rightarrow> RegisterRequest option \<Rightarrow> ('w, PostAuthRegisterResponseObject) act"
  ssi_GetDelay :: "Ctx \<Rightarrow> float64 \<Rightarrow> ('w, GetDelayResponseObject) act"
  ssi_DeleteEcho :: "Ctx \<Rightarrow> string option \<Rightarrow> ('w, DeleteEchoResponseObject) act"
  ssi_GetEcho :: "Ctx \<Rightarrow> ('w, GetEchoResponseObject) act"
  ssi_PatchEcho :: "Ctx \<Rightarrow> string option \<Rightarrow> ('w, PatchEchoResponseObject) act"
  ssi_PostEcho :: "Ctx \<Rightarrow> string option \<Rightarrow> ('w, PostEchoResponseObject) act"
  ssi_PutEcho :: "Ctx \<Rightarrow> string option \<Rightarrow> ('w, PutEchoResponseObject) act"
  ssi_GetHeaders :: "Ctx \<Rightarrow> ('w, GetHeadersResponseObject) act"
  ssi_GetIp :: "Ctx \<Rightarrow> ('w, GetIpResponseObject) act"
  ssi_GetLivez :: "Ctx \<Rightarrow> ('w, GetLivezResponseObject) act"
  ssi_GetRatelimit :: "Ctx \<Rightarrow> ('w, GetRatelimitResponseObject) act"
  ssi_GetReadyz :: "Ctx \<Rightarrow> ('w, GetReadyzResponseObject) act"
  ssi_GetScheme :: "Ctx \<Rightarrow> ('w, GetSchemeResponseObject) act"
  ssi_GetStartupz :: "Ctx \<Rightarrow> ('w, GetStartupzResponseObject) act"
  ssi_GetStatus :: "Ctx \<Rightarrow> int \<Rightarrow> ('w, GetStatusResponseObject) act"
  ssi_PostTransfer :: "Ctx \<Rightarrow> PostTransferParams \<Rightarrow> TransferRequest option \<Rightarrow> ('w, PostTransferResponseObject) act"
  ssi_GetUserAgent :: "Ctx \<Rightarrow> ('w, GetUserAgentResponseObject) act"
  ssi_GetUuid :: "Ctx \<Rightarrow> ('w, GetUuidResponseObject) act"
  ssi_GetVersion :: "Ctx \<Rightarrow> ('w, GetVersionResponseObject) act"

text \<open>\<^verbatim>\<open>*Server\<close> implements it; \<open>T\<close> and \<open>toDuration\<close> are the timer and the float conversion of \<^verbatim>\<open>GetDelay\<close>.\<close>

definition server_ssi ::
    "'w pkgs \<Rightarrow> 'w rt \<Rightarrow> (float64 \<Rightarrow> Duration) \<Rightarrow> 'w Server \<Rightarrow> 'w StrictServerInterface" where
  "server_ssi K T toDuration s = \<lparr>
     ssi_GetAccounts = (\<lambda>ctx. GetAccounts K s),
     ssi_GetAdminAccounts = (\<lambda>ctx. GetAdminAccounts K s),
     ssi_GetAdminTransfers = (\<lambda>ctx. GetAdminTransfers K s),
     ssi_GetAdminUsers = (\<lambda>ctx. GetAdminUsers K s),
     ssi_PostAdminUserPasswordReset = (\<lambda>ctx i params. PostAdminUserPasswordReset K s i),
     ssi_PostAdminUserUnlock = (\<lambda>ctx i params. PostAdminUserUnlock K s i),
     ssi_PostAuthLogin = PostAuthLogin K s,
     ssi_PostAuthLogout = (\<lambda>ctx params. PostAuthLogout s ctx),
     ssi_GetAuthMe = GetAuthMe K,
     ssi_PostAuthPasswordChange = (\<lambda>ctx params. PostAuthPasswordChange K s ctx),
     ssi_PostAuthPasswordReset = (\<lambda>ctx. PostAuthPasswordReset K s),
     ssi_PostAuthPasswordResetRequest = (\<lambda>ctx. PostAuthPasswordResetRequest K s),
     ssi_PostAuthRegister = PostAuthRegister K s,
     ssi_GetDelay = (\<lambda>ctx. GetDelay T toDuration),
     ssi_DeleteEcho = DeleteEcho,
     ssi_GetEcho = GetEcho,
     ssi_PatchEcho = PatchEcho,
     ssi_PostEcho = PostEcho,
     ssi_PutEcho = PutEcho,
     ssi_GetHeaders = GetHeaders,
     ssi_GetIp = GetIp,
     ssi_GetLivez = (\<lambda>ctx. GetLivez),
     ssi_GetRatelimit = GetRatelimit s,
     ssi_GetReadyz = (\<lambda>ctx. GetReadyz s),
     ssi_GetScheme = GetScheme,
     ssi_GetStartupz = (\<lambda>ctx. GetStartupz s),
     ssi_GetStatus = (\<lambda>ctx. GetStatus),
     ssi_PostTransfer = PostTransfer K s,
     ssi_GetUserAgent = GetUserAgent,
     ssi_GetUuid = (\<lambda>ctx. GetUuid K),
     ssi_GetVersion = (\<lambda>ctx. GetVersion s)\<rparr>"

text \<open>A response of any operation: Go's \<^verbatim>\<open>any\<close>, as far as it is used here.\<close>

datatype any_response =
    any_GetAccounts GetAccountsResponseObject
  | any_GetAdminAccounts GetAdminAccountsResponseObject
  | any_GetAdminTransfers GetAdminTransfersResponseObject
  | any_GetAdminUsers GetAdminUsersResponseObject
  | any_PostAdminUserPasswordReset PostAdminUserPasswordResetResponseObject
  | any_PostAdminUserUnlock PostAdminUserUnlockResponseObject
  | any_PostAuthLogin PostAuthLoginResponseObject
  | any_PostAuthLogout PostAuthLogoutResponseObject
  | any_GetAuthMe GetAuthMeResponseObject
  | any_PostAuthPasswordChange PostAuthPasswordChangeResponseObject
  | any_PostAuthPasswordReset PostAuthPasswordResetResponseObject
  | any_PostAuthPasswordResetRequest PostAuthPasswordResetRequestResponseObject
  | any_PostAuthRegister PostAuthRegisterResponseObject
  | any_GetDelay GetDelayResponseObject
  | any_DeleteEcho DeleteEchoResponseObject
  | any_GetEcho GetEchoResponseObject
  | any_PatchEcho PatchEchoResponseObject
  | any_PostEcho PostEchoResponseObject
  | any_PutEcho PutEchoResponseObject
  | any_GetHeaders GetHeadersResponseObject
  | any_GetIp GetIpResponseObject
  | any_GetLivez GetLivezResponseObject
  | any_GetRatelimit GetRatelimitResponseObject
  | any_GetReadyz GetReadyzResponseObject
  | any_GetScheme GetSchemeResponseObject
  | any_GetStartupz GetStartupzResponseObject
  | any_GetStatus GetStatusResponseObject
  | any_PostTransfer PostTransferResponseObject
  | any_GetUserAgent GetUserAgentResponseObject
  | any_GetUuid GetUuidResponseObject
  | any_GetVersion GetVersionResponseObject

section \<open>strictHandler\<close>

type_synonym 'w StrictMiddlewareFunc =
  "('w, any_response) StrictHandlerFunc \<Rightarrow> string \<Rightarrow> ('w, any_response) StrictHandlerFunc"

record 'w strictHandler =
  sh_ssi :: "'w StrictServerInterface"
  sh_middlewares :: "'w StrictMiddlewareFunc list"

text \<open>The two error handlers of \<^verbatim>\<open>NewStrictHandler\<close>.\<close>

definition RequestErrorHandlerFunc :: "'w web \<Rightarrow> goerr \<Rightarrow> Writer \<Rightarrow> Writer" where
  "RequestErrorHandlerFunc W err w = http_Error (error_string W err) 400 w"

definition ResponseErrorHandlerFunc :: "'w web \<Rightarrow> goerr \<Rightarrow> Writer \<Rightarrow> Writer" where
  "ResponseErrorHandlerFunc W err w = http_Error (error_string W err) 500 w"

text \<open>The handler at the end of the chain: it calls the operation and writes nothing itself.\<close>

definition innermost :: "('r \<Rightarrow> any_response) \<Rightarrow> (Ctx \<Rightarrow> ('w, 'r) act) \<Rightarrow> ('w, any_response) StrictHandlerFunc" where
  "innermost wrap op ctx w r x =
     (case op ctx x of (Inl err, x1) \<Rightarrow> ((Inl err, w), x1) | (Inr resp, x1) \<Rightarrow> ((Inr (Some (wrap resp)), w), x1))"

text \<open>
  The common end of the methods: the middlewares around the handler, then the error, the response
  (\<open>visit\<close> is the type assertion together with the \<^verbatim>\<open>Visit\<close> method) or nothing.
\<close>

definition strict_serve ::
    "'w web \<Rightarrow> 'w strictHandler \<Rightarrow> string \<Rightarrow> ('w, any_response) StrictHandlerFunc \<Rightarrow>
     (any_response \<Rightarrow> (Writer \<Rightarrow> goerr option \<times> Writer) option) \<Rightarrow> Writer \<Rightarrow> Request \<Rightarrow> 'w \<Rightarrow> Writer \<times> 'w" where
  "strict_serve W sh operationID handler visit w r x =
     (case foldl (\<lambda>h middleware. middleware h operationID) handler (sh_middlewares sh) (Context r) w r x of
        ((Inl err, w1), x1) \<Rightarrow> (ResponseErrorHandlerFunc W err w1, x1)
      | ((Inr None, w1), x1) \<Rightarrow> (w1, x1)
      | ((Inr (Some response), w1), x1) \<Rightarrow>
          (case visit response of
             None \<Rightarrow> (ResponseErrorHandlerFunc W (Leaf (OtherErr ''unexpected response type: %T'')) w1, x1)
           | Some write \<Rightarrow>
               (case write w1 of
                  (None, w2) \<Rightarrow> (w2, x1)
                | (Some err, w2) \<Rightarrow> (ResponseErrorHandlerFunc W err w2, x1))))"

text \<open>The decoding of a JSON body, and the reading of a text body that is absent when empty.\<close>

definition with_json ::
    "'w web \<Rightarrow> (Request \<Rightarrow> ('w, 'b) act) \<Rightarrow> ('b option \<Rightarrow> Writer \<Rightarrow> Request \<Rightarrow> 'w \<Rightarrow> Writer \<times> 'w) \<Rightarrow>
     Writer \<Rightarrow> Request \<Rightarrow> 'w \<Rightarrow> Writer \<times> 'w" where
  "with_json W decode rest w r x =
     (case decode r x of
        (Inl err, x1) \<Rightarrow> (RequestErrorHandlerFunc W (Wrapf ''can't decode JSON body: %w'' [err]) w, x1)
      | (Inr body, x1) \<Rightarrow> rest (Some body) w r x1)"

definition with_text ::
    "'w web \<Rightarrow> (string option \<Rightarrow> Writer \<Rightarrow> Request \<Rightarrow> 'w \<Rightarrow> Writer \<times> 'w) \<Rightarrow>
     Writer \<Rightarrow> Request \<Rightarrow> 'w \<Rightarrow> Writer \<times> 'w" where
  "with_text W rest w r x =
     (case wb_read W r x of
        (Inl err, x1) \<Rightarrow> (RequestErrorHandlerFunc W (Wrapf ''can't read body: %w'' [err]) w, x1)
      | (Inr data, x1) \<Rightarrow> rest (if length data > 0 then Some data else None) w r x1)"

definition strict_GetAccounts ::
    "'w web \<Rightarrow> 'w strictHandler \<Rightarrow> Writer \<Rightarrow> Request \<Rightarrow> 'w \<Rightarrow> Writer \<times> 'w" where
  "strict_GetAccounts W sh w r =
     strict_serve W sh ''GetAccounts'' (innermost any_GetAccounts (ssi_GetAccounts (sh_ssi sh)))
        (\<lambda>response. case response of any_GetAccounts v \<Rightarrow> Some (VisitGetAccountsResponse (json_encode (wb_pkgs W)) v) | _ \<Rightarrow> None) w r"

definition strict_GetAdminAccounts ::
    "'w web \<Rightarrow> 'w strictHandler \<Rightarrow> Writer \<Rightarrow> Request \<Rightarrow> 'w \<Rightarrow> Writer \<times> 'w" where
  "strict_GetAdminAccounts W sh w r =
     strict_serve W sh ''GetAdminAccounts'' (innermost any_GetAdminAccounts (ssi_GetAdminAccounts (sh_ssi sh)))
        (\<lambda>response. case response of any_GetAdminAccounts v \<Rightarrow> Some (VisitGetAdminAccountsResponse (json_encode (wb_pkgs W)) v) | _ \<Rightarrow> None) w r"

definition strict_GetAdminTransfers ::
    "'w web \<Rightarrow> 'w strictHandler \<Rightarrow> Writer \<Rightarrow> Request \<Rightarrow> 'w \<Rightarrow> Writer \<times> 'w" where
  "strict_GetAdminTransfers W sh w r =
     strict_serve W sh ''GetAdminTransfers'' (innermost any_GetAdminTransfers (ssi_GetAdminTransfers (sh_ssi sh)))
        (\<lambda>response. case response of any_GetAdminTransfers v \<Rightarrow> Some (VisitGetAdminTransfersResponse (json_encode (wb_pkgs W)) v) | _ \<Rightarrow> None) w r"

definition strict_GetAdminUsers ::
    "'w web \<Rightarrow> 'w strictHandler \<Rightarrow> Writer \<Rightarrow> Request \<Rightarrow> 'w \<Rightarrow> Writer \<times> 'w" where
  "strict_GetAdminUsers W sh w r =
     strict_serve W sh ''GetAdminUsers'' (innermost any_GetAdminUsers (ssi_GetAdminUsers (sh_ssi sh)))
        (\<lambda>response. case response of any_GetAdminUsers v \<Rightarrow> Some (VisitGetAdminUsersResponse (json_encode (wb_pkgs W)) v) | _ \<Rightarrow> None) w r"

definition strict_PostAdminUserPasswordReset ::
    "'w web \<Rightarrow> 'w strictHandler \<Rightarrow> Writer \<Rightarrow> Request \<Rightarrow> uuid \<Rightarrow> PostAdminUserPasswordResetParams \<Rightarrow> 'w \<Rightarrow> Writer \<times> 'w" where
  "strict_PostAdminUserPasswordReset W sh w r i params =
     strict_serve W sh ''PostAdminUserPasswordReset'' (innermost any_PostAdminUserPasswordReset (\<lambda>ctx. ssi_PostAdminUserPasswordReset (sh_ssi sh) ctx i params))
        (\<lambda>response. case response of any_PostAdminUserPasswordReset v \<Rightarrow> Some (VisitPostAdminUserPasswordResetResponse (json_encode (wb_pkgs W)) v) | _ \<Rightarrow> None) w r"

definition strict_PostAdminUserUnlock ::
    "'w web \<Rightarrow> 'w strictHandler \<Rightarrow> Writer \<Rightarrow> Request \<Rightarrow> uuid \<Rightarrow> PostAdminUserUnlockParams \<Rightarrow> 'w \<Rightarrow> Writer \<times> 'w" where
  "strict_PostAdminUserUnlock W sh w r i params =
     strict_serve W sh ''PostAdminUserUnlock'' (innermost any_PostAdminUserUnlock (\<lambda>ctx. ssi_PostAdminUserUnlock (sh_ssi sh) ctx i params))
        (\<lambda>response. case response of any_PostAdminUserUnlock v \<Rightarrow> Some (VisitPostAdminUserUnlockResponse (json_encode (wb_pkgs W)) v) | _ \<Rightarrow> None) w r"

definition strict_PostAuthLogin ::
    "'w web \<Rightarrow> 'w strictHandler \<Rightarrow> Writer \<Rightarrow> Request \<Rightarrow> 'w \<Rightarrow> Writer \<times> 'w" where
  "strict_PostAuthLogin W sh w r =
     with_json W (wb_LoginRequest W) (\<lambda>body. strict_serve W sh ''PostAuthLogin'' (innermost any_PostAuthLogin (\<lambda>ctx. ssi_PostAuthLogin (sh_ssi sh) ctx body))
        (\<lambda>response. case response of any_PostAuthLogin v \<Rightarrow> Some (VisitPostAuthLoginResponse (json_encode (wb_pkgs W)) v) | _ \<Rightarrow> None)) w r"

definition strict_PostAuthLogout ::
    "'w web \<Rightarrow> 'w strictHandler \<Rightarrow> Writer \<Rightarrow> Request \<Rightarrow> PostAuthLogoutParams \<Rightarrow> 'w \<Rightarrow> Writer \<times> 'w" where
  "strict_PostAuthLogout W sh w r params =
     strict_serve W sh ''PostAuthLogout'' (innermost any_PostAuthLogout (\<lambda>ctx. ssi_PostAuthLogout (sh_ssi sh) ctx params))
        (\<lambda>response. case response of any_PostAuthLogout v \<Rightarrow> Some (VisitPostAuthLogoutResponse (json_encode (wb_pkgs W)) v) | _ \<Rightarrow> None) w r"

definition strict_GetAuthMe ::
    "'w web \<Rightarrow> 'w strictHandler \<Rightarrow> Writer \<Rightarrow> Request \<Rightarrow> 'w \<Rightarrow> Writer \<times> 'w" where
  "strict_GetAuthMe W sh w r =
     strict_serve W sh ''GetAuthMe'' (innermost any_GetAuthMe (ssi_GetAuthMe (sh_ssi sh)))
        (\<lambda>response. case response of any_GetAuthMe v \<Rightarrow> Some (VisitGetAuthMeResponse (json_encode (wb_pkgs W)) v) | _ \<Rightarrow> None) w r"

definition strict_PostAuthPasswordChange ::
    "'w web \<Rightarrow> 'w strictHandler \<Rightarrow> Writer \<Rightarrow> Request \<Rightarrow> PostAuthPasswordChangeParams \<Rightarrow> 'w \<Rightarrow> Writer \<times> 'w" where
  "strict_PostAuthPasswordChange W sh w r params =
     with_json W (wb_PasswordChangeRequest W) (\<lambda>body. strict_serve W sh ''PostAuthPasswordChange'' (innermost any_PostAuthPasswordChange (\<lambda>ctx. ssi_PostAuthPasswordChange (sh_ssi sh) ctx params body))
        (\<lambda>response. case response of any_PostAuthPasswordChange v \<Rightarrow> Some (VisitPostAuthPasswordChangeResponse (json_encode (wb_pkgs W)) v) | _ \<Rightarrow> None)) w r"

definition strict_PostAuthPasswordReset ::
    "'w web \<Rightarrow> 'w strictHandler \<Rightarrow> Writer \<Rightarrow> Request \<Rightarrow> 'w \<Rightarrow> Writer \<times> 'w" where
  "strict_PostAuthPasswordReset W sh w r =
     with_json W (wb_PasswordResetRequest W) (\<lambda>body. strict_serve W sh ''PostAuthPasswordReset'' (innermost any_PostAuthPasswordReset (\<lambda>ctx. ssi_PostAuthPasswordReset (sh_ssi sh) ctx body))
        (\<lambda>response. case response of any_PostAuthPasswordReset v \<Rightarrow> Some (VisitPostAuthPasswordResetResponse (json_encode (wb_pkgs W)) v) | _ \<Rightarrow> None)) w r"

definition strict_PostAuthPasswordResetRequest ::
    "'w web \<Rightarrow> 'w strictHandler \<Rightarrow> Writer \<Rightarrow> Request \<Rightarrow> 'w \<Rightarrow> Writer \<times> 'w" where
  "strict_PostAuthPasswordResetRequest W sh w r =
     with_json W (wb_PasswordResetRequestRequest W) (\<lambda>body. strict_serve W sh ''PostAuthPasswordResetRequest'' (innermost any_PostAuthPasswordResetRequest (\<lambda>ctx. ssi_PostAuthPasswordResetRequest (sh_ssi sh) ctx body))
        (\<lambda>response. case response of any_PostAuthPasswordResetRequest v \<Rightarrow> Some (VisitPostAuthPasswordResetRequestResponse (json_encode (wb_pkgs W)) v) | _ \<Rightarrow> None)) w r"

definition strict_PostAuthRegister ::
    "'w web \<Rightarrow> 'w strictHandler \<Rightarrow> Writer \<Rightarrow> Request \<Rightarrow> 'w \<Rightarrow> Writer \<times> 'w" where
  "strict_PostAuthRegister W sh w r =
     with_json W (wb_RegisterRequest W) (\<lambda>body. strict_serve W sh ''PostAuthRegister'' (innermost any_PostAuthRegister (\<lambda>ctx. ssi_PostAuthRegister (sh_ssi sh) ctx body))
        (\<lambda>response. case response of any_PostAuthRegister v \<Rightarrow> Some (VisitPostAuthRegisterResponse (json_encode (wb_pkgs W)) v) | _ \<Rightarrow> None)) w r"

definition strict_GetDelay ::
    "'w web \<Rightarrow> 'w strictHandler \<Rightarrow> Writer \<Rightarrow> Request \<Rightarrow> float64 \<Rightarrow> 'w \<Rightarrow> Writer \<times> 'w" where
  "strict_GetDelay W sh w r seconds =
     strict_serve W sh ''GetDelay'' (innermost any_GetDelay (\<lambda>ctx. ssi_GetDelay (sh_ssi sh) ctx seconds))
        (\<lambda>response. case response of any_GetDelay v \<Rightarrow> Some (VisitGetDelayResponse (json_encode (wb_pkgs W)) v) | _ \<Rightarrow> None) w r"

definition strict_DeleteEcho ::
    "'w web \<Rightarrow> 'w strictHandler \<Rightarrow> Writer \<Rightarrow> Request \<Rightarrow> 'w \<Rightarrow> Writer \<times> 'w" where
  "strict_DeleteEcho W sh w r =
     with_text W (\<lambda>body. strict_serve W sh ''DeleteEcho'' (innermost any_DeleteEcho (\<lambda>ctx. ssi_DeleteEcho (sh_ssi sh) ctx body))
        (\<lambda>response. case response of any_DeleteEcho v \<Rightarrow> Some (VisitDeleteEchoResponse (json_encode (wb_pkgs W)) v) | _ \<Rightarrow> None)) w r"

definition strict_GetEcho ::
    "'w web \<Rightarrow> 'w strictHandler \<Rightarrow> Writer \<Rightarrow> Request \<Rightarrow> 'w \<Rightarrow> Writer \<times> 'w" where
  "strict_GetEcho W sh w r =
     strict_serve W sh ''GetEcho'' (innermost any_GetEcho (ssi_GetEcho (sh_ssi sh)))
        (\<lambda>response. case response of any_GetEcho v \<Rightarrow> Some (VisitGetEchoResponse (json_encode (wb_pkgs W)) v) | _ \<Rightarrow> None) w r"

definition strict_PatchEcho ::
    "'w web \<Rightarrow> 'w strictHandler \<Rightarrow> Writer \<Rightarrow> Request \<Rightarrow> 'w \<Rightarrow> Writer \<times> 'w" where
  "strict_PatchEcho W sh w r =
     with_text W (\<lambda>body. strict_serve W sh ''PatchEcho'' (innermost any_PatchEcho (\<lambda>ctx. ssi_PatchEcho (sh_ssi sh) ctx body))
        (\<lambda>response. case response of any_PatchEcho v \<Rightarrow> Some (VisitPatchEchoResponse (json_encode (wb_pkgs W)) v) | _ \<Rightarrow> None)) w r"

definition strict_PostEcho ::
    "'w web \<Rightarrow> 'w strictHandler \<Rightarrow> Writer \<Rightarrow> Request \<Rightarrow> 'w \<Rightarrow> Writer \<times> 'w" where
  "strict_PostEcho W sh w r =
     with_text W (\<lambda>body. strict_serve W sh ''PostEcho'' (innermost any_PostEcho (\<lambda>ctx. ssi_PostEcho (sh_ssi sh) ctx body))
        (\<lambda>response. case response of any_PostEcho v \<Rightarrow> Some (VisitPostEchoResponse (json_encode (wb_pkgs W)) v) | _ \<Rightarrow> None)) w r"

definition strict_PutEcho ::
    "'w web \<Rightarrow> 'w strictHandler \<Rightarrow> Writer \<Rightarrow> Request \<Rightarrow> 'w \<Rightarrow> Writer \<times> 'w" where
  "strict_PutEcho W sh w r =
     with_text W (\<lambda>body. strict_serve W sh ''PutEcho'' (innermost any_PutEcho (\<lambda>ctx. ssi_PutEcho (sh_ssi sh) ctx body))
        (\<lambda>response. case response of any_PutEcho v \<Rightarrow> Some (VisitPutEchoResponse (json_encode (wb_pkgs W)) v) | _ \<Rightarrow> None)) w r"

definition strict_GetHeaders ::
    "'w web \<Rightarrow> 'w strictHandler \<Rightarrow> Writer \<Rightarrow> Request \<Rightarrow> 'w \<Rightarrow> Writer \<times> 'w" where
  "strict_GetHeaders W sh w r =
     strict_serve W sh ''GetHeaders'' (innermost any_GetHeaders (ssi_GetHeaders (sh_ssi sh)))
        (\<lambda>response. case response of any_GetHeaders v \<Rightarrow> Some (VisitGetHeadersResponse (json_encode (wb_pkgs W)) v) | _ \<Rightarrow> None) w r"

definition strict_GetIp ::
    "'w web \<Rightarrow> 'w strictHandler \<Rightarrow> Writer \<Rightarrow> Request \<Rightarrow> 'w \<Rightarrow> Writer \<times> 'w" where
  "strict_GetIp W sh w r =
     strict_serve W sh ''GetIp'' (innermost any_GetIp (ssi_GetIp (sh_ssi sh)))
        (\<lambda>response. case response of any_GetIp v \<Rightarrow> Some (VisitGetIpResponse (json_encode (wb_pkgs W)) v) | _ \<Rightarrow> None) w r"

definition strict_GetLivez ::
    "'w web \<Rightarrow> 'w strictHandler \<Rightarrow> Writer \<Rightarrow> Request \<Rightarrow> 'w \<Rightarrow> Writer \<times> 'w" where
  "strict_GetLivez W sh w r =
     strict_serve W sh ''GetLivez'' (innermost any_GetLivez (ssi_GetLivez (sh_ssi sh)))
        (\<lambda>response. case response of any_GetLivez v \<Rightarrow> Some (VisitGetLivezResponse (json_encode (wb_pkgs W)) v) | _ \<Rightarrow> None) w r"

definition strict_GetRatelimit ::
    "'w web \<Rightarrow> 'w strictHandler \<Rightarrow> Writer \<Rightarrow> Request \<Rightarrow> 'w \<Rightarrow> Writer \<times> 'w" where
  "strict_GetRatelimit W sh w r =
     strict_serve W sh ''GetRatelimit'' (innermost any_GetRatelimit (ssi_GetRatelimit (sh_ssi sh)))
        (\<lambda>response. case response of any_GetRatelimit v \<Rightarrow> Some (VisitGetRatelimitResponse (json_encode (wb_pkgs W)) v) | _ \<Rightarrow> None) w r"

definition strict_GetReadyz ::
    "'w web \<Rightarrow> 'w strictHandler \<Rightarrow> Writer \<Rightarrow> Request \<Rightarrow> 'w \<Rightarrow> Writer \<times> 'w" where
  "strict_GetReadyz W sh w r =
     strict_serve W sh ''GetReadyz'' (innermost any_GetReadyz (ssi_GetReadyz (sh_ssi sh)))
        (\<lambda>response. case response of any_GetReadyz v \<Rightarrow> Some (VisitGetReadyzResponse (json_encode (wb_pkgs W)) v) | _ \<Rightarrow> None) w r"

definition strict_GetScheme ::
    "'w web \<Rightarrow> 'w strictHandler \<Rightarrow> Writer \<Rightarrow> Request \<Rightarrow> 'w \<Rightarrow> Writer \<times> 'w" where
  "strict_GetScheme W sh w r =
     strict_serve W sh ''GetScheme'' (innermost any_GetScheme (ssi_GetScheme (sh_ssi sh)))
        (\<lambda>response. case response of any_GetScheme v \<Rightarrow> Some (VisitGetSchemeResponse (json_encode (wb_pkgs W)) v) | _ \<Rightarrow> None) w r"

definition strict_GetStartupz ::
    "'w web \<Rightarrow> 'w strictHandler \<Rightarrow> Writer \<Rightarrow> Request \<Rightarrow> 'w \<Rightarrow> Writer \<times> 'w" where
  "strict_GetStartupz W sh w r =
     strict_serve W sh ''GetStartupz'' (innermost any_GetStartupz (ssi_GetStartupz (sh_ssi sh)))
        (\<lambda>response. case response of any_GetStartupz v \<Rightarrow> Some (VisitGetStartupzResponse (json_encode (wb_pkgs W)) v) | _ \<Rightarrow> None) w r"

definition strict_GetStatus ::
    "'w web \<Rightarrow> 'w strictHandler \<Rightarrow> Writer \<Rightarrow> Request \<Rightarrow> int \<Rightarrow> 'w \<Rightarrow> Writer \<times> 'w" where
  "strict_GetStatus W sh w r code =
     strict_serve W sh ''GetStatus'' (innermost any_GetStatus (\<lambda>ctx. ssi_GetStatus (sh_ssi sh) ctx code))
        (\<lambda>response. case response of any_GetStatus v \<Rightarrow> Some (VisitGetStatusResponse (json_encode (wb_pkgs W)) v) | _ \<Rightarrow> None) w r"

definition strict_PostTransfer ::
    "'w web \<Rightarrow> 'w strictHandler \<Rightarrow> Writer \<Rightarrow> Request \<Rightarrow> PostTransferParams \<Rightarrow> 'w \<Rightarrow> Writer \<times> 'w" where
  "strict_PostTransfer W sh w r params =
     with_json W (wb_TransferRequest W) (\<lambda>body. strict_serve W sh ''PostTransfer'' (innermost any_PostTransfer (\<lambda>ctx. ssi_PostTransfer (sh_ssi sh) ctx params body))
        (\<lambda>response. case response of any_PostTransfer v \<Rightarrow> Some (VisitPostTransferResponse (json_encode (wb_pkgs W)) v) | _ \<Rightarrow> None)) w r"

definition strict_GetUserAgent ::
    "'w web \<Rightarrow> 'w strictHandler \<Rightarrow> Writer \<Rightarrow> Request \<Rightarrow> 'w \<Rightarrow> Writer \<times> 'w" where
  "strict_GetUserAgent W sh w r =
     strict_serve W sh ''GetUserAgent'' (innermost any_GetUserAgent (ssi_GetUserAgent (sh_ssi sh)))
        (\<lambda>response. case response of any_GetUserAgent v \<Rightarrow> Some (VisitGetUserAgentResponse (json_encode (wb_pkgs W)) v) | _ \<Rightarrow> None) w r"

definition strict_GetUuid ::
    "'w web \<Rightarrow> 'w strictHandler \<Rightarrow> Writer \<Rightarrow> Request \<Rightarrow> 'w \<Rightarrow> Writer \<times> 'w" where
  "strict_GetUuid W sh w r =
     strict_serve W sh ''GetUuid'' (innermost any_GetUuid (ssi_GetUuid (sh_ssi sh)))
        (\<lambda>response. case response of any_GetUuid v \<Rightarrow> Some (VisitGetUuidResponse (json_encode (wb_pkgs W)) v) | _ \<Rightarrow> None) w r"

definition strict_GetVersion ::
    "'w web \<Rightarrow> 'w strictHandler \<Rightarrow> Writer \<Rightarrow> Request \<Rightarrow> 'w \<Rightarrow> Writer \<times> 'w" where
  "strict_GetVersion W sh w r =
     strict_serve W sh ''GetVersion'' (innermost any_GetVersion (ssi_GetVersion (sh_ssi sh)))
        (\<lambda>response. case response of any_GetVersion v \<Rightarrow> Some (VisitGetVersionResponse (json_encode (wb_pkgs W)) v) | _ \<Rightarrow> None) w r"

end
