(* ===== verification/Api_Wrapper.thy ===== *)
theory Api_Wrapper
  imports Api_Strict
begin

text \<open>
  The other half of the generated \<^verbatim>\<open>internal/httpapi/openapi.gen.go\<close>: \<^verbatim>\<open>ServerInterfaceWrapper\<close>, whose
  methods bind the path, query and header parameters of an operation before they call it, the errors
  of that binding, and the route table of \<^verbatim>\<open>HandlerWithOptions\<close>.
\<close>

section \<open>Binding parameters\<close>

text \<open>
  The packages \<^verbatim>\<open>chi\<close> and \<^verbatim>\<open>oapi-codegen/runtime\<close>: the path parameter of the matched route, and the
  binding of a styled or query parameter to a value of its type. \<open>required_error\<close> tells whether an
  error is a \<^verbatim>\<open>*runtime.RequiredParameterError\<close>.
\<close>

record bindings =
  URLParam :: "Request \<Rightarrow> string \<Rightarrow> string"
  bind_uuid :: "string \<Rightarrow> string \<Rightarrow> uuid res"
  bind_float64 :: "string \<Rightarrow> string \<Rightarrow> float64 res"
  bind_int32 :: "string \<Rightarrow> string \<Rightarrow> int res"
  bind_header :: "string \<Rightarrow> string \<Rightarrow> string res"
  bind_query_string :: "string \<Rightarrow> HeaderMap \<Rightarrow> string option res"
  bind_query_int32 :: "string \<Rightarrow> HeaderMap \<Rightarrow> int option res"
  required_error :: "goerr \<Rightarrow> bool"

datatype ParamError =
    UnescapedCookieParamError string goerr
  | UnmarshalingParamError string goerr
  | RequiredParamError string
  | RequiredHeaderError string goerr
  | InvalidParamFormatError string goerr
  | TooManyValuesForParamError string nat

fun ParamError_Error :: "(goerr \<Rightarrow> string) \<Rightarrow> ParamError \<Rightarrow> string" where
  "ParamError_Error str (UnescapedCookieParamError p err) = ''error unescaping cookie parameter '' @ [CHR 0x27] @ p @ [CHR 0x27]"
| "ParamError_Error str (UnmarshalingParamError p err) = ''Error unmarshaling parameter '' @ p @ '' as JSON: '' @ str err"
| "ParamError_Error str (RequiredParamError p) = ''Query argument '' @ p @ '' is required, but not found''"
| "ParamError_Error str (RequiredHeaderError p err) = ''Header parameter '' @ p @ '' is required, but not found''"
| "ParamError_Error str (InvalidParamFormatError p err) = ''Invalid format for parameter '' @ p @ '': '' @ str err"
| "ParamError_Error str (TooManyValuesForParamError p n) = ''Expected one value for '' @ p @ '', got '' @ show_nat n"

fun ParamError_Unwrap :: "ParamError \<Rightarrow> goerr option" where
  "ParamError_Unwrap (UnescapedCookieParamError p err) = Some err"
| "ParamError_Unwrap (UnmarshalingParamError p err) = Some err"
| "ParamError_Unwrap (RequiredHeaderError p err) = Some err"
| "ParamError_Unwrap (InvalidParamFormatError p err) = Some err"
| "ParamError_Unwrap _ = None"

section \<open>ServerInterfaceWrapper\<close>

type_synonym 'w handler = "Writer \<Rightarrow> Request \<Rightarrow> 'w \<Rightarrow> Writer \<times> 'w"

record 'w ServerInterface =
  si_GetAccounts :: "Writer \<Rightarrow> Request \<Rightarrow> 'w \<Rightarrow> Writer \<times> 'w"
  si_GetAdminAccounts :: "Writer \<Rightarrow> Request \<Rightarrow> 'w \<Rightarrow> Writer \<times> 'w"
  si_GetAdminTransfers :: "Writer \<Rightarrow> Request \<Rightarrow> 'w \<Rightarrow> Writer \<times> 'w"
  si_GetAdminUsers :: "Writer \<Rightarrow> Request \<Rightarrow> 'w \<Rightarrow> Writer \<times> 'w"
  si_PostAdminUserPasswordReset :: "Writer \<Rightarrow> Request \<Rightarrow> uuid \<Rightarrow> PostAdminUserPasswordResetParams \<Rightarrow> 'w \<Rightarrow> Writer \<times> 'w"
  si_PostAdminUserUnlock :: "Writer \<Rightarrow> Request \<Rightarrow> uuid \<Rightarrow> PostAdminUserUnlockParams \<Rightarrow> 'w \<Rightarrow> Writer \<times> 'w"
  si_PostAuthLogin :: "Writer \<Rightarrow> Request \<Rightarrow> 'w \<Rightarrow> Writer \<times> 'w"
  si_PostAuthLogout :: "Writer \<Rightarrow> Request \<Rightarrow> PostAuthLogoutParams \<Rightarrow> 'w \<Rightarrow> Writer \<times> 'w"
  si_GetAuthMe :: "Writer \<Rightarrow> Request \<Rightarrow> 'w \<Rightarrow> Writer \<times> 'w"
  si_PostAuthPasswordChange :: "Writer \<Rightarrow> Request \<Rightarrow> PostAuthPasswordChangeParams \<Rightarrow> 'w \<Rightarrow> Writer \<times> 'w"
  si_PostAuthPasswordReset :: "Writer \<Rightarrow> Request \<Rightarrow> 'w \<Rightarrow> Writer \<times> 'w"
  si_PostAuthPasswordResetRequest :: "Writer \<Rightarrow> Request \<Rightarrow> 'w \<Rightarrow> Writer \<times> 'w"
  si_PostAuthRegister :: "Writer \<Rightarrow> Request \<Rightarrow> 'w \<Rightarrow> Writer \<times> 'w"
  si_GetDelay :: "Writer \<Rightarrow> Request \<Rightarrow> float64 \<Rightarrow> 'w \<Rightarrow> Writer \<times> 'w"
  si_DeleteEcho :: "Writer \<Rightarrow> Request \<Rightarrow> 'w \<Rightarrow> Writer \<times> 'w"
  si_GetEcho :: "Writer \<Rightarrow> Request \<Rightarrow> 'w \<Rightarrow> Writer \<times> 'w"
  si_PatchEcho :: "Writer \<Rightarrow> Request \<Rightarrow> 'w \<Rightarrow> Writer \<times> 'w"
  si_PostEcho :: "Writer \<Rightarrow> Request \<Rightarrow> 'w \<Rightarrow> Writer \<times> 'w"
  si_PutEcho :: "Writer \<Rightarrow> Request \<Rightarrow> 'w \<Rightarrow> Writer \<times> 'w"
  si_GetHeaders :: "Writer \<Rightarrow> Request \<Rightarrow> 'w \<Rightarrow> Writer \<times> 'w"
  si_GetIp :: "Writer \<Rightarrow> Request \<Rightarrow> 'w \<Rightarrow> Writer \<times> 'w"
  si_GetLivez :: "Writer \<Rightarrow> Request \<Rightarrow> 'w \<Rightarrow> Writer \<times> 'w"
  si_GetRatelimit :: "Writer \<Rightarrow> Request \<Rightarrow> 'w \<Rightarrow> Writer \<times> 'w"
  si_GetReadyz :: "Writer \<Rightarrow> Request \<Rightarrow> 'w \<Rightarrow> Writer \<times> 'w"
  si_GetScheme :: "Writer \<Rightarrow> Request \<Rightarrow> 'w \<Rightarrow> Writer \<times> 'w"
  si_GetStartupz :: "Writer \<Rightarrow> Request \<Rightarrow> 'w \<Rightarrow> Writer \<times> 'w"
  si_GetStatus :: "Writer \<Rightarrow> Request \<Rightarrow> int \<Rightarrow> 'w \<Rightarrow> Writer \<times> 'w"
  si_PostTransfer :: "Writer \<Rightarrow> Request \<Rightarrow> PostTransferParams \<Rightarrow> 'w \<Rightarrow> Writer \<times> 'w"
  si_GetUserAgent :: "Writer \<Rightarrow> Request \<Rightarrow> 'w \<Rightarrow> Writer \<times> 'w"
  si_GetUuid :: "Writer \<Rightarrow> Request \<Rightarrow> 'w \<Rightarrow> Writer \<times> 'w"
  si_GetVersion :: "Writer \<Rightarrow> Request \<Rightarrow> 'w \<Rightarrow> Writer \<times> 'w"

record 'w ServerInterfaceWrapper =
  siw_Handler :: "'w ServerInterface"
  siw_HandlerMiddlewares :: "('w handler \<Rightarrow> 'w handler) list"
  siw_ErrorHandlerFunc :: "Writer \<Rightarrow> Request \<Rightarrow> ParamError \<Rightarrow> Writer"

text \<open>The common end of the methods: the operation behind the middlewares of the options.\<close>

definition serve_operation :: "'w ServerInterfaceWrapper \<Rightarrow> 'w handler \<Rightarrow> 'w handler" where
  "serve_operation siw handler = foldl (\<lambda>h middleware. middleware h) handler (siw_HandlerMiddlewares siw)"

text \<open>The optional header parameter \<^verbatim>\<open>X-CSRF-Token\<close>.\<close>

definition csrf_param :: "bindings \<Rightarrow> Request \<Rightarrow> ParamError + string option" where
  "csrf_param B r =
     (case Header r csrfHeaderKey of
        None \<Rightarrow> Inr None
      | Some valueList \<Rightarrow>
          if length valueList \<noteq> 1 then Inl (TooManyValuesForParamError ''X-CSRF-Token'' (length valueList))
          else (case bind_header B ''X-CSRF-Token'' (hd valueList) of
                  Inl err \<Rightarrow> Inl (InvalidParamFormatError ''X-CSRF-Token'' err)
                | Inr v \<Rightarrow> Inr (Some v)))"

text \<open>The error of an optional query parameter.\<close>

definition query_error :: "bindings \<Rightarrow> string \<Rightarrow> goerr \<Rightarrow> ParamError" where
  "query_error B name err = (if required_error B err then RequiredParamError name else InvalidParamFormatError name err)"

definition wrap_GetAccounts :: "bindings \<Rightarrow> 'w ServerInterfaceWrapper \<Rightarrow> 'w handler" where
  "wrap_GetAccounts B siw w r x =
     serve_operation siw (si_GetAccounts (siw_Handler siw)) w r x"

definition wrap_GetAdminAccounts :: "bindings \<Rightarrow> 'w ServerInterfaceWrapper \<Rightarrow> 'w handler" where
  "wrap_GetAdminAccounts B siw w r x =
     serve_operation siw (si_GetAdminAccounts (siw_Handler siw)) w r x"

definition wrap_GetAdminTransfers :: "bindings \<Rightarrow> 'w ServerInterfaceWrapper \<Rightarrow> 'w handler" where
  "wrap_GetAdminTransfers B siw w r x =
     serve_operation siw (si_GetAdminTransfers (siw_Handler siw)) w r x"

definition wrap_GetAdminUsers :: "bindings \<Rightarrow> 'w ServerInterfaceWrapper \<Rightarrow> 'w handler" where
  "wrap_GetAdminUsers B siw w r x =
     serve_operation siw (si_GetAdminUsers (siw_Handler siw)) w r x"

definition wrap_PostAdminUserPasswordReset :: "bindings \<Rightarrow> 'w ServerInterfaceWrapper \<Rightarrow> 'w handler" where
  "wrap_PostAdminUserPasswordReset B siw w r x =
     (case bind_uuid B ''id'' (URLParam B r ''id'') of
        Inl err \<Rightarrow> (siw_ErrorHandlerFunc siw w r (InvalidParamFormatError ''id'' err), x)
      | Inr i \<Rightarrow>
     (case csrf_param B r of
        Inl err \<Rightarrow> (siw_ErrorHandlerFunc siw w r err, x)
      | Inr token \<Rightarrow> serve_operation siw (\<lambda>w r. si_PostAdminUserPasswordReset (siw_Handler siw) w r i \<lparr>PostAdminUserPasswordResetParams_XCSRFToken = token\<rparr>) w r x))"

definition wrap_PostAdminUserUnlock :: "bindings \<Rightarrow> 'w ServerInterfaceWrapper \<Rightarrow> 'w handler" where
  "wrap_PostAdminUserUnlock B siw w r x =
     (case bind_uuid B ''id'' (URLParam B r ''id'') of
        Inl err \<Rightarrow> (siw_ErrorHandlerFunc siw w r (InvalidParamFormatError ''id'' err), x)
      | Inr i \<Rightarrow>
     (case csrf_param B r of
        Inl err \<Rightarrow> (siw_ErrorHandlerFunc siw w r err, x)
      | Inr token \<Rightarrow> serve_operation siw (\<lambda>w r. si_PostAdminUserUnlock (siw_Handler siw) w r i \<lparr>PostAdminUserUnlockParams_XCSRFToken = token\<rparr>) w r x))"

definition wrap_PostAuthLogin :: "bindings \<Rightarrow> 'w ServerInterfaceWrapper \<Rightarrow> 'w handler" where
  "wrap_PostAuthLogin B siw w r x =
     serve_operation siw (si_PostAuthLogin (siw_Handler siw)) w r x"

definition wrap_PostAuthLogout :: "bindings \<Rightarrow> 'w ServerInterfaceWrapper \<Rightarrow> 'w handler" where
  "wrap_PostAuthLogout B siw w r x =
     (case csrf_param B r of
        Inl err \<Rightarrow> (siw_ErrorHandlerFunc siw w r err, x)
      | Inr token \<Rightarrow> serve_operation siw (\<lambda>w r. si_PostAuthLogout (siw_Handler siw) w r \<lparr>PostAuthLogoutParams_XCSRFToken = token\<rparr>) w r x)"

definition wrap_GetAuthMe :: "bindings \<Rightarrow> 'w ServerInterfaceWrapper \<Rightarrow> 'w handler" where
  "wrap_GetAuthMe B siw w r x =
     serve_operation siw (si_GetAuthMe (siw_Handler siw)) w r x"

definition wrap_PostAuthPasswordChange :: "bindings \<Rightarrow> 'w ServerInterfaceWrapper \<Rightarrow> 'w handler" where
  "wrap_PostAuthPasswordChange B siw w r x =
     (case csrf_param B r of
        Inl err \<Rightarrow> (siw_ErrorHandlerFunc siw w r err, x)
      | Inr token \<Rightarrow> serve_operation siw (\<lambda>w r. si_PostAuthPasswordChange (siw_Handler siw) w r \<lparr>PostAuthPasswordChangeParams_XCSRFToken = token\<rparr>) w r x)"

definition wrap_PostAuthPasswordReset :: "bindings \<Rightarrow> 'w ServerInterfaceWrapper \<Rightarrow> 'w handler" where
  "wrap_PostAuthPasswordReset B siw w r x =
     serve_operation siw (si_PostAuthPasswordReset (siw_Handler siw)) w r x"

definition wrap_PostAuthPasswordResetRequest :: "bindings \<Rightarrow> 'w ServerInterfaceWrapper \<Rightarrow> 'w handler" where
  "wrap_PostAuthPasswordResetRequest B siw w r x =
     serve_operation siw (si_PostAuthPasswordResetRequest (siw_Handler siw)) w r x"

definition wrap_PostAuthRegister :: "bindings \<Rightarrow> 'w ServerInterfaceWrapper \<Rightarrow> 'w handler" where
  "wrap_PostAuthRegister B siw w r x =
     serve_operation siw (si_PostAuthRegister (siw_Handler siw)) w r x"

definition wrap_GetDelay :: "bindings \<Rightarrow> 'w ServerInterfaceWrapper \<Rightarrow> 'w handler" where
  "wrap_GetDelay B siw w r x =
     (case bind_float64 B ''seconds'' (URLParam B r ''seconds'') of
        Inl err \<Rightarrow> (siw_ErrorHandlerFunc siw w r (InvalidParamFormatError ''seconds'' err), x)
      | Inr seconds \<Rightarrow>
     serve_operation siw (\<lambda>w r. si_GetDelay (siw_Handler siw) w r seconds) w r x)"

definition wrap_DeleteEcho :: "bindings \<Rightarrow> 'w ServerInterfaceWrapper \<Rightarrow> 'w handler" where
  "wrap_DeleteEcho B siw w r x =
     serve_operation siw (si_DeleteEcho (siw_Handler siw)) w r x"

definition wrap_GetEcho :: "bindings \<Rightarrow> 'w ServerInterfaceWrapper \<Rightarrow> 'w handler" where
  "wrap_GetEcho B siw w r x =
     serve_operation siw (si_GetEcho (siw_Handler siw)) w r x"

definition wrap_PatchEcho :: "bindings \<Rightarrow> 'w ServerInterfaceWrapper \<Rightarrow> 'w handler" where
  "wrap_PatchEcho B siw w r x =
     serve_operation siw (si_PatchEcho (siw_Handler siw)) w r x"

definition wrap_PostEcho :: "bindings \<Rightarrow> 'w ServerInterfaceWrapper \<Rightarrow> 'w handler" where
  "wrap_PostEcho B siw w r x =
     serve_operation siw (si_PostEcho (siw_Handler siw)) w r x"

definition wrap_PutEcho :: "bindings \<Rightarrow> 'w ServerInterfaceWrapper \<Rightarrow> 'w handler" where
  "wrap_PutEcho B siw w r x =
     serve_operation siw (si_PutEcho (siw_Handler siw)) w r x"

definition wrap_GetHeaders :: "bindings \<Rightarrow> 'w ServerInterfaceWrapper \<Rightarrow> 'w handler" where
  "wrap_GetHeaders B siw w r x =
     serve_operation siw (si_GetHeaders (siw_Handler siw)) w r x"

definition wrap_GetIp :: "bindings \<Rightarrow> 'w ServerInterfaceWrapper \<Rightarrow> 'w handler" where
  "wrap_GetIp B siw w r x =
     serve_operation siw (si_GetIp (siw_Handler siw)) w r x"

definition wrap_GetLivez :: "bindings \<Rightarrow> 'w ServerInterfaceWrapper \<Rightarrow> 'w handler" where
  "wrap_GetLivez B siw w r x =
     serve_operation siw (si_GetLivez (siw_Handler siw)) w r x"

definition wrap_GetRatelimit :: "bindings \<Rightarrow> 'w ServerInterfaceWrapper \<Rightarrow> 'w handler" where
  "wrap_GetRatelimit B siw w r x =
     serve_operation siw (si_GetRatelimit (siw_Handler siw)) w r x"

definition wrap_GetReadyz :: "bindings \<Rightarrow> 'w ServerInterfaceWrapper \<Rightarrow> 'w handler" where
  "wrap_GetReadyz B siw w r x =
     serve_operation siw (si_GetReadyz (siw_Handler siw)) w r x"

definition wrap_GetScheme :: "bindings \<Rightarrow> 'w ServerInterfaceWrapper \<Rightarrow> 'w handler" where
  "wrap_GetScheme B siw w r x =
     serve_operation siw (si_GetScheme (siw_Handler siw)) w r x"

definition wrap_GetStartupz :: "bindings \<Rightarrow> 'w ServerInterfaceWrapper \<Rightarrow> 'w handler" where
  "wrap_GetStartupz B siw w r x =
     serve_operation siw (si_GetStartupz (siw_Handler siw)) w r x"

definition wrap_GetStatus :: "bindings \<Rightarrow> 'w ServerInterfaceWrapper \<Rightarrow> 'w handler" where
  "wrap_GetStatus B siw w r x =
     (case bind_int32 B ''code'' (URLParam B r ''code'') of
        Inl err \<Rightarrow> (siw_ErrorHandlerFunc siw w r (InvalidParamFormatError ''code'' err), x)
      | Inr code \<Rightarrow>
     serve_operation siw (\<lambda>w r. si_GetStatus (siw_Handler siw) w r code) w r x)"

definition wrap_PostTransfer :: "bindings \<Rightarrow> 'w ServerInterfaceWrapper \<Rightarrow> 'w handler" where
  "wrap_PostTransfer B siw w r x =
     (case bind_query_string B ''isolation'' (URL_Query r) of
        Inl err \<Rightarrow> (siw_ErrorHandlerFunc siw w r (query_error B ''isolation'' err), x)
      | Inr isolation \<Rightarrow>
     (case bind_query_int32 B ''holdMs'' (URL_Query r) of
        Inl err \<Rightarrow> (siw_ErrorHandlerFunc siw w r (query_error B ''holdMs'' err), x)
      | Inr holdMs \<Rightarrow>
     (case csrf_param B r of
        Inl err \<Rightarrow> (siw_ErrorHandlerFunc siw w r err, x)
      | Inr token \<Rightarrow> serve_operation siw (\<lambda>w r. si_PostTransfer (siw_Handler siw) w r \<lparr>PostTransferParams_Isolation = isolation, PostTransferParams_HoldMs = holdMs, PostTransferParams_XCSRFToken = token\<rparr>) w r x)))"

definition wrap_GetUserAgent :: "bindings \<Rightarrow> 'w ServerInterfaceWrapper \<Rightarrow> 'w handler" where
  "wrap_GetUserAgent B siw w r x =
     serve_operation siw (si_GetUserAgent (siw_Handler siw)) w r x"

definition wrap_GetUuid :: "bindings \<Rightarrow> 'w ServerInterfaceWrapper \<Rightarrow> 'w handler" where
  "wrap_GetUuid B siw w r x =
     serve_operation siw (si_GetUuid (siw_Handler siw)) w r x"

definition wrap_GetVersion :: "bindings \<Rightarrow> 'w ServerInterfaceWrapper \<Rightarrow> 'w handler" where
  "wrap_GetVersion B siw w r x =
     serve_operation siw (si_GetVersion (siw_Handler siw)) w r x"

section \<open>The strict handler as a ServerInterface\<close>

definition NewStrictHandler ::
    "'w web \<Rightarrow> 'w StrictServerInterface \<Rightarrow> 'w StrictMiddlewareFunc list \<Rightarrow> 'w ServerInterface" where
  "NewStrictHandler W ssi middlewares =
     (let sh = \<lparr>sh_ssi = ssi, sh_middlewares = middlewares\<rparr>
      in \<lparr>si_GetAccounts = strict_GetAccounts W sh,
          si_GetAdminAccounts = strict_GetAdminAccounts W sh,
          si_GetAdminTransfers = strict_GetAdminTransfers W sh,
          si_GetAdminUsers = strict_GetAdminUsers W sh,
          si_PostAdminUserPasswordReset = strict_PostAdminUserPasswordReset W sh,
          si_PostAdminUserUnlock = strict_PostAdminUserUnlock W sh,
          si_PostAuthLogin = strict_PostAuthLogin W sh,
          si_PostAuthLogout = strict_PostAuthLogout W sh,
          si_GetAuthMe = strict_GetAuthMe W sh,
          si_PostAuthPasswordChange = strict_PostAuthPasswordChange W sh,
          si_PostAuthPasswordReset = strict_PostAuthPasswordReset W sh,
          si_PostAuthPasswordResetRequest = strict_PostAuthPasswordResetRequest W sh,
          si_PostAuthRegister = strict_PostAuthRegister W sh,
          si_GetDelay = strict_GetDelay W sh,
          si_DeleteEcho = strict_DeleteEcho W sh,
          si_GetEcho = strict_GetEcho W sh,
          si_PatchEcho = strict_PatchEcho W sh,
          si_PostEcho = strict_PostEcho W sh,
          si_PutEcho = strict_PutEcho W sh,
          si_GetHeaders = strict_GetHeaders W sh,
          si_GetIp = strict_GetIp W sh,
          si_GetLivez = strict_GetLivez W sh,
          si_GetRatelimit = strict_GetRatelimit W sh,
          si_GetReadyz = strict_GetReadyz W sh,
          si_GetScheme = strict_GetScheme W sh,
          si_GetStartupz = strict_GetStartupz W sh,
          si_GetStatus = strict_GetStatus W sh,
          si_PostTransfer = strict_PostTransfer W sh,
          si_GetUserAgent = strict_GetUserAgent W sh,
          si_GetUuid = strict_GetUuid W sh,
          si_GetVersion = strict_GetVersion W sh\<rparr>)"

section \<open>The routes\<close>

text \<open>The default of \<^verbatim>\<open>options.ErrorHandlerFunc\<close>.\<close>

definition defaultErrorHandlerFunc :: "(goerr \<Rightarrow> string) \<Rightarrow> Writer \<Rightarrow> Request \<Rightarrow> ParamError \<Rightarrow> Writer" where
  "defaultErrorHandlerFunc str w r err = http_Error (ParamError_Error str err) 400 w"

record 'w ChiServerOptions =
  BaseURL :: string
  Middlewares :: "('w handler \<Rightarrow> 'w handler) list"
  ErrorHandlerFunc :: "(Writer \<Rightarrow> Request \<Rightarrow> ParamError \<Rightarrow> Writer) option"

text \<open>What \<^verbatim>\<open>HandlerWithOptions\<close> registers with the router: method, pattern and handler.\<close>

definition HandlerWithOptions ::
    "'w web \<Rightarrow> bindings \<Rightarrow> 'w ServerInterface \<Rightarrow> 'w ChiServerOptions \<Rightarrow> (string \<times> string \<times> 'w handler) list" where
  "HandlerWithOptions W B si options =
     (let baseURL = BaseURL options;
          wrapper = \<lparr>siw_Handler = si, siw_HandlerMiddlewares = Middlewares options,
                     siw_ErrorHandlerFunc = (case ErrorHandlerFunc options of
                        Some f \<Rightarrow> f | None \<Rightarrow> defaultErrorHandlerFunc (error_string W))\<rparr>
      in [
       (''GET'', baseURL @ ''/accounts'', wrap_GetAccounts B wrapper),
       (''GET'', baseURL @ ''/admin/accounts'', wrap_GetAdminAccounts B wrapper),
       (''GET'', baseURL @ ''/admin/transfers'', wrap_GetAdminTransfers B wrapper),
       (''GET'', baseURL @ ''/admin/users'', wrap_GetAdminUsers B wrapper),
       (''POST'', baseURL @ ''/admin/users/{id}/password-reset'', wrap_PostAdminUserPasswordReset B wrapper),
       (''POST'', baseURL @ ''/admin/users/{id}/unlock'', wrap_PostAdminUserUnlock B wrapper),
       (''POST'', baseURL @ ''/auth/login'', wrap_PostAuthLogin B wrapper),
       (''POST'', baseURL @ ''/auth/logout'', wrap_PostAuthLogout B wrapper),
       (''GET'', baseURL @ ''/auth/me'', wrap_GetAuthMe B wrapper),
       (''POST'', baseURL @ ''/auth/password/change'', wrap_PostAuthPasswordChange B wrapper),
       (''POST'', baseURL @ ''/auth/password/reset'', wrap_PostAuthPasswordReset B wrapper),
       (''POST'', baseURL @ ''/auth/password/reset-request'', wrap_PostAuthPasswordResetRequest B wrapper),
       (''POST'', baseURL @ ''/auth/register'', wrap_PostAuthRegister B wrapper),
       (''GET'', baseURL @ ''/delay/{seconds}'', wrap_GetDelay B wrapper),
       (''DELETE'', baseURL @ ''/echo'', wrap_DeleteEcho B wrapper),
       (''GET'', baseURL @ ''/echo'', wrap_GetEcho B wrapper),
       (''PATCH'', baseURL @ ''/echo'', wrap_PatchEcho B wrapper),
       (''POST'', baseURL @ ''/echo'', wrap_PostEcho B wrapper),
       (''PUT'', baseURL @ ''/echo'', wrap_PutEcho B wrapper),
       (''GET'', baseURL @ ''/headers'', wrap_GetHeaders B wrapper),
       (''GET'', baseURL @ ''/ip'', wrap_GetIp B wrapper),
       (''GET'', baseURL @ ''/livez'', wrap_GetLivez B wrapper),
       (''GET'', baseURL @ ''/ratelimit'', wrap_GetRatelimit B wrapper),
       (''GET'', baseURL @ ''/readyz'', wrap_GetReadyz B wrapper),
       (''GET'', baseURL @ ''/scheme'', wrap_GetScheme B wrapper),
       (''GET'', baseURL @ ''/startupz'', wrap_GetStartupz B wrapper),
       (''GET'', baseURL @ ''/status/{code}'', wrap_GetStatus B wrapper),
       (''POST'', baseURL @ ''/transfer'', wrap_PostTransfer B wrapper),
       (''GET'', baseURL @ ''/user-agent'', wrap_GetUserAgent B wrapper),
       (''GET'', baseURL @ ''/uuid'', wrap_GetUuid B wrapper),
       (''GET'', baseURL @ ''/version'', wrap_GetVersion B wrapper)])"

end
