(* ===== verification/Api_Router.thy ===== *)
theory Api_Router
  imports Api_Wrapper
begin

text \<open>
  The router of \<^verbatim>\<open>internal/httpapi\<close>: the middleware stack of \<^verbatim>\<open>router.go\<close> around the generated routes, the
  documentation pages of \<^verbatim>\<open>docs.go\<close> and the console of \<^verbatim>\<open>spa.go\<close>. The packages \<^verbatim>\<open>chi\<close>, \<^verbatim>\<open>yaml\<close> and the
  file server of \<^verbatim>\<open>net/http\<close> are parameters.
\<close>

section \<open>The packages\<close>

text \<open>
  \<^verbatim>\<open>chi\<close> finds the registered route of a request by method and pattern, or reports that the path has no
  route, or none for the method.
\<close>

datatype chi_route = Matched nat | NoMethod | NoRoute

record 'w chi =
  chi_RequestID :: "'w handler \<Rightarrow> 'w handler"
  chi_Recoverer :: "'w handler \<Rightarrow> 'w handler"
  chi_Timeout :: "Duration \<Rightarrow> 'w handler \<Rightarrow> 'w handler"
  chi_match :: "(string \<times> string) list \<Rightarrow> Request \<Rightarrow> chi_route"
  chi_MethodNotAllowed :: "'w handler"
  FileServer :: "fs \<Rightarrow> 'w handler"
  http_date :: "Time \<Rightarrow> string"

text \<open>The route table of a router, its middlewares in the order of \<^verbatim>\<open>Use\<close> (the first is outermost) and the
  handler given to \<^verbatim>\<open>NotFound\<close>.\<close>

record 'w Router =
  rt_middlewares :: "('w handler \<Rightarrow> 'w handler) list"
  rt_routes :: "(string \<times> string \<times> 'w handler) list"
  rt_NotFound :: "'w handler"

text \<open>\<^verbatim>\<open>http.NotFound\<close>.\<close>

definition http_NotFound :: "'w handler" where
  "http_NotFound w r x = (http_Error ''404 page not found'' 404 w, x)"

definition dispatch :: "'w chi \<Rightarrow> 'w Router \<Rightarrow> 'w handler" where
  "dispatch C rt w r x =
     (case chi_match C (map (\<lambda>(meth, pattern, h). (meth, pattern)) (rt_routes rt)) r of
        Matched i \<Rightarrow> snd (snd (rt_routes rt ! i)) w r x
      | NoMethod \<Rightarrow> chi_MethodNotAllowed C w r x
      | NoRoute \<Rightarrow> rt_NotFound rt w r x)"

definition ServeHTTP :: "'w chi \<Rightarrow> 'w Router \<Rightarrow> 'w handler" where
  "ServeHTTP C rt = foldr (\<lambda>middleware next. middleware next) (rt_middlewares rt) (dispatch C rt)"

definition rt_Get :: "string \<Rightarrow> 'w handler \<Rightarrow> 'w Router \<Rightarrow> 'w Router" where
  "rt_Get pattern h rt = rt\<lparr>rt_routes := rt_routes rt @ [(''GET'', pattern, h)]\<rparr>"

section \<open>router.go\<close>

definition defaultRequestTimeout :: Duration where
  "defaultRequestTimeout = 60 * Second"

definition csp :: string where
  "csp = ''default-src 'self'; script-src 'self'; style-src 'self' 'unsafe-inline'; img-src 'self' data:; '' @
     ''font-src 'self'; connect-src 'self'; object-src 'none'; base-uri 'self'; frame-ancestors 'none'' @ [CHR 0x27]"

definition securityHeaders :: "'w handler \<Rightarrow> 'w handler" where
  "securityHeaders next w r x =
     next (Header_Set ''Content-Security-Policy'' csp
       (Header_Set ''Referrer-Policy'' ''no-referrer''
         (Header_Set ''X-Frame-Options'' ''DENY''
           (Header_Set ''X-Content-Type-Options'' ''nosniff'' w)))) r x"

text \<open>It writes one log record when the handler returns.\<close>

definition requestLogger :: "'w handler \<Rightarrow> 'w handler" where
  "requestLogger next w r x = next w r x"

definition NewRouter ::
    "'w chi \<Rightarrow> 'w web \<Rightarrow> bindings \<Rightarrow> 'w StrictServerInterface \<Rightarrow> Duration \<Rightarrow> Prefix list \<Rightarrow>
     'w StrictMiddlewareFunc list \<Rightarrow> 'w Router" where
  "NewRouter C W B si requestTimeout trustedProxies strictMiddlewares =
     (let requestTimeout = (if requestTimeout \<le> 0 then defaultRequestTimeout else requestTimeout);
          handler = NewStrictHandler W si strictMiddlewares
      in \<lparr>rt_middlewares =
            [chi_RequestID C, requestLogger, chi_Recoverer C, securityHeaders,
             (\<lambda>next w. trustedProxy trustedProxies (next w)), (\<lambda>next w. withRequest (next w)),
             chi_Timeout C requestTimeout],
          rt_routes = HandlerWithOptions W B handler \<lparr>BaseURL = basePath, Middlewares = [], ErrorHandlerFunc = None\<rparr>,
          rt_NotFound = http_NotFound\<rparr>)"

section \<open>spa.go\<close>

definition indexCacheControl :: string where
  "indexCacheControl = ''no-cache''"

definition hashedAssetCacheControl :: string where
  "hashedAssetCacheControl = ''public, max-age=31536000, immutable''"

record spa =
  spa_dist :: fs
  spa_indexHTML :: string
  spa_lastModified :: Time

definition spa_index :: "'w chi \<Rightarrow> spa \<Rightarrow> 'w handler" where
  "spa_index C s w r x =
     (write_body (PlainText (spa_indexHTML s)) (WriteHeader 200
        (Header_Set ''Content-Length'' (show_nat (length (spa_indexHTML s)))
          (Header_Set ''Last-Modified'' (http_date C (spa_lastModified s))
            (Header_Set ''Cache-Control'' indexCacheControl
              (Header_Set ''Content-Type'' ''text/html; charset=utf-8'' w))))), x)"

definition HasPrefix :: "string \<Rightarrow> string \<Rightarrow> bool" where
  "HasPrefix s p \<longleftrightarrow> take (length p) s = p"

definition spa_fallback :: "'w chi \<Rightarrow> spa \<Rightarrow> 'w handler" where
  "spa_fallback C s w r x =
     (if Method r \<noteq> ''GET'' \<or> HasPrefix (URL_Path r) basePath \<or> HasPrefix (URL_Path r) ''/assets/''
      then http_NotFound w r x
      else spa_index C s w r x)"

definition cacheHeaders :: "'w handler \<Rightarrow> string \<Rightarrow> 'w handler" where
  "cacheHeaders next value w r x = next (Header_Set ''Cache-Control'' value w) r x"

text \<open>\<^verbatim>\<open>http.StripPrefix\<close> and \<^verbatim>\<open>fs.Sub\<close>.\<close>

definition with_path :: "Request \<Rightarrow> string \<Rightarrow> Request" where
  "with_path r p = Request (Method r) p (URL_Query r) (Header r) (RemoteAddr r) (TLS r) (Context r)"

definition StripPrefix :: "string \<Rightarrow> 'w handler \<Rightarrow> 'w handler" where
  "StripPrefix p next w r x =
     (if p = [] then next w r x
      else if HasPrefix (URL_Path r) p then next w (with_path r (drop (length p) (URL_Path r))) x
      else http_NotFound w r x)"

definition fs_Sub :: "fs \<Rightarrow> string \<Rightarrow> fs" where
  "fs_Sub dir name = (\<lambda>f. dir (name @ ''/'' @ f))"

definition mountSPA :: "'w chi \<Rightarrow> fs \<Rightarrow> string \<Rightarrow> Time \<Rightarrow> 'w Router \<Rightarrow> 'w Router" where
  "mountSPA C distFS indexHTML now rt =
     (let s = \<lparr>spa_dist = distFS, spa_indexHTML = indexHTML, spa_lastModified = now\<rparr>;
          assetsHandler = StripPrefix ''/assets/''
            (cacheHeaders (FileServer C (fs_Sub distFS ''assets'')) hashedAssetCacheControl)
      in (rt_Get ''/'' (spa_index C s) (rt_Get ''/assets/*'' assetsHandler rt))\<lparr>rt_NotFound := spa_fallback C s\<rparr>)"

section \<open>docs.go\<close>

definition specPath :: string where
  "specPath = basePath @ ''/openapi.yaml''"

definition swaggerPrefix :: string where
  "swaggerPrefix = ''/swagger''"

definition redocPrefix :: string where
  "redocPrefix = ''/redoc''"

definition specContentType :: string where
  "specContentType = ''application/yaml''"

definition docsCSP :: string where
  "docsCSP = ''default-src 'self'; script-src 'self'; style-src 'self' 'unsafe-inline'; img-src 'self' data:; '' @
     ''font-src 'self' data:; worker-src 'self' blob:; connect-src 'self'; '' @
     ''object-src 'none'; base-uri 'self'; frame-ancestors 'none'' @ [CHR 0x27]"

text \<open>A YAML node, as far as the code looks at it; \<open>ySetString\<close> is the method \<^verbatim>\<open>SetString\<close>.\<close>

datatype yamlNode = yamlNode (yMapping: bool) (yValue: string) (yContent: "yamlNode list")

record yaml =
  yaml_Unmarshal :: "string \<Rightarrow> yamlNode res"
  yaml_Marshal :: "yamlNode \<Rightarrow> string res"
  ySetString :: "string \<Rightarrow> yamlNode \<Rightarrow> yamlNode"

text \<open>
  \<^verbatim>\<open>mappingValue\<close> returns a pointer into the content; here it is the position of that node. A node is
  changed through the pointer by changing the content at the position.
\<close>

fun mapping_pos :: "yamlNode list \<Rightarrow> string \<Rightarrow> nat option" where
  "mapping_pos (k # v # rest) key = (if yValue k = key then Some 1 else map_option (\<lambda>i. i + 2) (mapping_pos rest key))"
| "mapping_pos _ key = None"

definition mappingValue :: "yamlNode \<Rightarrow> string \<Rightarrow> nat option" where
  "mappingValue node key = (if \<not> yMapping node then None else mapping_pos (yContent node) key)"

definition set_at :: "nat \<Rightarrow> yamlNode \<Rightarrow> yamlNode \<Rightarrow> yamlNode" where
  "set_at i v node = yamlNode (yMapping node) (yValue node) ((yContent node)[i := v])"

definition specWithVersion :: "yaml \<Rightarrow> string \<Rightarrow> string \<Rightarrow> string" where
  "specWithVersion Y spec version =
     (if version = [] then spec
      else (case yaml_Unmarshal Y spec of
              Inl err \<Rightarrow> spec
            | Inr doc \<Rightarrow>
                if length (yContent doc) = 0 then spec
                else (let root = yContent doc ! 0
                      in case mappingValue root ''info'' of
                           None \<Rightarrow> spec
                         | Some i \<Rightarrow>
                             (let info = yContent root ! i
                              in case mappingValue info ''version'' of
                                   None \<Rightarrow> spec
                                 | Some j \<Rightarrow>
                                     (let ver = ySetString Y version (yContent info ! j);
                                          doc = set_at 0 (set_at i (set_at j ver info) root) doc
                                      in case yaml_Marshal Y doc of Inl err \<Rightarrow> spec | Inr patched \<Rightarrow> patched)))))"

definition docsHeaders :: "'w handler \<Rightarrow> 'w handler" where
  "docsHeaders next w r x = next (Header_Set ''Content-Security-Policy'' docsCSP w) r x"

text \<open>\<^verbatim>\<open>http.Redirect\<close> to an absolute path that needs no escaping.\<close>

definition http_Redirect :: "string \<Rightarrow> int \<Rightarrow> string \<Rightarrow> 'w handler" where
  "http_Redirect url code txt' w r x =
     (let hadCT = (wr_header w ''Content-Type'' \<noteq> []);
          w1 = Header_Set ''Location'' url w;
          w2 = (if \<not> hadCT \<and> (Method r = ''GET'' \<or> Method r = ''HEAD'')
                then Header_Set ''Content-Type'' ''text/html; charset=utf-8'' w1 else w1);
          w3 = WriteHeader code w2
      in (if \<not> hadCT \<and> Method r = ''GET''
          then write_body (PlainText (''<a href='' @ [CHR 0x22] @ url @ [CHR 0x22] @ ''>'' @ txt' @ ''</a>.'' @ [CHR 0x0A, CHR 0x0A])) w3
          else w3, x))"

definition mountDocsUI :: "'w chi \<Rightarrow> string \<Rightarrow> fs \<Rightarrow> 'w Router \<Rightarrow> 'w Router" where
  "mountDocsUI C prefix' uiFS rt =
     (let fileServer = StripPrefix prefix' (docsHeaders (FileServer C uiFS))
      in rt_Get (prefix' @ ''/*'') fileServer
           (rt_Get prefix' (http_Redirect (prefix' @ ''/'') 301 ''Moved Permanently'') rt))"

definition mountDocs :: "'w chi \<Rightarrow> yaml \<Rightarrow> string \<Rightarrow> string \<Rightarrow> fs \<Rightarrow> fs \<Rightarrow> 'w Router \<Rightarrow> 'w Router" where
  "mountDocs C Y spec version swaggerFS redocFS rt =
     (let spec = specWithVersion Y spec version
      in mountDocsUI C redocPrefix redocFS
           (mountDocsUI C swaggerPrefix swaggerFS
             (rt_Get specPath (\<lambda>w r x. (write_body (PlainText spec) (WriteHeader 200
                 (Header_Set ''Cache-Control'' ''no-cache'' (Header_Set ''Content-Type'' specContentType w))), x)) rt)))"

section \<open>The handler of a server\<close>

definition strictMiddlewares :: "'w pkgs \<Rightarrow> 'w Server \<Rightarrow> 'w StrictMiddlewareFunc list" where
  "strictMiddlewares K s = (case sv_sessions s of None \<Rightarrow> [] | Some _ \<Rightarrow> [authMiddleware K s])"

text \<open>
  The file system is always there together with the documents (\<^verbatim>\<open>WithDocs\<close>); an absent one has no files.
  \<open>now\<close> is the time at which the handler is built.
\<close>

definition the_fs :: "fs option \<Rightarrow> fs" where
  "the_fs f = (case f of Some d \<Rightarrow> d | None \<Rightarrow> Map.empty)"

definition Handler ::
    "'w chi \<Rightarrow> 'w web \<Rightarrow> bindings \<Rightarrow> yaml \<Rightarrow> 'w rt \<Rightarrow> (float64 \<Rightarrow> Duration) \<Rightarrow> Time \<Rightarrow> 'w Server \<Rightarrow> 'w Router" where
  "Handler C W B Y T toDuration now s =
     (let r = NewRouter C W B (server_ssi (wb_pkgs W) T toDuration s) (sv_requestTimeout s) (sv_trustedProxies s)
                (strictMiddlewares (wb_pkgs W) s);
          r = (case sv_docsSpec s of
                 Some spec \<Rightarrow> mountDocs C Y spec (bi_Version (sv_build s)) (the_fs (sv_swaggerFS s)) (the_fs (sv_redocFS s)) r
               | None \<Rightarrow> r);
          r = (case sv_spaFS s of Some d \<Rightarrow> mountSPA C d (sv_spaIndex s) now r | None \<Rightarrow> r)
      in r)"

end
