(* ===== verification/Api_Access.thy ===== *)
theory Api_Access
  imports Api_Router
begin

text \<open>
  Requests through the whole stack of \<^verbatim>\<open>internal/httpapi\<close>, from the router to the handlers: which requests
  get through to a protected operation, and which headers every response carries.
\<close>

section \<open>The stack\<close>

text \<open>
  The middlewares of \<^verbatim>\<open>chi\<close> as long as no handler panics and no deadline passes: they call the next
  handler with a request that differs in its context only, and matching a route does not look at the
  context.
\<close>

definition chi_transparent :: "'w chi \<Rightarrow> bool" where
  "chi_transparent C \<longleftrightarrow>
     (\<forall>next w r x. \<exists>ctx. chi_RequestID C next w r x = next w (WithContext r ctx) x) \<and>
     (\<forall>next w r x. \<exists>ctx. chi_Recoverer C next w r x = next w (WithContext r ctx) x) \<and>
     (\<forall>d next w r x. \<exists>ctx. chi_Timeout C d next w r x = next w (WithContext r ctx) x) \<and>
     (\<forall>rs r ctx. chi_match C rs (WithContext r ctx) = chi_match C rs r)"

definition with_security_headers :: "Writer \<Rightarrow> Writer" where
  "with_security_headers w =
     Header_Set ''Content-Security-Policy'' csp
       (Header_Set ''Referrer-Policy'' ''no-referrer''
         (Header_Set ''X-Frame-Options'' ''DENY''
           (Header_Set ''X-Content-Type-Options'' ''nosniff'' w)))"

lemma WithContext_twice [simp]: "WithContext (WithContext r a) b = WithContext r b"
  by (cases r) simp

lemma WithContext_self: "WithContext r (Context r) = r"
  by (cases r) simp

lemma trustedProxy_context: "\<exists>ctx. trustedProxy ps next r = next (WithContext r ctx)"
proof -
  have "\<exists>ctx. next r = next (WithContext r ctx)" using WithContext_self [of r] by metis
  then show ?thesis by (auto simp: trustedProxy_def Let_def split: option.split)
qed

lemma withRequest_context: "\<exists>ctx. withRequest next r = next (WithContext r ctx)"
  by (auto simp: withRequest_def)

lemma rt_middlewares_Handler:
  "\<exists>d. rt_middlewares (Handler C W B Y T toDuration now s) =
     [chi_RequestID C, requestLogger, chi_Recoverer C, securityHeaders,
      (\<lambda>next w. trustedProxy (sv_trustedProxies s) (next w)), (\<lambda>next w. withRequest (next w)), chi_Timeout C d]"
  by (simp add: Handler_def NewRouter_def mountDocs_def mountDocsUI_def mountSPA_def rt_Get_def Let_def split: option.split) blast

lemma ServeHTTP_dispatch:
  assumes "chi_transparent C"
  shows "\<exists>ctx. ServeHTTP C (Handler C W B Y T toDuration now s) w r x =
    dispatch C (Handler C W B Y T toDuration now s) (with_security_headers w) (WithContext r ctx) x"
proof -
  let ?H = "Handler C W B Y T toDuration now s"
  obtain d where m: "rt_middlewares ?H = [chi_RequestID C, requestLogger, chi_Recoverer C, securityHeaders,
      (\<lambda>next w. trustedProxy (sv_trustedProxies s) (next w)), (\<lambda>next w. withRequest (next w)), chi_Timeout C d]"
    using rt_middlewares_Handler by blast
  have c: "\<exists>ctx. chi_RequestID C nx w r x = nx w (WithContext r ctx) x"
      "\<exists>ctx. chi_Recoverer C nx w r x = nx w (WithContext r ctx) x"
      "\<exists>ctx. chi_Timeout C d nx w r x = nx w (WithContext r ctx) x" for nx w r x
    using assms unfolding chi_transparent_def by blast+
  define h7 where "h7 = chi_Timeout C d (dispatch C ?H)"
  define h6 where "h6 = (\<lambda>w. withRequest (h7 w))"
  define h5 where "h5 = (\<lambda>w. trustedProxy (sv_trustedProxies s) (h6 w))"
  have s7: "\<exists>ctx. h7 w r x = dispatch C ?H w (WithContext r ctx) x" for w r x
    unfolding h7_def by (rule c(3))
  have s6: "\<exists>ctx. h6 w r x = dispatch C ?H w (WithContext r ctx) x" for w r x
  proof -
    obtain a where "withRequest (h7 w) r = h7 w (WithContext r a)" using withRequest_context by blast
    moreover obtain b where "h7 w (WithContext r a) x = dispatch C ?H w (WithContext (WithContext r a) b) x"
      using s7 by blast
    ultimately show ?thesis unfolding h6_def by auto
  qed
  have s5: "\<exists>ctx. h5 w r x = dispatch C ?H w (WithContext r ctx) x" for w r x
  proof -
    obtain a where "trustedProxy (sv_trustedProxies s) (h6 w) r = h6 w (WithContext r a)"
      using trustedProxy_context by blast
    moreover obtain b where "h6 w (WithContext r a) x = dispatch C ?H w (WithContext (WithContext r a) b) x"
      using s6 by blast
    ultimately show ?thesis unfolding h5_def by auto
  qed
  define h3 where "h3 = chi_Recoverer C (securityHeaders h5)"
  have s3: "\<exists>ctx. h3 w r x = dispatch C ?H (with_security_headers w) (WithContext r ctx) x" for w r x
  proof -
    obtain a where "h3 w r x = securityHeaders h5 w (WithContext r a) x" unfolding h3_def using c(2) by blast
    moreover obtain b where "h5 (with_security_headers w) (WithContext r a) x =
        dispatch C ?H (with_security_headers w) (WithContext (WithContext r a) b) x" using s5 by blast
    ultimately show ?thesis by (auto simp: securityHeaders_def with_security_headers_def)
  qed
  have top: "ServeHTTP C ?H = chi_RequestID C (requestLogger h3)"
    by (simp add: ServeHTTP_def m h3_def h5_def h6_def h7_def)
  obtain a where "chi_RequestID C (requestLogger h3) w r x = requestLogger h3 w (WithContext r a) x"
    using c(1) by blast
  moreover obtain b where "h3 w (WithContext r a) x =
      dispatch C ?H (with_security_headers w) (WithContext (WithContext r a) b) x" using s3 by blast
  ultimately show ?thesis unfolding top by (auto simp: requestLogger_def)
qed

section \<open>The security headers\<close>

text \<open>\<open>secured p w\<close>: the writer carries the headers of \<^verbatim>\<open>securityHeaders\<close>, with the content policy \<open>p\<close>.\<close>

definition secured :: "string \<Rightarrow> Writer \<Rightarrow> bool" where
  "secured p w \<longleftrightarrow> wr_header w ''Content-Security-Policy'' = [p] \<and> wr_header w ''X-Frame-Options'' = [''DENY''] \<and>
     wr_header w ''Referrer-Policy'' = [''no-referrer''] \<and> wr_header w ''X-Content-Type-Options'' = [''nosniff'']"

definition security_names :: "string list" where
  "security_names = [''Content-Security-Policy'', ''X-Frame-Options'', ''Referrer-Policy'', ''X-Content-Type-Options'']"

named_theorems secured_intros \<open>writers that keep the security headers\<close>

lemma secured_start: "secured csp (with_security_headers w)"
  by (simp add: secured_def with_security_headers_def Header_Set_def)

lemma secured_Header_Set [secured_intros]: "secured p w \<Longrightarrow> k \<notin> set security_names \<Longrightarrow> secured p (Header_Set k v w)"
  by (auto simp: secured_def Header_Set_def security_names_def)

lemma secured_nosniff [secured_intros]: "secured p w \<Longrightarrow> secured p (Header_Set ''X-Content-Type-Options'' ''nosniff'' w)"
  by (simp add: secured_def Header_Set_def)

lemma secured_Header_Del [secured_intros]: "secured p w \<Longrightarrow> k \<notin> set security_names \<Longrightarrow> secured p (Header_Del k w)"
  by (auto simp: secured_def Header_Del_def security_names_def)

lemma secured_WriteHeader [secured_intros]: "secured p w \<Longrightarrow> secured p (WriteHeader code w)"
  by (simp add: secured_def WriteHeader_def split: option.split)

lemma secured_write_body [secured_intros]: "secured p w \<Longrightarrow> secured p (write_body b w)"
  using secured_WriteHeader [of p w 200] by (simp add: secured_def write_body_def)

lemma secured_SetCookies [secured_intros]: "secured p w \<Longrightarrow> secured p (foldl SetCookie w cs)"
  by (induction cs arbitrary: w) (auto simp: secured_def SetCookie_def)

lemma secured_set_headers [secured_intros]:
  "secured p w \<Longrightarrow> list_all (\<lambda>(k, v). k \<notin> set security_names) hs \<Longrightarrow> secured p (set_headers hs w)"
  by (induction hs w rule: set_headers.induct) (auto simp: secured_Header_Set split: option.split)

lemma secured_http_Error [secured_intros]: "secured p w \<Longrightarrow> secured p (http_Error msg code w)"
  unfolding http_Error_def by (intro secured_intros) (simp_all add: security_names_def)

lemma secured_writeJSONError [secured_intros]: "secured p w \<Longrightarrow> secured p (writeJSONError K w code msg)"
  unfolding writeJSONError_def
  by (auto split: option.split intro!: secured_intros simp: security_names_def)

lemma secured_visitJSON [secured_intros]:
  "secured p w \<Longrightarrow> list_all (\<lambda>(k, v). k \<notin> set security_names) hs \<Longrightarrow> secured p (snd (visitJSON enc code hs body w))"
  unfolding visitJSON_def by (auto split: option.split intro!: secured_intros simp: security_names_def)

lemma secured_visitEmpty [secured_intros]:
  "secured p w \<Longrightarrow> list_all (\<lambda>(k, v). k \<notin> set security_names) hs \<Longrightarrow> secured p (snd (visitEmpty code hs w))"
  unfolding visitEmpty_def by (simp add: secured_intros)

lemma secured_success [secured_intros]: "secured p w \<Longrightarrow> secured p (snd (authSuccessResponse_write enc resp w))"
  unfolding authSuccessResponse_write_def Let_def
  by (auto split: option.split intro!: secured_intros simp: security_names_def)

lemma secured_logout [secured_intros]: "secured p w \<Longrightarrow> secured p (snd (VisitPostAuthLogoutResponse_logout resp w))"
  unfolding VisitPostAuthLogoutResponse_logout_def by (simp add: secured_intros)

text \<open>The responses of the operations.\<close>

definition keeps_secured :: "(Writer \<Rightarrow> goerr option \<times> Writer) \<Rightarrow> bool" where
  "keeps_secured visit \<longleftrightarrow> (\<forall>p w. secured p w \<longrightarrow> secured p (snd (visit w)))"

lemma secured_responses:
  "keeps_secured (VisitGetAccountsResponse enc v0)"
  "keeps_secured (VisitGetAdminAccountsResponse enc v1)"
  "keeps_secured (VisitGetAdminTransfersResponse enc v2)"
  "keeps_secured (VisitGetAdminUsersResponse enc v3)"
  "keeps_secured (VisitPostAdminUserPasswordResetResponse enc v4)"
  "keeps_secured (VisitPostAdminUserUnlockResponse enc v5)"
  "keeps_secured (VisitPostAuthLoginResponse enc v6)"
  "keeps_secured (VisitPostAuthLogoutResponse enc v7)"
  "keeps_secured (VisitGetAuthMeResponse enc v8)"
  "keeps_secured (VisitPostAuthPasswordChangeResponse enc v9)"
  "keeps_secured (VisitPostAuthPasswordResetResponse enc v10)"
  "keeps_secured (VisitPostAuthPasswordResetRequestResponse enc v11)"
  "keeps_secured (VisitPostAuthRegisterResponse enc v12)"
  "keeps_secured (VisitGetDelayResponse enc v13)"
  "keeps_secured (VisitDeleteEchoResponse enc v14)"
  "keeps_secured (VisitGetEchoResponse enc v15)"
  "keeps_secured (VisitPatchEchoResponse enc v16)"
  "keeps_secured (VisitPostEchoResponse enc v17)"
  "keeps_secured (VisitPutEchoResponse enc v18)"
  "keeps_secured (VisitGetHeadersResponse enc v19)"
  "keeps_secured (VisitGetIpResponse enc v20)"
  "keeps_secured (VisitGetLivezResponse enc v21)"
  "keeps_secured (VisitGetRatelimitResponse enc v22)"
  "keeps_secured (VisitGetReadyzResponse enc v23)"
  "keeps_secured (VisitGetSchemeResponse enc v24)"
  "keeps_secured (VisitGetStartupzResponse enc v25)"
  "keeps_secured (VisitGetStatusResponse enc v26)"
  "keeps_secured (VisitPostTransferResponse enc v27)"
  "keeps_secured (VisitGetUserAgentResponse enc v28)"
  "keeps_secured (VisitGetUuidResponse enc v29)"
  "keeps_secured (VisitGetVersionResponse enc v30)"
  unfolding keeps_secured_def
  subgoal by (cases v0) (simp_all add: secured_intros security_names_def)
  subgoal by (cases v1) (simp_all add: secured_intros security_names_def)
  subgoal by (cases v2) (simp_all add: secured_intros security_names_def)
  subgoal by (cases v3) (simp_all add: secured_intros security_names_def)
  subgoal by (cases v4) (simp_all add: secured_intros security_names_def)
  subgoal by (cases v5) (simp_all add: secured_intros security_names_def)
  subgoal by (cases v6) (simp_all add: secured_intros security_names_def)
  subgoal by (cases v7) (simp_all add: secured_intros security_names_def)
  subgoal by (cases v8) (simp_all add: secured_intros security_names_def)
  subgoal by (cases v9) (simp_all add: secured_intros security_names_def)
  subgoal by (cases v10) (simp_all add: secured_intros security_names_def)
  subgoal by (cases v11) (simp_all add: secured_intros security_names_def)
  subgoal by (cases v12) (simp_all add: secured_intros security_names_def)
  subgoal by (cases v13) (simp_all add: secured_intros security_names_def)
  subgoal by (cases v14) (simp_all add: secured_intros security_names_def)
  subgoal by (cases v15) (simp_all add: secured_intros security_names_def)
  subgoal by (cases v16) (simp_all add: secured_intros security_names_def)
  subgoal by (cases v17) (simp_all add: secured_intros security_names_def)
  subgoal by (cases v18) (simp_all add: secured_intros security_names_def)
  subgoal by (cases v19) (simp_all add: secured_intros security_names_def)
  subgoal by (cases v20) (simp_all add: secured_intros security_names_def)
  subgoal by (cases v21) (simp_all add: secured_intros security_names_def)
  subgoal by (cases v22) (simp_all add: secured_intros security_names_def)
  subgoal by (cases v23) (simp_all add: secured_intros security_names_def)
  subgoal by (cases v24) (simp_all add: secured_intros security_names_def)
  subgoal by (cases v25) (simp_all add: secured_intros security_names_def)
  subgoal by (cases v26) (simp_all add: secured_intros security_names_def)
  subgoal by (cases v27) (simp_all add: secured_intros security_names_def)
  subgoal by (cases v28) (simp_all add: secured_intros security_names_def)
  subgoal by (cases v29) (simp_all add: secured_intros security_names_def)
  subgoal by (cases v30) (simp_all add: secured_intros security_names_def)
  done

section \<open>Handlers that keep the security headers\<close>

definition secure_handler :: "'w handler \<Rightarrow> bool" where
  "secure_handler h \<longleftrightarrow> (\<forall>p w r x. secured p w \<longrightarrow> secured p (fst (h w r x)))"

definition secure_strict :: "('w, 'r) StrictHandlerFunc \<Rightarrow> bool" where
  "secure_strict f \<longleftrightarrow> (\<forall>p ctx w r x. secured p w \<longrightarrow> secured p (snd (fst (f ctx w r x))))"

lemma secure_handlerI: "(\<And>p w r x. secured p w \<Longrightarrow> secured p (fst (h w r x))) \<Longrightarrow> secure_handler h"
  by (simp add: secure_handler_def)

lemma secure_handlerD: "secure_handler h \<Longrightarrow> secured p w \<Longrightarrow> secured p (fst (h w r x))"
  by (simp add: secure_handler_def)

lemma secure_strictD: "secure_strict f \<Longrightarrow> secured p w \<Longrightarrow> f ctx w r x = ((y, w1), x1) \<Longrightarrow> secured p w1"
  unfolding secure_strict_def by (metis fst_conv snd_conv)

lemma secure_innermost: "secure_strict (innermost wrap op)"
  by (simp add: secure_strict_def innermost_def split: prod.split sum.split)

lemma secure_authMiddleware: "secure_strict f \<Longrightarrow> secure_strict (authMiddleware K s f operationID)"
  by (simp add: secure_strict_def authMiddleware_def secured_writeJSONError split: prod.split sum.split option.split)

lemma secure_error_handlers [secured_intros]:
  "secured p w \<Longrightarrow> secured p (RequestErrorHandlerFunc W err w)"
  "secured p w \<Longrightarrow> secured p (ResponseErrorHandlerFunc W err w)"
  "secured p w \<Longrightarrow> secured p (defaultErrorHandlerFunc str w r perr)"
  by (simp_all add: RequestErrorHandlerFunc_def ResponseErrorHandlerFunc_def defaultErrorHandlerFunc_def secured_http_Error)

text \<open>The middlewares that a server passes to the strict handler.\<close>

lemma secure_strictMiddlewares:
  "secure_strict f \<Longrightarrow> secure_strict (foldl (\<lambda>h middleware. middleware h operationID) f (strictMiddlewares K s))"
  by (simp add: strictMiddlewares_def secure_authMiddleware split: option.split)

lemma secure_strict_serve:
  assumes mw: "sh_middlewares sh = strictMiddlewares K s"
    and v: "\<And>resp visit'. visit resp = Some visit' \<Longrightarrow> keeps_secured visit'"
  shows "secure_handler (strict_serve W sh operationID (innermost wrap op) visit)"
proof (rule secure_handlerI)
  fix p w r x assume w: "secured p w"
  let ?f = "foldl (\<lambda>h middleware. middleware h operationID) (innermost wrap op) (strictMiddlewares K s)"
  obtain y w1 x1 where f: "?f (Context r) w r x = ((y, w1), x1)" by (metis prod.exhaust)
  have w1: "secured p w1"
    by (rule secure_strictD [OF secure_strictMiddlewares [OF secure_innermost] w f])
  show "secured p (fst (strict_serve W sh operationID (innermost wrap op) visit w r x))"
  proof (cases y)
    case (Inl err)
    then show ?thesis using w1 by (simp add: strict_serve_def mw f secured_intros)
  next
    case (Inr resp)
    show ?thesis
    proof (cases resp)
      case None
      then show ?thesis using Inr w1 by (simp add: strict_serve_def mw f)
    next
      case (Some a)
      have "secured p (snd (visit' w1))" if "visit a = Some visit'" for visit'
        using v [OF that] w1 by (simp add: keeps_secured_def)
      then show ?thesis using Inr Some w1
        by (auto simp: strict_serve_def mw f secured_intros split: option.split prod.split dest!: sndI)
    qed
  qed
qed

lemma secure_with_json: "(\<And>body. secure_handler (rest body)) \<Longrightarrow> secure_handler (with_json W decode rest)"
  by (auto simp: secure_handler_def with_json_def secured_intros split: prod.split sum.split)

lemma secure_with_text: "(\<And>body. secure_handler (rest body)) \<Longrightarrow> secure_handler (with_text W rest)"
  by (auto simp: secure_handler_def with_text_def secured_intros split: prod.split sum.split)

lemmas strict_defs = strict_GetAccounts_def strict_GetAdminAccounts_def strict_GetAdminTransfers_def
   strict_GetAdminUsers_def strict_PostAdminUserPasswordReset_def strict_PostAdminUserUnlock_def
   strict_PostAuthLogin_def strict_PostAuthLogout_def strict_GetAuthMe_def strict_PostAuthPasswordChange_def
   strict_PostAuthPasswordReset_def strict_PostAuthPasswordResetRequest_def strict_PostAuthRegister_def
   strict_GetDelay_def strict_DeleteEcho_def strict_GetEcho_def strict_PatchEcho_def strict_PostEcho_def
   strict_PutEcho_def strict_GetHeaders_def strict_GetIp_def strict_GetLivez_def strict_GetRatelimit_def
   strict_GetReadyz_def strict_GetScheme_def strict_GetStartupz_def strict_GetStatus_def strict_PostTransfer_def
   strict_GetUserAgent_def strict_GetUuid_def strict_GetVersion_def

lemmas wrap_defs = wrap_GetAccounts_def wrap_GetAdminAccounts_def wrap_GetAdminTransfers_def wrap_GetAdminUsers_def
   wrap_PostAdminUserPasswordReset_def wrap_PostAdminUserUnlock_def wrap_PostAuthLogin_def wrap_PostAuthLogout_def
   wrap_GetAuthMe_def wrap_PostAuthPasswordChange_def wrap_PostAuthPasswordReset_def
   wrap_PostAuthPasswordResetRequest_def wrap_PostAuthRegister_def wrap_GetDelay_def wrap_DeleteEcho_def
   wrap_GetEcho_def wrap_PatchEcho_def wrap_PostEcho_def wrap_PutEcho_def wrap_GetHeaders_def wrap_GetIp_def
   wrap_GetLivez_def wrap_GetRatelimit_def wrap_GetReadyz_def wrap_GetScheme_def wrap_GetStartupz_def
   wrap_GetStatus_def wrap_PostTransfer_def wrap_GetUserAgent_def wrap_GetUuid_def wrap_GetVersion_def

lemma secure_strict_operations:
  assumes "sh_middlewares sh = strictMiddlewares K s"
  shows
    "secure_handler (strict_GetAccounts W sh)"
    "secure_handler (strict_GetAdminAccounts W sh)"
    "secure_handler (strict_GetAdminTransfers W sh)"
    "secure_handler (strict_GetAdminUsers W sh)"
    "secure_handler (\<lambda>w r. strict_PostAdminUserPasswordReset W sh w r i pPostAdminUserPasswordReset)"
    "secure_handler (\<lambda>w r. strict_PostAdminUserUnlock W sh w r i pPostAdminUserUnlock)"
    "secure_handler (strict_PostAuthLogin W sh)"
    "secure_handler (\<lambda>w r. strict_PostAuthLogout W sh w r pPostAuthLogout)"
    "secure_handler (strict_GetAuthMe W sh)"
    "secure_handler (\<lambda>w r. strict_PostAuthPasswordChange W sh w r pPostAuthPasswordChange)"
    "secure_handler (strict_PostAuthPasswordReset W sh)"
    "secure_handler (strict_PostAuthPasswordResetRequest W sh)"
    "secure_handler (strict_PostAuthRegister W sh)"
    "secure_handler (\<lambda>w r. strict_GetDelay W sh w r d)"
    "secure_handler (strict_DeleteEcho W sh)"
    "secure_handler (strict_GetEcho W sh)"
    "secure_handler (strict_PatchEcho W sh)"
    "secure_handler (strict_PostEcho W sh)"
    "secure_handler (strict_PutEcho W sh)"
    "secure_handler (strict_GetHeaders W sh)"
    "secure_handler (strict_GetIp W sh)"
    "secure_handler (strict_GetLivez W sh)"
    "secure_handler (strict_GetRatelimit W sh)"
    "secure_handler (strict_GetReadyz W sh)"
    "secure_handler (strict_GetScheme W sh)"
    "secure_handler (strict_GetStartupz W sh)"
    "secure_handler (\<lambda>w r. strict_GetStatus W sh w r code)"
    "secure_handler (\<lambda>w r. strict_PostTransfer W sh w r pPostTransfer)"
    "secure_handler (strict_GetUserAgent W sh)"
    "secure_handler (strict_GetUuid W sh)"
    "secure_handler (strict_GetVersion W sh)"
  unfolding strict_defs
  by (intro secure_with_json secure_with_text secure_strict_serve [OF assms];
      auto simp: secured_responses split: any_response.splits)+

text \<open>The table of routes.\<close>

lemma secure_api_routes:
  "list_all (\<lambda>(meth, pattern, h). secure_handler h)
     (rt_routes (NewRouter C W B ssi requestTimeout trustedProxies (strictMiddlewares K s)))"
proof -
  define sh where "sh = \<lparr>sh_ssi = ssi, sh_middlewares = strictMiddlewares K s\<rparr>"
  have "sh_middlewares sh = strictMiddlewares K s" by (simp add: sh_def)
  note ops = secure_strict_operations [OF this, unfolded secure_handler_def, rule_format]
  show ?thesis
    unfolding NewRouter_def HandlerWithOptions_def NewStrictHandler_def Let_def sh_def [symmetric]
    by (simp add: wrap_defs secure_handler_def serve_operation_def ops secured_intros split: sum.split)
qed

text \<open>The documentation pages replace the content policy by their own.\<close>

definition secured_page :: "Request \<Rightarrow> Writer \<Rightarrow> bool" where
  "secured_page r w \<longleftrightarrow> secured csp w \<or>
     secured docsCSP w \<and> (HasPrefix (URL_Path r) swaggerPrefix \<or> HasPrefix (URL_Path r) redocPrefix)"

definition page_handler :: "'w handler \<Rightarrow> bool" where
  "page_handler h \<longleftrightarrow> (\<forall>w r x. secured csp w \<longrightarrow> secured_page r (fst (h w r x)))"

lemma page_secure: "secure_handler h \<Longrightarrow> page_handler h"
  by (simp add: page_handler_def secured_page_def secure_handlerD)

lemma secure_http_NotFound: "secure_handler http_NotFound"
  by (simp add: secure_handler_def http_NotFound_def secured_intros)

lemma secure_spa_index: "secure_handler (spa_index C s)"
  unfolding secure_handler_def spa_index_def fst_conv
  by (intro allI impI secured_intros) (simp_all add: security_names_def)

lemma secure_spa_fallback: "secure_handler (spa_fallback C s)"
  by (rule secure_handlerI)
    (simp add: spa_fallback_def secure_handlerD [OF secure_http_NotFound] secure_handlerD [OF secure_spa_index])

lemma secure_http_Redirect: "secure_handler (http_Redirect url code txt')"
  by (simp add: secure_handler_def http_Redirect_def Let_def secured_intros security_names_def)

lemma secured_docsCSP: "secured p w \<Longrightarrow> secured docsCSP (Header_Set ''Content-Security-Policy'' docsCSP w)"
  by (simp add: secured_def Header_Set_def)

lemma page_docs:
  assumes "secure_handler fileServer" "prefix' = swaggerPrefix \<or> prefix' = redocPrefix"
  shows "page_handler (StripPrefix prefix' (docsHeaders fileServer))"
proof -
  have "prefix' \<noteq> []" using assms(2) by (auto simp: swaggerPrefix_def redocPrefix_def)
  then show ?thesis
    using assms secure_http_NotFound
    by (auto simp: page_handler_def secured_page_def StripPrefix_def docsHeaders_def intro: secure_handlerD secured_docsCSP)
qed

lemma secure_assets:
  "secure_handler fileServer \<Longrightarrow> secure_handler (StripPrefix pre (cacheHeaders fileServer v))"
  by (rule secure_handlerI)
    (simp add: StripPrefix_def cacheHeaders_def secure_handlerD [OF secure_http_NotFound] secure_handlerD
      secured_intros security_names_def)

definition page_router :: "'w Router \<Rightarrow> bool" where
  "page_router rt \<longleftrightarrow> list_all (\<lambda>(meth, pattern, h). page_handler h) (rt_routes rt) \<and> page_handler (rt_NotFound rt)"

lemma page_router_Get: "page_router rt \<Longrightarrow> page_handler h \<Longrightarrow> page_router (rt_Get pattern h rt)"
  by (simp add: page_router_def rt_Get_def)

lemma page_router_NotFound: "page_router rt \<Longrightarrow> page_handler h \<Longrightarrow> page_router (rt\<lparr>rt_NotFound := h\<rparr>)"
  by (simp add: page_router_def)

lemma page_router_NewRouter:
  "page_router (NewRouter C W B ssi requestTimeout trustedProxies (strictMiddlewares K s))"
  using secure_api_routes [of C W B ssi requestTimeout trustedProxies K s]
  by (auto simp: page_router_def list_all_iff page_secure NewRouter_def Let_def secure_http_NotFound)

lemma page_router_mountDocs:
  assumes "\<And>d. secure_handler (FileServer C d)" "page_router rt"
  shows "page_router (mountDocs C Y spec version swaggerFS redocFS rt)"
  unfolding mountDocs_def mountDocsUI_def Let_def
  by (intro page_router_Get assms page_secure secure_http_Redirect page_docs)
    (simp_all add: secure_handler_def secured_intros security_names_def)

lemma page_router_mountSPA:
  assumes "\<And>d. secure_handler (FileServer C d)" "page_router rt"
  shows "page_router (mountSPA C distFS indexHTML now rt)"
  unfolding mountSPA_def Let_def
  by (intro page_router_Get page_router_NotFound assms page_secure secure_spa_index secure_spa_fallback secure_assets)

lemma page_router_Handler:
  assumes "\<And>d. secure_handler (FileServer C d)"
  shows "page_router (Handler C W B Y T toDuration now s)"
  unfolding Handler_def Let_def
  by (simp add: page_router_NewRouter page_router_mountDocs page_router_mountSPA assms split: option.split)

text \<open>\<open>chi\<close> answers with one of the routes it was given.\<close>

definition chi_sound :: "'w chi \<Rightarrow> bool" where
  "chi_sound C \<longleftrightarrow> (\<forall>rs r i. chi_match C rs r = Matched i \<longrightarrow> i < length rs \<and> fst (rs ! i) = Method r)"

lemma page_router_dispatch:
  assumes "page_router rt" "chi_sound C" "secure_handler (chi_MethodNotAllowed C)" "secured csp w"
  shows "secured_page r (fst (dispatch C rt w r x))"
proof (cases "chi_match C (map (\<lambda>(meth, pattern, h). (meth, pattern)) (rt_routes rt)) r")
  case (Matched i)
  then have "i < length (rt_routes rt)" using assms(2) by (fastforce simp: chi_sound_def)
  then have "page_handler (snd (snd (rt_routes rt ! i)))"
    using assms(1) by (cases "rt_routes rt ! i") (auto simp: page_router_def list_all_length)
  then show ?thesis using Matched assms(4) by (simp add: dispatch_def page_handler_def)
next
  case NoMethod
  then show ?thesis using page_secure [OF assms(3)] assms(4) by (simp add: dispatch_def page_handler_def)
next
  case NoRoute
  then show ?thesis using assms(1,4) by (simp add: dispatch_def page_router_def page_handler_def)
qed

section \<open>Protected routes\<close>

text \<open>The routes whose operations are in \<^verbatim>\<open>sessionProtectedOps\<close>.\<close>

definition protected_routes :: "(string \<times> string) list" where
  "protected_routes =
     [(''POST'', basePath @ ''/auth/logout''),
      (''GET'', basePath @ ''/auth/me''),
      (''POST'', basePath @ ''/auth/password/change''),
      (''GET'', basePath @ ''/accounts''),
      (''POST'', basePath @ ''/transfer''),
      (''GET'', basePath @ ''/admin/users''),
      (''GET'', basePath @ ''/admin/accounts''),
      (''GET'', basePath @ ''/admin/transfers''),
      (''POST'', basePath @ ''/admin/users/{id}/unlock''),
      (''POST'', basePath @ ''/admin/users/{id}/password-reset'')]"

text \<open>
  \<open>refused Q x res\<close>: the answer is an error of the client, and the world was changed at most the way
  reading the request changes it.
\<close>

definition refused :: "('w \<Rightarrow> 'w \<Rightarrow> bool) \<Rightarrow> 'w \<Rightarrow> Writer \<times> 'w \<Rightarrow> bool" where
  "refused Q x res \<longleftrightarrow> (final_status (fst res) = 400 \<or> final_status (fst res) = 401) \<and> Q x (snd res)"

definition no_session_cookie :: "'w Server \<Rightarrow> Request \<Rightarrow> bool" where
  "no_session_cookie s r \<longleftrightarrow> (case Cookie r (st_SessionCookieName (sv_authSettings s)) of None \<Rightarrow> True | Some v \<Rightarrow> v = [])"

definition reads_body :: "'w web \<Rightarrow> ('w \<Rightarrow> 'w \<Rightarrow> bool) \<Rightarrow> bool" where
  "reads_body W Q \<longleftrightarrow> (\<forall>x. Q x x) \<and> (\<forall>r x. Q x (snd (wb_PasswordChangeRequest W r x))) \<and>
     (\<forall>r x. Q x (snd (wb_TransferRequest W r x)))"

lemma final_status_errors [simp]:
  "wr_status w = None \<Longrightarrow> 200 \<le> code \<Longrightarrow> final_status (http_Error msg code w) = code"
  "wr_status w = None \<Longrightarrow> 200 \<le> code \<Longrightarrow> final_status (writeJSONError K w code msg) = code"
  by (simp_all add: http_Error_def writeJSONError_def final_status_def write_body_def WriteHeader_def Header_Set_def
      Header_Del_def split: option.split)

lemma strict_serve_unauthenticated:
  assumes "sh_middlewares sh = strictMiddlewares K s" "sv_sessions s = Some m"
    and "operationID \<in> set sessionProtectedOps" "no_session_cookie s r"
  shows "strict_serve W sh operationID f visit w r x = (writeJSONError K w 401 ''authentication required'', x)"
proof -
  have "loadSession K s (Some r) x = (None, x)"
    using assms(4) by (auto simp: no_session_cookie_def loadSession_def split: option.splits)
  then show ?thesis
    using assms(1-3) by (simp add: strict_serve_def strictMiddlewares_def authMiddleware_def)
qed

lemma refused_with_json:
  assumes "Q x (snd (decode r x))" "wr_status w = None"
    and "\<And>body x1. rest body w r x1 = (writeJSONError K w 401 msg, x1)"
  shows "refused Q x (with_json W decode rest w r x)"
  using assms by (cases "decode r x") (auto simp: refused_def with_json_def RequestErrorHandlerFunc_def split: sum.split)

lemma protected_operations_refuse:
  assumes "sh_middlewares sh = strictMiddlewares K s" "sv_sessions s = Some m" "no_session_cookie s r"
    and "wr_status w = None" "reads_body W Q"
  shows
    "refused Q x (strict_PostAuthLogout W sh w r pLogout x)"
    "refused Q x (strict_GetAuthMe W sh w r x)"
    "refused Q x (strict_PostAuthPasswordChange W sh w r pChange x)"
    "refused Q x (strict_GetAccounts W sh w r x)"
    "refused Q x (strict_PostTransfer W sh w r pTransfer x)"
    "refused Q x (strict_GetAdminUsers W sh w r x)"
    "refused Q x (strict_GetAdminAccounts W sh w r x)"
    "refused Q x (strict_GetAdminTransfers W sh w r x)"
    "refused Q x (strict_PostAdminUserUnlock W sh w r i pUnlock x)"
    "refused Q x (strict_PostAdminUserPasswordReset W sh w r i pReset x)"
proof -
  have Q: "Q y y" "Q y (snd (wb_PasswordChangeRequest W r' y))" "Q y (snd (wb_TransferRequest W r' y))" for r' y
    using assms(5) by (simp_all add: reads_body_def)
  note serve = strict_serve_unauthenticated [OF assms(1,2) _ assms(3)]
  show
    "refused Q x (strict_PostAuthLogout W sh w r pLogout x)"
    "refused Q x (strict_GetAuthMe W sh w r x)"
    "refused Q x (strict_PostAuthPasswordChange W sh w r pChange x)"
    "refused Q x (strict_GetAccounts W sh w r x)"
    "refused Q x (strict_PostTransfer W sh w r pTransfer x)"
    "refused Q x (strict_GetAdminUsers W sh w r x)"
    "refused Q x (strict_GetAdminAccounts W sh w r x)"
    "refused Q x (strict_GetAdminTransfers W sh w r x)"
    "refused Q x (strict_PostAdminUserUnlock W sh w r i pUnlock x)"
    "refused Q x (strict_PostAdminUserPasswordReset W sh w r i pReset x)"
    unfolding strict_defs
    by ((rule refused_with_json [where K = K], rule Q, rule assms(4), rule serve, simp add: sessionProtectedOps_def) |
      simp add: serve sessionProtectedOps_def refused_def assms(4) Q)+
qed

lemma protected_route_refuses:
  assumes "sv_sessions s = Some m" "no_session_cookie s r" "wr_status w = None" "reads_body W Q"
    and "(meth, pattern, h) \<in> set (rt_routes (NewRouter C W B ssi requestTimeout trustedProxies (strictMiddlewares K s)))"
    and "(meth, pattern) \<in> set protected_routes"
  shows "refused Q x (h w r x)"
proof -
  define sh where "sh = \<lparr>sh_ssi = ssi, sh_middlewares = strictMiddlewares K s\<rparr>"
  have m: "sh_middlewares sh = strictMiddlewares K s" by (simp add: sh_def)
  note ops = protected_operations_refuse [OF m assms(1-4)]
  have e: "refused Q x (defaultErrorHandlerFunc str w r err, x)" for str err
    using assms(3,4) by (simp add: refused_def defaultErrorHandlerFunc_def reads_body_def)
  show ?thesis
    using assms(5,6)
    unfolding NewRouter_def HandlerWithOptions_def NewStrictHandler_def Let_def sh_def [symmetric] protected_routes_def
    by (auto simp: wrap_defs serve_operation_def ops e split: sum.split)
qed

lemma protected_routes_of_Handler:
  assumes "(meth, pattern, h) \<in> set (rt_routes (Handler C W B Y T toDuration now s))"
    and "(meth, pattern) \<in> set protected_routes"
  shows "(meth, pattern, h) \<in> set (rt_routes (NewRouter C W B (server_ssi (wb_pkgs W) T toDuration s)
    (sv_requestTimeout s) (sv_trustedProxies s) (strictMiddlewares (wb_pkgs W) s)))"
  using assms
  by (auto simp: Handler_def Let_def mountDocs_def mountDocsUI_def mountSPA_def rt_Get_def protected_routes_def
      specPath_def swaggerPrefix_def redocPrefix_def basePath_def split: option.splits)

abbreviation route_keys :: "'w Router \<Rightarrow> (string \<times> string) list" where
  "route_keys rt \<equiv> map (\<lambda>(meth, pattern, h). (meth, pattern)) (rt_routes rt)"

text \<open>
  No protected operation without a session, through the whole stack. When a request without the
  session cookie reaches a route whose operation is protected, the answer is 400 or 401, whatever its
  parameters and its body are, and the world is as it was except for the reading of the body: in
  particular the operation has not run, and neither Redis nor the database was asked.
\<close>

lemma protected_routes_need_a_session:
  assumes "chi_transparent C" "chi_sound C" and "sv_sessions s = Some m" "no_session_cookie s r"
    and "chi_match C (route_keys (Handler C W B Y T toDuration now s)) r = Matched i"
    and "route_keys (Handler C W B Y T toDuration now s) ! i \<in> set protected_routes"
    and "wr_status w = None" "reads_body W Q"
  shows "refused Q x (ServeHTTP C (Handler C W B Y T toDuration now s) w r x)"
proof -
  let ?H = "Handler C W B Y T toDuration now s"
  obtain ctx where d: "ServeHTTP C ?H w r x = dispatch C ?H (with_security_headers w) (WithContext r ctx) x"
    using ServeHTTP_dispatch [OF assms(1)] by blast
  obtain meth pattern h where e: "rt_routes ?H ! i = (meth, pattern, h)" by (metis prod.exhaust)
  have i: "i < length (rt_routes ?H)" using assms(2,5) by (fastforce simp: chi_sound_def)
  have "(meth, pattern, h) \<in> set (rt_routes ?H)" "(meth, pattern) \<in> set protected_routes"
    using e i assms(6) by (metis nth_mem, simp)
  note route = protected_routes_of_Handler [OF this] and protected = this(2)
  have "no_session_cookie s (WithContext r ctx)" "wr_status (with_security_headers w) = None"
    using assms(4,7) by (simp_all add: no_session_cookie_def with_security_headers_def Header_Set_def)
  then have "refused Q x (h (with_security_headers w) (WithContext r ctx) x)"
    using protected_route_refuses [OF assms(3) _ _ assms(8) route protected] by blast
  moreover have "chi_match C (route_keys ?H) (WithContext r ctx) = Matched i"
    using assms(1,5) by (simp add: chi_transparent_def)
  ultimately show ?thesis by (simp add: d dispatch_def e)
qed

text \<open>
  C20: the security headers are on every response, errors, unknown paths and files included: framing is
  denied, no referrer is sent, sniffing is off and there is a content policy, the one of \<^verbatim>\<open>router.go\<close>
  or, below the paths of the documentation pages only, the one of \<^verbatim>\<open>docs.go\<close>.
\<close>

theorem responses_carry_security_headers:
  assumes "chi_transparent C" "chi_sound C" and "secure_handler (chi_MethodNotAllowed C)"
    and "\<And>d. secure_handler (FileServer C d)"
  shows "secured_page r (fst (ServeHTTP C (Handler C W B Y T toDuration now s) w r x))"
proof -
  let ?H = "Handler C W B Y T toDuration now s"
  obtain ctx where "ServeHTTP C ?H w r x = dispatch C ?H (with_security_headers w) (WithContext r ctx) x"
    using ServeHTTP_dispatch [OF assms(1)] by blast
  then show ?thesis
    using page_router_dispatch [OF page_router_Handler [OF assms(4)] assms(2,3) secured_start,
      where r = "WithContext r ctx" and x = x] by (simp add: secured_page_def)
qed

section \<open>An instance\<close>

text \<open>
  A router that knows plain paths only, a file server, a client that sends no body, and bindings that
  accept strings.
\<close>

fun index_where :: "('a \<Rightarrow> bool) \<Rightarrow> 'a list \<Rightarrow> nat option" where
  "index_where P [] = None"
| "index_where P (a # as) = (if P a then Some 0 else map_option Suc (index_where P as))"

lemma index_where_Some: "index_where P as = Some i \<Longrightarrow> i < length as \<and> P (as ! i)"
  by (induction P as arbitrary: i rule: index_where.induct) (auto split: if_splits)

definition plain_match :: "(string \<times> string) list \<Rightarrow> Request \<Rightarrow> chi_route" where
  "plain_match rs r =
     (case index_where (\<lambda>(m, p). m = Method r \<and> p = URL_Path r) rs of
        Some i \<Rightarrow> Matched i
      | None \<Rightarrow> if list_ex (\<lambda>(m, p). p = URL_Path r) rs then NoMethod else NoRoute)"

definition app_chi :: "'w chi" where
  "app_chi = \<lparr>chi_RequestID = (\<lambda>h. h), chi_Recoverer = (\<lambda>h. h), chi_Timeout = (\<lambda>d h. h), chi_match = plain_match,
     chi_MethodNotAllowed = (\<lambda>w r x. (WriteHeader 405 w, x)),
     FileServer = (\<lambda>d w r x. case d (URL_Path r) of
        Some f \<Rightarrow> (write_body (PlainText f) (WriteHeader 200 w), x) | None \<Rightarrow> http_NotFound w r x),
     http_date = (\<lambda>t. ''Thu, 01 Jan 1970 00:00:00 GMT'')\<rparr>"

definition app_web :: "'w pkgs \<Rightarrow> 'w web" where
  "app_web K =
     (let EOF = Leaf (OtherErr ''EOF'')
      in \<lparr>wb_pkgs = K, wb_read = (\<lambda>r x. (Inr [], x)), wb_LoginRequest = (\<lambda>r x. (Inl EOF, x)),
          wb_PasswordChangeRequest = (\<lambda>r x. (Inl EOF, x)), wb_PasswordResetRequest = (\<lambda>r x. (Inl EOF, x)),
          wb_PasswordResetRequestRequest = (\<lambda>r x. (Inl EOF, x)), wb_RegisterRequest = (\<lambda>r x. (Inl EOF, x)),
          wb_TransferRequest = (\<lambda>r x. (Inl EOF, x)), error_string = (\<lambda>err. ''EOF'')\<rparr>)"

definition app_bindings :: bindings where
  "app_bindings = \<lparr>URLParam = (\<lambda>r name. []), bind_uuid = (\<lambda>name v. Inl (Leaf (OtherErr ''invalid''))),
     bind_float64 = (\<lambda>name v. Inl (Leaf (OtherErr ''invalid''))), bind_int32 = (\<lambda>name v. Inl (Leaf (OtherErr ''invalid''))),
     bind_header = (\<lambda>name v. Inr v), bind_query_string = (\<lambda>name q. Inr None), bind_query_int32 = (\<lambda>name q. Inr None),
     required_error = (\<lambda>err. False)\<rparr>"

definition app_yaml :: yaml where
  "app_yaml = \<lparr>yaml_Unmarshal = (\<lambda>t. Inl (Leaf (OtherErr ''yaml''))), yaml_Marshal = (\<lambda>n. Inl (Leaf (OtherErr ''yaml''))),
     ySetString = (\<lambda>v n. yamlNode False v [])\<rparr>"

lemma route_keys_Handler:
  "\<exists>more. route_keys (Handler C W B Y T toDuration now s) =
     map (\<lambda>(meth, pattern, h). (meth, pattern)) (HandlerWithOptions W B (NewStrictHandler W ssi []) \<lparr>BaseURL = basePath,
       Middlewares = [], ErrorHandlerFunc = None\<rparr>) @ more"
  by (simp add: Handler_def NewRouter_def HandlerWithOptions_def Let_def mountDocs_def mountDocsUI_def mountSPA_def rt_Get_def
      split: option.split)

lemma plain_match_api:
  assumes "Method r = ''POST''" "URL_Path r = basePath @ ''/transfer''"
  shows "chi_match app_chi (route_keys (Handler C W B Y T toDuration now s)) r = Matched 27"
    "route_keys (Handler C W B Y T toDuration now s) ! 27 \<in> set protected_routes"
proof -
  obtain more where "route_keys (Handler C W B Y T toDuration now s) =
     map (\<lambda>(meth, pattern, h). (meth, pattern)) (HandlerWithOptions W B (NewStrictHandler W (server_ssi (wb_pkgs W) T toDuration s) []) \<lparr>BaseURL = basePath,
       Middlewares = [], ErrorHandlerFunc = None\<rparr>) @ more"
    using route_keys_Handler by blast
  then show "chi_match app_chi (route_keys (Handler C W B Y T toDuration now s)) r = Matched 27"
      "route_keys (Handler C W B Y T toDuration now s) ! 27 \<in> set protected_routes"
    using assms by (simp_all add: HandlerWithOptions_def Let_def app_chi_def plain_match_def protected_routes_def)
qed

abbreviation app_handler :: "appmem Router" where
  "app_handler \<equiv> Handler app_chi (app_web app_pkgs) app_bindings app_yaml mem_rt (\<lambda>f. 0) 0 app_server"

lemma app_chi_ok: "chi_transparent (app_chi :: 'w chi)" "chi_sound (app_chi :: 'w chi)"
  "secure_handler (chi_MethodNotAllowed (app_chi :: 'w chi))" "secure_handler (FileServer (app_chi :: 'w chi) d)"
proof -
  have "\<exists>ctx. h w r x = h w (WithContext r ctx) x" for h :: "'w handler" and w r x
    by (rule exI [of _ "Context r"]) (simp add: WithContext_self)
  then show "chi_transparent (app_chi :: 'w chi)" by (simp add: chi_transparent_def app_chi_def plain_match_def)
  show "chi_sound (app_chi :: 'w chi)"
    by (auto simp: chi_sound_def app_chi_def plain_match_def split: option.splits if_splits dest!: index_where_Some)
  show "secure_handler (chi_MethodNotAllowed (app_chi :: 'w chi))"
    by (simp add: secure_handler_def app_chi_def secured_intros)
  show "secure_handler (FileServer (app_chi :: 'w chi) d)"
    by (rule secure_handlerI)
      (simp add: app_chi_def secure_handlerD [OF secure_http_NotFound] secured_intros split: option.split)
qed

theorem responses_carry_security_headers_witness:
  "secured_page (app_request ''GET'' ''/no/such/page'' [])
    (fst (ServeHTTP app_chi app_handler fresh_writer (app_request ''GET'' ''/no/such/page'' []) app_start))"
  by (rule responses_carry_security_headers [OF app_chi_ok])

end
