(* ===== verification/Cli.thy ===== *)
theory Cli
  imports Lifecycle Api_Access
begin

text \<open>
  The commands of \<^verbatim>\<open>internal/cli\<close>: \<^verbatim>\<open>run\<close> (\<^verbatim>\<open>run.go\<close>), \<^verbatim>\<open>migrate\<close> (\<^verbatim>\<open>migrate.go\<close>), \<^verbatim>\<open>healthcheck\<close>
  (\<^verbatim>\<open>healthcheck.go\<close>) and their tree (\<^verbatim>\<open>root.go\<close>), with the embedded files of \<^verbatim>\<open>web/web.go\<close> and
  \<^verbatim>\<open>api/spec.go\<close>. Log records are not kept.

  The record \<open>'w proc\<close> holds what surrounds the process: the drivers, the packages of the API, the
  embedded files, the clock, signals, the serving of \<^verbatim>\<open>net/http\<close>, the HTTP client, standard output
  and \<^verbatim>\<open>urfave/cli\<close>.
\<close>

section \<open>The process\<close>

datatype ClientAuthType = NoClientCert | RequireAndVerifyClientCert

definition VersionTLS12 :: nat where "VersionTLS12 = 0x0303"

record tls_Config =
  MinVersion :: nat
  RootCAs :: "string option"
  Certificates :: "string list"
  ClientCAs :: "string option"
  ClientAuth :: ClientAuthType

definition tls_floor :: tls_Config where
  "tls_floor = \<lparr>MinVersion = VersionTLS12, RootCAs = None, Certificates = [], ClientCAs = None, ClientAuth = NoClientCert\<rparr>"

record 'w http_Server =
  hs_Addr :: string
  hs_Handler :: "'w Router"
  hs_ReadTimeout :: Duration
  hs_WriteTimeout :: Duration
  hs_IdleTimeout :: Duration
  hs_ReadHeaderTimeout :: Duration
  hs_MaxHeaderBytes :: int
  hs_TLSConfig :: tls_Config

record http_Client =
  cl_Timeout :: Duration
  cl_TLSClientConfig :: "tls_Config option"

record http_Response =
  rs_StatusCode :: int
  rs_Body :: nat

text \<open>How the server is started, and why the \<^verbatim>\<open>select\<close> of \<^verbatim>\<open>run\<close> wakes up.\<close>

datatype listen = ListenAndServe | ListenAndServeTLS string string

datatype wakeup = ServerReturned "goerr option" | SignalReceived

text \<open>Commands of \<^verbatim>\<open>urfave/cli\<close>; an action reads the values of its flags.\<close>

datatype Flag = StringFlag string string | DurationFlag string Duration

record flags =
  fl_String :: "string \<Rightarrow> string"
  fl_Duration :: "string \<Rightarrow> Duration"

type_synonym 'w action = "flags \<Rightarrow> 'w \<Rightarrow> goerr option \<times> 'w"

datatype (dead 'w) Command =
  Command (cmd_Name: string) (cmd_Version: string) (cmd_Flags: "Flag list") (cmd_Action: "'w action option")
    (cmd_Commands: "'w Command list")

text \<open>
  \<open>http_serve\<close> serves requests until the serving call returns or a signal arrives; \<open>srv_returned\<close> is
  what the serving call returns after \<^verbatim>\<open>Shutdown\<close>. \<open>var_version\<close>, \<open>var_commit\<close> and \<open>var_buildTime\<close> are the
  variables that the build sets.
\<close>

record 'w proc =
  pr_host :: host
  pr_drivers :: "'w drivers"
  pr_redis :: "handle \<Rightarrow> 'w redis"
  pr_pg :: "handle \<Rightarrow> 'w pg"
  pr_rt :: "'w rt"
  pr_now :: "'w \<Rightarrow> Time"
  pr_chi :: "'w chi"
  pr_web :: "'w web"
  pr_bindings :: bindings
  pr_yaml :: yaml
  pr_toDuration :: "float64 \<Rightarrow> Duration"
  pr_dist :: fs
  pr_spec :: string
  var_version :: string
  var_commit :: string
  var_buildTime :: string
  runtime_Version :: string
  time_Parse_RFC3339 :: "string \<Rightarrow> Time res"
  time_Format :: "Time \<Rightarrow> string"
  signal_NotifyContext :: "'w \<Rightarrow> 'w"
  signal_stop :: "'w \<Rightarrow> 'w"
  http_serve :: "'w http_Server \<Rightarrow> listen \<Rightarrow> 'w \<Rightarrow> wakeup \<times> 'w"
  srv_Shutdown :: "'w http_Server \<Rightarrow> Duration \<Rightarrow> ('w, unit) act"
  srv_Close :: "'w http_Server \<Rightarrow> ('w, unit) act"
  srv_returned :: "'w http_Server \<Rightarrow> 'w \<Rightarrow> goerr option \<times> 'w"
  LoadX509KeyPair :: "string \<Rightarrow> string \<Rightarrow> string res"
  http_NewRequest :: "string \<Rightarrow> goerr option"
  client_Do :: "http_Client \<Rightarrow> Duration \<Rightarrow> string \<Rightarrow> ('w, http_Response) act"
  body_Close :: "nat \<Rightarrow> 'w \<Rightarrow> 'w"
  fmt_Println :: "string \<Rightarrow> 'w \<Rightarrow> 'w"
  fmt_Stderr :: "goerr \<Rightarrow> 'w \<Rightarrow> 'w"
  tabwriter_Flush :: "string \<Rightarrow> 'w \<Rightarrow> goerr option \<times> 'w"
  cli_Run :: "'w Command \<Rightarrow> string list \<Rightarrow> 'w \<Rightarrow> goerr option \<times> 'w"

section \<open>web/web.go and api/spec.go\<close>

text \<open>\<^verbatim>\<open>fs.Sub\<close> and \<^verbatim>\<open>fs.ReadFile\<close> on an embedded tree.\<close>

definition ValidPath :: "string \<Rightarrow> bool" where
  "ValidPath name \<longleftrightarrow> name = ''.'' \<or>
     list_all (\<lambda>e. e \<noteq> [] \<and> e \<noteq> ''.'' \<and> e \<noteq> ''..'') (split_on (CHR ''/'') name)"

definition Sub :: "fs \<Rightarrow> string \<Rightarrow> fs res" where
  "Sub F dir =
     (if \<not> ValidPath dir then Inl (Leaf (OtherErr ''invalid argument''))
      else if dir = ''.'' then Inr F else Inr (fs_Sub F dir))"

definition ReadFile :: "fs \<Rightarrow> string \<Rightarrow> string res" where
  "ReadFile F name = (case F name of None \<Rightarrow> Inl (Leaf (OtherErr ''file does not exist'')) | Some b \<Rightarrow> Inr b)"

text \<open>\<^verbatim>\<open>DistFS\<close> panics where this returns an error.\<close>

definition DistFS :: "'w proc \<Rightarrow> fs res" where
  "DistFS R = (case Sub (pr_dist R) ''dist'' of Inl err \<Rightarrow> Inl (Wrapf ''web: locate dist dir: %w'' [err]) | Inr sub \<Rightarrow> Inr sub)"

definition IndexHTML :: "'w proc \<Rightarrow> string res" where
  "IndexHTML R =
     (case ReadFile (pr_dist R) ''dist/index.html'' of
        Inl err \<Rightarrow> Inl (Wrapf ''web: read dist/index.html: %w'' [err])
      | Inr b \<Rightarrow> Inr b)"

definition SwaggerUIFS :: "'w proc \<Rightarrow> fs res" where
  "SwaggerUIFS R =
     (case Sub (pr_dist R) ''dist/swagger'' of
        Inl err \<Rightarrow> Inl (Wrapf ''web: locate dist/swagger dir: %w'' [err])
      | Inr sub \<Rightarrow> Inr sub)"

definition RedocFS :: "'w proc \<Rightarrow> fs res" where
  "RedocFS R =
     (case Sub (pr_dist R) ''dist/redoc'' of
        Inl err \<Rightarrow> Inl (Wrapf ''web: locate dist/redoc dir: %w'' [err])
      | Inr sub \<Rightarrow> Inr sub)"

definition Spec :: "'w proc \<Rightarrow> string" where
  "Spec R = pr_spec R"

section \<open>run.go\<close>

definition dependencyCheckTimeout :: Duration where
  "dependencyCheckTimeout = 2 * Second"

definition parseBuildTime :: "'w proc \<Rightarrow> string \<Rightarrow> Time" where
  "parseBuildTime R s = (case time_Parse_RFC3339 R s of Inl err \<Rightarrow> 0 | Inr t \<Rightarrow> t)"

text \<open>The server value: the components on the two connections, with the settings of the configuration.\<close>

definition run_api ::
    "'w proc \<Rightarrow> Config \<Rightarrow> handle \<Rightarrow> handle \<Rightarrow> fs \<Rightarrow> string \<Rightarrow> fs \<Rightarrow> fs \<Rightarrow> Prefix list \<Rightarrow> 'w Server" where
  "run_api R cfg db rdb distFS indexHTML swaggerFS redocFS trustedProxies =
     (let D = pr_drivers R;
          auth = c_Auth cfg;
          sessions = NewManager (client_SessionStore (pr_redis R rdb)) IsMiss (au_SessionIdleTTL auth)
                       (au_SessionAbsoluteTTL auth) (pr_now R);
          recovery = NewRecovery (client_ResetStore (pr_redis R rdb)) IsMiss (au_ResetTokenTTL auth);
          lockout = NewLockout (client_LockoutStore (pr_redis R rdb)) IsMiss (au_LoginMaxAttempts auth)
                      (au_LoginWindow auth) (au_LockTTL auth);
          limiter = redis_Limiter (pr_redis R rdb) (pr_now R) ''ratelimit'' (rl_Limit (c_RateLimit cfg))
                      (rl_Window (c_RateLimit cfg))
      in NewServer (runtime_Version R)
           [WithSPA distFS indexHTML,
            WithDocs (Spec R) swaggerFS redocFS,
            WithBuildInfo \<lparr>bi_Service = ''devopsbin-api'', bi_Version = var_version R, bi_GitSHA = var_commit R,
              bi_BuildTime = parseBuildTime R (var_buildTime R), bi_GoVersion = runtime_Version R\<rparr>,
            WithReadinessCheck ''postgres'' (PingCheck (store_Ping D db) dependencyCheckTimeout),
            WithReadinessCheck ''redis'' (PingCheck (cache_Ping D rdb) dependencyCheckTimeout),
            WithStartupCheck ''postgres'' (PingCheck (store_Ping D db) dependencyCheckTimeout),
            WithStartupCheck ''redis'' (PingCheck (cache_Ping D rdb) dependencyCheckTimeout),
            WithRequestTimeout (hc_RequestTimeout (c_Http cfg)),
            WithTrustedProxies trustedProxies,
            WithAuth (store_userStore (pr_pg R db) (pr_rt R)) sessions
              \<lparr>st_BcryptCost = au_BcryptCost auth, st_SessionCookieName = au_SessionCookieName auth,
               st_CSRFCookieName = au_CSRFCookieName auth, st_SessionAbsoluteTTL = au_SessionAbsoluteTTL auth\<rparr>,
            WithPasswordRecovery recovery,
            WithLoginLockout lockout,
            WithRateLimiter (limiter_rateLimiter limiter)])"

definition run_http_Server :: "'w proc \<Rightarrow> Config \<Rightarrow> 'w Server \<Rightarrow> Time \<Rightarrow> 'w http_Server res" where
  "run_http_Server R cfg api now =
     (let h = c_Http cfg;
          srv = \<lparr>hs_Addr = hc_Addr h,
                 hs_Handler = Handler (pr_chi R) (pr_web R) (pr_bindings R) (pr_yaml R) (pr_rt R) (pr_toDuration R) now api,
                 hs_ReadTimeout = hc_ReadTimeout h, hs_WriteTimeout = hc_WriteTimeout h,
                 hs_IdleTimeout = hc_IdleTimeout h, hs_ReadHeaderTimeout = hc_ReadTimeout h,
                 hs_MaxHeaderBytes = 2 ^ 20, hs_TLSConfig = tls_floor\<rparr>
      in if MTLSEnabled h
         then (case ClientCAPool (pr_host R) h of
                 Inl err \<Rightarrow> Inl err
               | Inr pool \<Rightarrow>
                   Inr (srv\<lparr>hs_TLSConfig := (hs_TLSConfig srv)\<lparr>ClientCAs := Some pool, ClientAuth := RequireAndVerifyClientCert\<rparr>\<rparr>))
         else Inr srv)"

definition ErrServerClosed :: errkind where
  "ErrServerClosed = OtherErr ''http: Server closed''"

text \<open>What the serving goroutine sends, and \<^verbatim>\<open>errors.Join\<close>.\<close>

definition serveErr :: "goerr option \<Rightarrow> goerr option" where
  "serveErr err = (case err of Some e \<Rightarrow> if \<not> errors_is e ErrServerClosed then Some e else None | None \<Rightarrow> None)"

definition errors_Join :: "goerr \<Rightarrow> goerr \<Rightarrow> goerr" where
  "errors_Join e1 e2 = Wrapf ''errors.Join'' [e1, e2]"

definition run_listen :: "HttpConfig \<Rightarrow> listen" where
  "run_listen h = (if TLSEnabled h then ListenAndServeTLS (hc_TLSCertFile h) (hc_TLSKeyFile h) else ListenAndServe)"

definition run_serve :: "'w proc \<Rightarrow> Config \<Rightarrow> 'w http_Server \<Rightarrow> 'w \<Rightarrow> goerr option \<times> 'w" where
  "run_serve R cfg srv w =
     (case http_serve R srv (run_listen (c_Http cfg)) w of
        (ServerReturned err, w1) \<Rightarrow> (serveErr err, w1)
      | (SignalReceived, w1) \<Rightarrow>
          (let w2 = signal_stop R w1
           in case srv_Shutdown R srv (hc_ShutdownTimeout (c_Http cfg)) w2 of
                (Inl err, w3) \<Rightarrow>
                  (case srv_Close R srv w3 of
                     (Inl closeErr, w4) \<Rightarrow> (Some (errors_Join err closeErr), w4)
                   | (Inr _, w4) \<Rightarrow> (Some err, w4))
              | (Inr _, w3) \<Rightarrow>
                  (case srv_returned R srv w3 of
                     (r, w4) \<Rightarrow> (case serveErr r of Some err \<Rightarrow> (Some err, w4) | None \<Rightarrow> (None, w4)))))"

text \<open>The part of the action after both connections are there.\<close>

definition run_connected :: "'w proc \<Rightarrow> Config \<Rightarrow> handle \<Rightarrow> handle \<Rightarrow> 'w \<Rightarrow> goerr option \<times> 'w" where
  "run_connected R cfg db rdb w =
     (case IndexHTML R of Inl err \<Rightarrow> (Some err, w) | Inr indexHTML \<Rightarrow>
     (case SwaggerUIFS R of Inl err \<Rightarrow> (Some err, w) | Inr swaggerFS \<Rightarrow>
     (case RedocFS R of Inl err \<Rightarrow> (Some err, w) | Inr redocFS \<Rightarrow>
     (case TrustedProxyPrefixes (c_Http cfg) of Inl err \<Rightarrow> (Some err, w) | Inr trustedProxies \<Rightarrow>
     (case DistFS R of Inl err \<Rightarrow> (Some err, w) | Inr distFS \<Rightarrow>
     (case run_http_Server R cfg (run_api R cfg db rdb distFS indexHTML swaggerFS redocFS trustedProxies) (pr_now R w) of
        Inl err \<Rightarrow> (Some err, w)
      | Inr srv \<Rightarrow> run_serve R cfg srv w))))))"

definition run_action :: "'w proc \<Rightarrow> 'w \<Rightarrow> goerr option \<times> 'w" where
  "run_action R w =
     (case Load (pr_host R) of
        Inl err \<Rightarrow> (Some err, w)
      | Inr cfg \<Rightarrow>
          deferred (signal_stop R)
            (\<lambda>w1. case store_New (pr_drivers R) (pc_URL (c_Postgres cfg)) w1 of
               (Inl err, w2) \<Rightarrow> (Some err, w2)
             | (Inr db, w2) \<Rightarrow>
                 deferred (store_Close (pr_drivers R) (Some db))
                   (\<lambda>w3. case cache_New (pr_drivers R) (c_Redis cfg) w3 of
                      (Inl err, w4) \<Rightarrow> (Some err, w4)
                    | (Inr rdb, w4) \<Rightarrow>
                        deferred (\<lambda>w5. snd (cache_Close (pr_drivers R) (Some rdb) w5)) (run_connected R cfg db rdb) w4) w2)
            (signal_NotifyContext R w))"

definition newRunCmd :: "'w proc \<Rightarrow> 'w Command" where
  "newRunCmd R = Command ''run'' [] [] (Some (\<lambda>_. run_action R)) []"

section \<open>migrate.go\<close>

definition withMigrator :: "'w proc \<Rightarrow> (Migrator \<Rightarrow> 'w \<Rightarrow> goerr option \<times> 'w) \<Rightarrow> 'w \<Rightarrow> goerr option \<times> 'w" where
  "withMigrator R fn w =
     (case Load (pr_host R) of
        Inl err \<Rightarrow> (Some err, w)
      | Inr cfg \<Rightarrow>
          (case migrate_New (pr_drivers R) (pc_URL (c_Postgres cfg)) w of
             (Inl err, w1) \<Rightarrow> (Some err, w1)
           | (Inr m, w1) \<Rightarrow> deferred (\<lambda>w2. snd (Migrator_Close (pr_drivers R) (Some m) w2)) (fn m) w1))"

fun print_results :: "'w proc \<Rightarrow> MigrationResult list \<Rightarrow> 'w \<Rightarrow> 'w" where
  "print_results R [] w = w"
| "print_results R (r # rs) w = print_results R rs (fmt_Println R (''applied '' @ mr_String r) w)"

definition migrate_up :: "'w proc \<Rightarrow> Migrator \<Rightarrow> 'w \<Rightarrow> goerr option \<times> 'w" where
  "migrate_up R m w =
     (case Migrator_Up (pr_drivers R) m w of
        (Inl err, w1) \<Rightarrow> (Some err, w1)
      | (Inr results, w1) \<Rightarrow>
          if length results = 0 then (None, fmt_Println R ''database is up to date, no migrations applied'' w1)
          else (None, print_results R results w1))"

definition tab :: string where "tab = [CHR 0x09]"
definition newline :: string where "newline = [CHR 0x0A]"

definition status_line :: "'w proc \<Rightarrow> MigrationStatus \<Rightarrow> string" where
  "status_line R s =
     (let appliedAt = (if ms_AppliedAt s \<noteq> 0 then time_Format R (ms_AppliedAt s) else ''pending'')
      in show_int (ms_Version s) @ tab @ ms_State s @ tab @ appliedAt @ tab @ ms_Path s @ newline)"

definition migrate_status :: "'w proc \<Rightarrow> Migrator \<Rightarrow> 'w \<Rightarrow> goerr option \<times> 'w" where
  "migrate_status R m w =
     (case Migrator_Status (pr_drivers R) m w of
        (Inl err, w1) \<Rightarrow> (Some err, w1)
      | (Inr status, w1) \<Rightarrow>
          tabwriter_Flush R (''VERSION'' @ tab @ ''STATE'' @ tab @ ''APPLIED AT'' @ tab @ ''SOURCE'' @ newline @
            concat (map (status_line R) status)) w1)"

definition migrate_version :: "'w proc \<Rightarrow> Migrator \<Rightarrow> 'w \<Rightarrow> goerr option \<times> 'w" where
  "migrate_version R m w =
     (case Migrator_Version (pr_drivers R) m w of
        (Inl err, w1) \<Rightarrow> (Some err, w1)
      | (Inr v, w1) \<Rightarrow> (None, fmt_Println R (show_int v) w1))"

definition newMigrateCmd :: "'w proc \<Rightarrow> 'w Command" where
  "newMigrateCmd R = Command ''migrate'' [] [] None
     [Command ''up'' [] [] (Some (\<lambda>_. withMigrator R (migrate_up R))) [],
      Command ''status'' [] [] (Some (\<lambda>_. withMigrator R (migrate_status R))) [],
      Command ''version'' [] [] (Some (\<lambda>_. withMigrator R (migrate_version R))) []]"

section \<open>healthcheck.go\<close>

definition healthcheckClient :: "'w proc \<Rightarrow> string \<Rightarrow> string \<Rightarrow> string \<Rightarrow> Duration \<Rightarrow> http_Client res" where
  "healthcheckClient R caCertFile certFile keyFile timeout =
     (if certFile = [] \<and> keyFile = [] \<and> caCertFile = []
      then Inr \<lparr>cl_Timeout = timeout, cl_TLSClientConfig = None\<rparr>
      else (case (if caCertFile \<noteq> []
                  then (case os_ReadFile (pr_host R) caCertFile of
                          Inl err \<Rightarrow> Inl (Wrapf ''healthcheck: read cacert: %w'' [err])
                        | Inr pem \<Rightarrow>
                            if \<not> pem_has_certs (pr_host R) pem
                            then Inl (errorf ''healthcheck: no certificates found in %q'')
                            else Inr (tls_floor\<lparr>RootCAs := Some pem\<rparr>))
                  else Inr tls_floor) of
              Inl err \<Rightarrow> Inl err
            | Inr tlsConfig \<Rightarrow>
                (case (if certFile \<noteq> [] \<and> keyFile = [] then Inl (errorf ''healthcheck: --cert requires --key'')
                       else if certFile = [] \<and> keyFile \<noteq> [] then Inl (errorf ''healthcheck: --key requires --cert'')
                       else if certFile \<noteq> [] \<and> keyFile \<noteq> []
                       then (case LoadX509KeyPair R certFile keyFile of
                               Inl err \<Rightarrow> Inl (Wrapf ''healthcheck: load client certificate: %w'' [err])
                             | Inr cert \<Rightarrow> Inr (tlsConfig\<lparr>Certificates := [cert]\<rparr>))
                       else Inr tlsConfig) of
                   Inl err \<Rightarrow> Inl err
                 | Inr tlsConfig \<Rightarrow> Inr \<lparr>cl_Timeout = timeout, cl_TLSClientConfig = Some tlsConfig\<rparr>)))"

definition healthcheck_action :: "'w proc \<Rightarrow> 'w action" where
  "healthcheck_action R cmd w =
     (let url = fl_String cmd ''url'';
          timeout = fl_Duration cmd ''timeout''
      in case healthcheckClient R (fl_String cmd ''cacert'') (fl_String cmd ''cert'') (fl_String cmd ''key'') timeout of
           Inl err \<Rightarrow> (Some err, w)
         | Inr client \<Rightarrow>
             (case http_NewRequest R url of
                Some err \<Rightarrow> (Some err, w)
              | None \<Rightarrow>
                  (case client_Do R client timeout url w of
                     (Inl err, w1) \<Rightarrow> (Some err, w1)
                   | (Inr resp, w1) \<Rightarrow>
                       deferred (body_Close R (rs_Body resp))
                         (\<lambda>w2. if rs_StatusCode resp \<noteq> 200 then (Some (errorf ''healthcheck: status %d''), w2) else (None, w2)) w1)))"

definition healthcheck_flags :: "Flag list" where
  "healthcheck_flags =
     [StringFlag ''url'' ''http://127.0.0.1:8080/api/v1/livez'', DurationFlag ''timeout'' (2 * Second),
      StringFlag ''cacert'' [], StringFlag ''cert'' [], StringFlag ''key'' []]"

definition newHealthcheckCmd :: "'w proc \<Rightarrow> 'w Command" where
  "newHealthcheckCmd R = Command ''healthcheck'' [] healthcheck_flags (Some (healthcheck_action R)) []"

section \<open>root.go\<close>

definition newApp :: "'w proc \<Rightarrow> 'w Command" where
  "newApp R = Command ''devopsbin''
     (var_version R @ '' (commit '' @ var_commit R @ '', built '' @ var_buildTime R @ '')'') [] None
     [newRunCmd R, newMigrateCmd R, newHealthcheckCmd R]"

definition Execute :: "'w proc \<Rightarrow> string list \<Rightarrow> 'w \<Rightarrow> int \<times> 'w" where
  "Execute R args w =
     (case cli_Run R (newApp R) args w of
        (Some err, w1) \<Rightarrow> (1, fmt_Stderr R err w1)
      | (None, w1) \<Rightarrow> (0, w1))"

section \<open>cmd/devopsbin\<close>

text \<open>The exit code of the process.\<close>

definition main :: "'w proc \<Rightarrow> string list \<Rightarrow> 'w \<Rightarrow> int \<times> 'w" where
  "main R args w = Execute R args w"

end
