(* ===== verification/Cli_Service.thy ===== *)
theory Cli_Service
  imports Cli
begin

text \<open>
  What the commands do to the process and its surroundings: no connection is left open, the server that
  \<^verbatim>\<open>run\<close> serves is the configured one, and the health check passes on a live service.
\<close>

section \<open>Every command closes what it opened\<close>

text \<open>Serving, signals and output open and close no connection of their own.\<close>

definition keeps_conns :: "'w proc \<Rightarrow> ('w \<Rightarrow> conn multiset) \<Rightarrow> bool" where
  "keeps_conns R conns \<longleftrightarrow> (\<forall>w. conns (signal_NotifyContext R w) = conns w \<and> conns (signal_stop R w) = conns w \<and>
     (\<forall>srv l. conns (snd (http_serve R srv l w)) = conns w) \<and> (\<forall>srv d. conns (snd (srv_Shutdown R srv d w)) = conns w) \<and>
     (\<forall>srv. conns (snd (srv_Close R srv w)) = conns w) \<and> (\<forall>srv. conns (snd (srv_returned R srv w)) = conns w) \<and>
     (\<forall>t. conns (fmt_Println R t w) = conns w) \<and> (\<forall>t. conns (snd (tabwriter_Flush R t w)) = conns w))"

lemma deferred_kept: "(\<And>w. conns (f w) = conns w) \<Longrightarrow> conns (snd (deferred f body w)) = conns (snd (body w))"
  by (simp add: deferred_def split_beta)

lemma run_serve_conns: "keeps_conns R conns \<Longrightarrow> conns (snd (run_serve R cfg srv w)) = conns w"
  unfolding keeps_conns_def run_serve_def Let_def by (auto split: prod.split wakeup.split sum.split option.split) (metis snd_conv)+

lemma run_connected_conns: "keeps_conns R conns \<Longrightarrow> conns (snd (run_connected R cfg db rdb w)) = conns w"
  by (simp add: run_connected_def run_serve_conns split: sum.split)

lemma print_results_conns: "keeps_conns R conns \<Longrightarrow> conns (print_results R rs w) = conns w"
  by (induction rs arbitrary: w) (simp_all add: keeps_conns_def)

lemma migrate_conns:
  assumes "driver_laws (pr_drivers R) conns" "keeps_conns R conns"
  shows "conns (snd (migrate_up R m w)) = conns w" "conns (snd (migrate_status R m w)) = conns w"
    "conns (snd (migrate_version R m w)) = conns w"
  using driver_laws.goose_conns [OF assms(1), of "mg_provider m" w] assms(2) print_results_conns [OF assms(2)]
  by (auto simp: migrate_up_def migrate_status_def migrate_version_def Migrator_Up_def Migrator_Status_def
    Migrator_Version_def keeps_conns_def split: prod.splits sum.splits)

context driver_laws
begin

lemma run_action_releases:
  assumes k: "keeps_conns R conns" and d: "pr_drivers R = D"
  shows "conns (snd (run_action R w)) = conns w"
proof (cases "Load (pr_host R)")
  case (Inr cfg)
  have stop: "conns (signal_stop R w) = conns w" "conns (signal_NotifyContext R w) = conns w" for w
    using k by (simp_all add: keeps_conns_def)
  let ?redis = "\<lambda>db w3. case cache_New D (c_Redis cfg) w3 of
      (Inl err, w4) \<Rightarrow> (Some err, w4)
    | (Inr rdb, w4) \<Rightarrow> deferred (\<lambda>w5. snd (cache_Close D (Some rdb) w5)) (run_connected R cfg db rdb) w4"
  have "conns (snd (?redis db w3)) = conns w3" for db w3
    using redis_client.released [where body = "run_connected R cfg db" and f = Some] run_connected_conns [OF k] by blast
  then have "conns (snd (case store_New D (pc_URL (c_Postgres cfg)) w1 of
      (Inl err, w2) \<Rightarrow> (Some err, w2)
    | (Inr db, w2) \<Rightarrow> deferred (store_Close D (Some db)) (?redis db) w2)) = conns w1" for w1
    using pg_pool.released [where body = ?redis and f = Some] by blast
  then show ?thesis
    unfolding run_action_def Inr d by (simp add: stop deferred_kept [of conns "signal_stop R"])
qed (simp add: run_action_def)

lemma withMigrator_releases:
  assumes "\<And>m w. conns (snd (fn m w)) = conns w" "pr_drivers R = D"
  shows "conns (snd (withMigrator R fn w)) = conns w"
  unfolding withMigrator_def assms(2)
  using runner.released [where body = fn and f = Some] assms(1) by (simp split: sum.split)

end

text \<open>
  C18: no command leaks a connection. Whatever happens during \<^verbatim>\<open>run\<close> (a configuration that does not
  load, a dependency that cannot be set up, missing files, a listener that fails, a signal, a drain that
  times out) and during the \<^verbatim>\<open>migrate\<close> commands, the connections that are open at the end are those
  that were open before.
\<close>

theorem commands_close_their_connections:
  assumes "driver_laws (pr_drivers R) conns" and "keeps_conns R conns"
  shows "conns (snd (run_action R w)) = conns w \<and>
    conns (snd (withMigrator R (migrate_up R) w)) = conns w \<and>
    conns (snd (withMigrator R (migrate_status R) w)) = conns w \<and>
    conns (snd (withMigrator R (migrate_version R) w)) = conns w"
  using driver_laws.run_action_releases [OF assms refl]
    driver_laws.withMigrator_releases [OF assms(1), where fn = "migrate_up R" and R = R] migrate_conns(1) [OF assms]
    driver_laws.withMigrator_releases [OF assms(1), where fn = "migrate_status R" and R = R] migrate_conns(2) [OF assms]
    driver_laws.withMigrator_releases [OF assms(1), where fn = "migrate_version R" and R = R] migrate_conns(3) [OF assms]
  by blast

section \<open>The server that run serves\<close>

text \<open>
  What the operator configured is what is served: on the configured address with positive timeouts, over
  TLS 1.2 or later exactly when there is a certificate, with client certificates required exactly when
  there is a client CA, and with sessions kept in Redis under the configured lifetimes.
\<close>

definition api_as_configured :: "'w proc \<Rightarrow> Config \<Rightarrow> handle \<Rightarrow> handle \<Rightarrow> 'w Server \<Rightarrow> bool" where
  "api_as_configured R cfg db rdb s \<longleftrightarrow>
     sv_sessions s = Some (redis_Manager (pr_redis R rdb) (pr_now R)
       (au_SessionIdleTTL (c_Auth cfg)) (au_SessionAbsoluteTTL (c_Auth cfg))) \<and>
     sv_users s = Some (store_userStore (pr_pg R db) (pr_rt R)) \<and>
     st_SessionCookieName (sv_authSettings s) = au_SessionCookieName (c_Auth cfg) \<and>
     map fst (sv_readyChecks s) = [''postgres'', ''redis''] \<and>
     TrustedProxyPrefixes (c_Http cfg) = Inr (sv_trustedProxies s) \<and> 0 < sv_requestTimeout s"

definition served_as_configured :: "'w proc \<Rightarrow> Config \<Rightarrow> handle \<Rightarrow> handle \<Rightarrow> 'w http_Server \<Rightarrow> bool" where
  "served_as_configured R cfg db rdb srv \<longleftrightarrow>
     hs_Addr srv = hc_Addr (c_Http cfg) \<and> hs_Addr srv \<noteq> [] \<and>
     0 < hs_ReadTimeout srv \<and> 0 < hs_WriteTimeout srv \<and> 0 < hs_IdleTimeout srv \<and> 0 < hs_ReadHeaderTimeout srv \<and>
     0 < hc_ShutdownTimeout (c_Http cfg) \<and>
     MinVersion (hs_TLSConfig srv) = VersionTLS12 \<and>
     (run_listen (c_Http cfg) = ListenAndServe \<longleftrightarrow> hc_TLSCertFile (c_Http cfg) = []) \<and>
     (ClientAuth (hs_TLSConfig srv) = RequireAndVerifyClientCert \<longleftrightarrow> hc_TLSClientCAFile (c_Http cfg) \<noteq> []) \<and>
     (case ClientCAs (hs_TLSConfig srv) of
        None \<Rightarrow> hc_TLSClientCAFile (c_Http cfg) = []
      | Some pool \<Rightarrow> os_ReadFile (pr_host R) (hc_TLSClientCAFile (c_Http cfg)) = Inr pool \<and> pem_has_certs (pr_host R) pool) \<and>
     (\<exists>now s. hs_Handler srv = Handler (pr_chi R) (pr_web R) (pr_bindings R) (pr_yaml R) (pr_rt R) (pr_toDuration R) now s \<and>
        api_as_configured R cfg db rdb s) \<and>
     auth_contract (c_Auth cfg)"

lemma run_api_simps [simp]:
  "sv_sessions (run_api R cfg db rdb dist' index swagger redoc tp) = Some (redis_Manager (pr_redis R rdb) (pr_now R)
     (au_SessionIdleTTL (c_Auth cfg)) (au_SessionAbsoluteTTL (c_Auth cfg)))"
  "sv_users (run_api R cfg db rdb dist' index swagger redoc tp) = Some (store_userStore (pr_pg R db) (pr_rt R))"
  "st_SessionCookieName (sv_authSettings (run_api R cfg db rdb dist' index swagger redoc tp)) = au_SessionCookieName (c_Auth cfg)"
  "map fst (sv_readyChecks (run_api R cfg db rdb dist' index swagger redoc tp)) = [''postgres'', ''redis'']"
  "sv_trustedProxies (run_api R cfg db rdb dist' index swagger redoc tp) = tp"
  "sv_requestTimeout (run_api R cfg db rdb dist' index swagger redoc tp) = hc_RequestTimeout (c_Http cfg)"
  by (simp_all add: run_api_def NewServer_def WithSPA_def WithDocs_def WithBuildInfo_def WithReadinessCheck_def
    WithStartupCheck_def WithRequestTimeout_def WithTrustedProxies_def WithAuth_def WithPasswordRecovery_def
    WithLoginLockout_def WithRateLimiter_def set_check_def zero_Server_def Let_def)

lemma embedded_pages [simp]:
  "SwaggerUIFS R = Inr (fs_Sub (pr_dist R) ''dist/swagger'')" "RedocFS R = Inr (fs_Sub (pr_dist R) ''dist/redoc'')"
  "DistFS R = Inr (fs_Sub (pr_dist R) ''dist'')"
proof -
  have "ValidPath ''dist/swagger''" "ValidPath ''dist/redoc''" "ValidPath ''dist''" by code_simp+
  then show "SwaggerUIFS R = Inr (fs_Sub (pr_dist R) ''dist/swagger'')"
      "RedocFS R = Inr (fs_Sub (pr_dist R) ''dist/redoc'')" "DistFS R = Inr (fs_Sub (pr_dist R) ''dist'')"
    by (simp_all add: SwaggerUIFS_def RedocFS_def DistFS_def Sub_def)
qed

lemma Load_valid: "Load H = Inr cfg \<Longrightarrow> Validate H cfg = None"
  by (auto simp: Load_def split: sum.splits option.splits)

lemma run_http_Server_configured:
  assumes v: "Validate (pr_host R) cfg = None" and tp: "TrustedProxyPrefixes (c_Http cfg) = Inr tp"
  shows "\<exists>srv. run_http_Server R cfg (run_api R cfg db rdb distFS index swagger redoc tp) now = Inr srv \<and>
    served_as_configured R cfg db rdb srv"
proof -
  have http: "hc_Addr (c_Http cfg) \<noteq> []" "check_timeouts (c_Http cfg) = None" "auth_contract (c_Auth cfg)"
      "tls_contract (pr_host R) (c_Http cfg)"
    using v validateTLS_contract by (auto simp: Validate_None simp flip: AuthConfig_Validate_contract)
  have timeouts: "0 < hc_ReadTimeout (c_Http cfg)" "0 < hc_WriteTimeout (c_Http cfg)" "0 < hc_IdleTimeout (c_Http cfg)"
      "0 < hc_ShutdownTimeout (c_Http cfg)" "0 < hc_RequestTimeout (c_Http cfg)"
    using http(2) by (auto simp: check_timeouts_def split: if_splits)
  have listen: "run_listen (c_Http cfg) = ListenAndServe \<longleftrightarrow> hc_TLSCertFile (c_Http cfg) = []"
    using http(4) by (auto simp: run_listen_def TLSEnabled_def tls_contract_def)
  let ?handler = "Handler (pr_chi R) (pr_web R) (pr_bindings R) (pr_yaml R) (pr_rt R) (pr_toDuration R)"
  let ?api = "run_api R cfg db rdb distFS index swagger redoc tp"
  have api: "\<exists>now' s. ?handler now ?api = ?handler now' s \<and> api_as_configured R cfg db rdb s"
    by (intro exI [of _ now] exI [of _ ?api] conjI refl) (simp add: api_as_configured_def tp timeouts)
  note facts = http(1,3) timeouts listen tp api
  show ?thesis
  proof (cases "MTLSEnabled (c_Http cfg)")
    case False
    then have "hc_TLSClientCAFile (c_Http cfg) = []" using http(4) by (simp add: tls_contract_def)
    with False facts show ?thesis
      by (simp add: run_http_Server_def served_as_configured_def tls_floor_def Let_def)
  next
    case True
    then obtain pool where p: "ClientCAPool (pr_host R) (c_Http cfg) = Inr pool" and ca: "hc_TLSClientCAFile (c_Http cfg) \<noteq> []"
      using http(4) by (auto simp: tls_contract_def)
    have "os_ReadFile (pr_host R) (hc_TLSClientCAFile (c_Http cfg)) = Inr pool" "pem_has_certs (pr_host R) pool"
      using p by (auto simp: ClientCAPool_def split: sum.splits if_splits)
    with True facts p ca show ?thesis
      by (simp add: run_http_Server_def served_as_configured_def tls_floor_def Let_def)
  qed
qed

lemma run_connected_serves:
  assumes "Load (pr_host R) = Inr cfg" and "pr_dist R ''dist/index.html'' = Some indexHTML"
  shows "\<exists>srv. run_connected R cfg db rdb w = run_serve R cfg srv w \<and> served_as_configured R cfg db rdb srv"
proof -
  have v: "Validate (pr_host R) cfg = None" using assms(1) by (rule Load_valid)
  then obtain tp where tp: "TrustedProxyPrefixes (c_Http cfg) = Inr tp" by (auto simp: Validate_None)
  obtain srv where "run_http_Server R cfg (run_api R cfg db rdb (fs_Sub (pr_dist R) ''dist'') indexHTML
      (fs_Sub (pr_dist R) ''dist/swagger'') (fs_Sub (pr_dist R) ''dist/redoc'') tp) (pr_now R w) = Inr srv"
      "served_as_configured R cfg db rdb srv"
    using run_http_Server_configured [OF v tp] by blast
  then show ?thesis
    by (auto simp: run_connected_def IndexHTML_def ReadFile_def assms(2) tp)
qed

text \<open>
  C19: a configuration that loads is served as it stands. Once the two connections are set up, nothing
  but a missing index page can keep \<^verbatim>\<open>run\<close> from serving, and it serves on the configured address with
  positive timeouts, over TLS exactly when a certificate is configured, with client certificates
  required exactly when a client CA is configured (and with a pool that has certificates), behind the
  session manager, the user store and the trusted proxies of the configuration.
\<close>

theorem run_serves_the_configuration:
  assumes "Load (pr_host R) = Inr cfg" and "pr_dist R ''dist/index.html'' = Some indexHTML"
  shows "\<exists>srv. run_connected R cfg db rdb w = run_serve R cfg srv w \<and> served_as_configured R cfg db rdb srv"
  using assms by (rule run_connected_serves)

section \<open>The health check and the liveness endpoint\<close>

text \<open>\<^verbatim>\<open>urfave/cli\<close> on the name of a command without further arguments: its action with the default flags.\<close>

fun string_default :: "Flag list \<Rightarrow> string \<Rightarrow> string" where
  "string_default [] name = []"
| "string_default (StringFlag n v # fs) name = (if n = name then v else string_default fs name)"
| "string_default (DurationFlag n v # fs) name = string_default fs name"

fun duration_default :: "Flag list \<Rightarrow> string \<Rightarrow> Duration" where
  "duration_default [] name = 0"
| "duration_default (DurationFlag n v # fs) name = (if n = name then v else duration_default fs name)"
| "duration_default (StringFlag n v # fs) name = duration_default fs name"

definition default_flags :: "Flag list \<Rightarrow> flags" where
  "default_flags fs = \<lparr>fl_String = string_default fs, fl_Duration = duration_default fs\<rparr>"

definition runs_subcommands :: "'w proc \<Rightarrow> bool" where
  "runs_subcommands R \<longleftrightarrow> (\<forall>app prog name w.
     case List.find (\<lambda>c. cmd_Name c = name) (cmd_Commands app) of
       None \<Rightarrow> True
     | Some c \<Rightarrow>
         (case cmd_Action c of
            None \<Rightarrow> True
          | Some act \<Rightarrow> cli_Run R app [prog, name] w = act (default_flags (cmd_Flags c)) w))"

definition healthcheck_url :: string where
  "healthcheck_url = ''http://127.0.0.1:8080'' @ basePath @ ''/livez''"

lemma healthcheck_exit:
  assumes "runs_subcommands R" "http_NewRequest R healthcheck_url = None"
  shows "Execute R [prog, ''healthcheck''] w =
    (case client_Do R \<lparr>cl_Timeout = 2 * Second, cl_TLSClientConfig = None\<rparr> (2 * Second) healthcheck_url w of
       (Inl err, w1) \<Rightarrow> (1, fmt_Stderr R err w1)
     | (Inr resp, w1) \<Rightarrow>
         (let w2 = body_Close R (rs_Body resp) w1
          in if rs_StatusCode resp = 200 then (0, w2) else (1, fmt_Stderr R (errorf ''healthcheck: status %d'') w2)))"
proof -
  have u: "''http://127.0.0.1:8080/api/v1/livez'' = healthcheck_url" by (simp add: healthcheck_url_def basePath_def)
  have "cli_Run R (newApp R) [prog, ''healthcheck''] w = healthcheck_action R (default_flags healthcheck_flags) w"
    using assms(1) [unfolded runs_subcommands_def, rule_format, of "newApp R" prog "''healthcheck''" w]
    by (simp add: newApp_def newRunCmd_def newMigrateCmd_def newHealthcheckCmd_def)
  moreover have "healthcheckClient R [] [] [] t = Inr \<lparr>cl_Timeout = t, cl_TLSClientConfig = None\<rparr>" for t
    by (simp add: healthcheckClient_def)
  ultimately show ?thesis
    using assms(2)
    by (simp add: Execute_def healthcheck_action_def default_flags_def healthcheck_flags_def u deferred_def
      Let_def split: prod.split sum.split)
qed

lemma livez_route:
  assumes "(''GET'', basePath @ ''/livez'', h) \<in> set (rt_routes (Handler C W B Y T toDuration now s))"
    and "\<And>b. json_encode (wb_pkgs W) (JSON_LivezResponse b) = None" and "wr_status w = None"
  shows "final_status (fst (h w r x)) = 200"
proof -
  have l: "final_status (fst (strict_GetLivez W \<lparr>sh_ssi = server_ssi K T' toD s', sh_middlewares = strictMiddlewares K' s'\<rparr> w r x)) = 200"
    for K T' toD s' K'
    using assms(2,3)
    by (simp add: strict_GetLivez_def strict_serve_def strictMiddlewares_def authMiddleware_def sessionProtectedOps_def
      innermost_def server_ssi_def GetLivez_def visitJSON_def write_body_def WriteHeader_def Header_Set_def final_status_def
      ResponseErrorHandlerFunc_def http_Error_def Header_Del_def split: option.split)
  show ?thesis
    using assms(1)
    by (auto simp: Handler_def Let_def mountDocs_def mountDocsUI_def mountSPA_def rt_Get_def NewRouter_def
      HandlerWithOptions_def NewStrictHandler_def wrap_GetLivez_def serve_operation_def l
      specPath_def swaggerPrefix_def redocPrefix_def basePath_def split: option.splits)
qed

text \<open>
  C39: the container's health check passes on a live service. When the probe of
  \<^verbatim>\<open>devopsbin healthcheck\<close> is delivered to the handler of any server, whatever its configuration and the
  state of its dependencies, and the status it gets back is that of the handler, the process closes the
  response and exits with 0.
\<close>

theorem healthcheck_passes_on_a_live_server:
  assumes "chi_transparent C" "chi_sound C"
    and "\<And>r. Method r = ''GET'' \<Longrightarrow> URL_Path r = basePath @ ''/livez'' \<Longrightarrow>
      \<exists>i. chi_match C (route_keys (Handler C W B Y T toDuration now s)) r = Matched i \<and>
        route_keys (Handler C W B Y T toDuration now s) ! i = (''GET'', basePath @ ''/livez'')"
    and "\<And>b. json_encode (wb_pkgs W) (JSON_LivezResponse b) = None"
    and "runs_subcommands R" "http_NewRequest R healthcheck_url = None"
    and "Method r = ''GET''" "URL_Path r = basePath @ ''/livez''"
    and "client_Do R \<lparr>cl_Timeout = 2 * Second, cl_TLSClientConfig = None\<rparr> (2 * Second) healthcheck_url w =
      (Inr \<lparr>rs_StatusCode = final_status (fst (ServeHTTP C (Handler C W B Y T toDuration now s) fresh_writer r x)),
            rs_Body = b\<rparr>, w1)"
  shows "Execute R [prog, ''healthcheck''] w = (0, body_Close R b w1)"
proof -
  let ?H = "Handler C W B Y T toDuration now s"
  obtain ctx where d: "ServeHTTP C ?H fresh_writer r x = dispatch C ?H (with_security_headers fresh_writer) (WithContext r ctx) x"
    using ServeHTTP_dispatch [OF assms(1)] by blast
  obtain i where i: "chi_match C (route_keys ?H) (WithContext r ctx) = Matched i"
      "route_keys ?H ! i = (''GET'', basePath @ ''/livez'')"
    using assms(3) [of "WithContext r ctx"] assms(7,8) by auto
  have n: "i < length (rt_routes ?H)" using assms(2) i(1) by (fastforce simp: chi_sound_def)
  then obtain h where h: "rt_routes ?H ! i = (''GET'', basePath @ ''/livez'', h)"
    using i(2) by (cases "rt_routes ?H ! i") auto
  have "wr_status (with_security_headers fresh_writer) = None"
    by (simp add: with_security_headers_def Header_Set_def fresh_writer_def)
  then have "final_status (fst (ServeHTTP C ?H fresh_writer r x)) = 200"
    using livez_route [OF _ assms(4)] nth_mem [OF n] i(1) h by (simp add: d dispatch_def)
  then show ?thesis using healthcheck_exit [OF assms(5,6), of prog w] assms(9) by simp
qed

section \<open>An instance\<close>

text \<open>
  A process in memory that counts its connections, with an empty environment, that is told to stop and
  whose drain times out; the probe of its health check reaches a server.
\<close>

record procmem = appmem +
  pm_conns :: "conn multiset"
  pm_next :: nat

definition pm_open :: "(handle \<Rightarrow> conn) \<Rightarrow> procmem \<Rightarrow> handle \<times> procmem" where
  "pm_open tag w = (pm_next w, w\<lparr>pm_conns := add_mset (tag (pm_next w)) (pm_conns w), pm_next := Suc (pm_next w)\<rparr>)"

definition pm_close :: "conn \<Rightarrow> procmem \<Rightarrow> procmem" where
  "pm_close c w = w\<lparr>pm_conns := pm_conns w - {#c#}\<rparr>"

definition proc_drivers :: "procmem drivers" where
  "proc_drivers = \<lparr>pgxpool_ParseConfig = Inr, pgxpool_NewWithConfig = (\<lambda>c w. case pm_open PgPool w of (h, w1) \<Rightarrow> (Inr h, w1)),
     pgxpool_Ping = (\<lambda>h d w. (Inr (), w)), pgxpool_Close = (\<lambda>h. pm_close (PgPool h)),
     redis_Open = (\<lambda>r. pm_open RedisClient), redis_Ping = (\<lambda>h d w. (Inr (), w)),
     redis_Close = (\<lambda>h w. (Inr (), pm_close (RedisClient h) w)),
     sql_Open = (\<lambda>drv u w. case pm_open SqlDB w of (h, w1) \<Rightarrow> (Inr h, w1)),
     sql_Close = (\<lambda>h w. (Inr (), pm_close (SqlDB h) w)), NewPostgresSessionLocker = (\<lambda>w. (Inr 0, w)),
     goose_NewProvider = (\<lambda>h lk w. (Inl (Leaf (OtherErr ''no migrations found'')), w)), goose_Up = (\<lambda>h w. (Inr [], w)),
     goose_Status = (\<lambda>h w. (Inr [], w)), goose_GetDBVersion = (\<lambda>h w. (Inr 0, w))\<rparr>"

interpretation proc_drivers: driver_laws proc_drivers pm_conns
  by unfold_locales (auto simp: proc_drivers_def pm_open_def pm_close_def)

definition proc_pkgs :: "procmem pkgs" where
  "proc_pkgs = \<lparr>pk_env = mem_env, uuid_Parse = (\<lambda>s. Inl (Leaf (OtherErr ''invalid UUID''))), uuid_String = (\<lambda>b. []),
     uuid_New = (\<lambda>w. ([], w)), json_encode = (\<lambda>b. None)\<rparr>"

definition proc_rt :: "procmem rt" where
  "proc_rt = \<lparr>rt_Int64N = (\<lambda>n w. (0, w)), rt_After = (\<lambda>d w. (None, w))\<rparr>"

abbreviation proc_handler :: "procmem Router" where
  "proc_handler \<equiv> Handler app_chi (app_web proc_pkgs) app_bindings app_yaml proc_rt (\<lambda>f. 0) 0 zero_Server"

abbreviation livez_request :: Request where
  "livez_request \<equiv> app_request ''GET'' (basePath @ ''/livez'') []"

definition proc_cli :: "'w Command \<Rightarrow> string list \<Rightarrow> 'w \<Rightarrow> goerr option \<times> 'w" where
  "proc_cli app args w =
     (case args of
        [prog, name] \<Rightarrow>
          (case List.find (\<lambda>c. cmd_Name c = name) (cmd_Commands app) of
             None \<Rightarrow> (Some (Leaf (OtherErr ''No help topic'')), w)
           | Some c \<Rightarrow> (case cmd_Action c of None \<Rightarrow> (None, w) | Some act \<Rightarrow> act (default_flags (cmd_Flags c)) w))
      | _ \<Rightarrow> (None, w))"

definition example_proc :: "procmem proc" where
  "example_proc = \<lparr>pr_host = example_host default_Config, pr_drivers = proc_drivers, pr_redis = (\<lambda>h. mem_redis),
     pr_pg = (\<lambda>h. mem_pg), pr_rt = proc_rt, pr_now = mem_now, pr_chi = app_chi, pr_web = app_web proc_pkgs,
     pr_bindings = app_bindings, pr_yaml = app_yaml, pr_toDuration = (\<lambda>f. 0),
     pr_dist = [''dist/index.html'' \<mapsto> ''<!doctype html>''], pr_spec = ''openapi: 3.0.3'',
     var_version = ''dev'', var_commit = ''none'', var_buildTime = ''unknown'', runtime_Version = ''go1.26'',
     time_Parse_RFC3339 = (\<lambda>s. Inl (Leaf (OtherErr ''parsing time''))), time_Format = (\<lambda>t. []),
     signal_NotifyContext = (\<lambda>w. w), signal_stop = (\<lambda>w. w), http_serve = (\<lambda>srv l w. (SignalReceived, w)),
     srv_Shutdown = (\<lambda>srv d w. (Inl (Leaf (OtherErr ''context deadline exceeded'')), w)),
     srv_Close = (\<lambda>srv w. (Inr (), w)), srv_returned = (\<lambda>srv w. (Some (Leaf ErrServerClosed), w)),
     LoadX509KeyPair = (\<lambda>c k. Inl (Leaf (OtherErr ''no such file''))), http_NewRequest = (\<lambda>u. None),
     client_Do = (\<lambda>c d u w. (Inr \<lparr>rs_StatusCode =
        final_status (fst (ServeHTTP app_chi proc_handler fresh_writer livez_request w)), rs_Body = 0\<rparr>, w)),
     body_Close = (\<lambda>b w. w), fmt_Println = (\<lambda>t w. w), fmt_Stderr = (\<lambda>e w. w), tabwriter_Flush = (\<lambda>t w. (None, w)),
     cli_Run = proc_cli\<rparr>"

definition proc_start :: procmem where
  "proc_start = \<lparr>mem_now = 0, mem_keys = Map.empty, mem_seed = 0, mem_db = \<lparr>users = [], accounts = [], transfers = []\<rparr>, mem_next = 0,
     pm_conns = {#}, pm_next = 0\<rparr>"

theorem commands_close_their_connections_witness:
  "pm_conns (snd (run_action example_proc proc_start)) = {#} \<and>
   pm_conns (snd (withMigrator example_proc (migrate_up example_proc) proc_start)) = {#}"
proof -
  have "driver_laws (pr_drivers example_proc) pm_conns"
    by (simp add: example_proc_def proc_drivers.driver_laws_axioms)
  moreover have "keeps_conns example_proc pm_conns" by (simp add: keeps_conns_def example_proc_def)
  moreover have "pm_conns proc_start = {#}" by (simp add: proc_start_def)
  ultimately show ?thesis using commands_close_their_connections [of example_proc pm_conns proc_start] by metis
qed

lemma example_proc_loads: "Load (pr_host example_proc) = Inr default_Config"
proof -
  have "Validate (example_host default_Config) default_Config = None" by code_simp
  then show ?thesis by (simp add: Load_def example_host_def example_proc_def)
qed

theorem run_serves_the_configuration_witness:
  "\<exists>srv. run_connected example_proc default_Config 0 1 proc_start = run_serve example_proc default_Config srv proc_start \<and>
    served_as_configured example_proc default_Config 0 1 srv"
proof -
  have p: "pr_dist example_proc ''dist/index.html'' = Some ''<!doctype html>''" by (simp add: example_proc_def)
  show ?thesis by (rule run_serves_the_configuration [OF example_proc_loads p])
qed

theorem healthcheck_passes_on_a_live_server_witness:
  "Execute example_proc [''devopsbin'', ''healthcheck''] proc_start = (0, proc_start)"
proof -
  have m: "\<exists>i. chi_match app_chi (route_keys proc_handler) r = Matched i \<and>
      route_keys proc_handler ! i = (''GET'', basePath @ ''/livez'')"
    if "Method r = ''GET''" "URL_Path r = basePath @ ''/livez''" for r
    using that by (simp add: Handler_def NewRouter_def HandlerWithOptions_def Let_def zero_Server_def app_chi_def
      plain_match_def basePath_def)
  have e: "json_encode (wb_pkgs (app_web proc_pkgs)) (JSON_LivezResponse b) = None" for b
    by (simp add: app_web_def proc_pkgs_def Let_def)
  have c: "runs_subcommands example_proc" "http_NewRequest example_proc healthcheck_url = None"
    by (simp_all add: runs_subcommands_def example_proc_def proc_cli_def split: option.split)
  have r: "Method livez_request = ''GET''" "URL_Path livez_request = basePath @ ''/livez''"
    by (simp_all add: app_request_def)
  have "client_Do example_proc \<lparr>cl_Timeout = 2 * Second, cl_TLSClientConfig = None\<rparr> (2 * Second) healthcheck_url proc_start =
      (Inr \<lparr>rs_StatusCode = final_status (fst (ServeHTTP app_chi proc_handler fresh_writer livez_request proc_start)),
            rs_Body = 0\<rparr>, proc_start)"
    by (simp add: example_proc_def)
  from healthcheck_passes_on_a_live_server [OF app_chi_ok(1,2) m e c r this, of "''devopsbin''"]
  show ?thesis by (simp add: example_proc_def)
qed

end
