(* ===== verification/Service_Contracts.thy ===== *)
theory Service_Contracts
  imports Cli_Service Api_Sessions
begin

text \<open>
  What the configuration and the API document promise of the server that \<^verbatim>\<open>run\<close> builds: the limits of a
  configuration that loads are enforced by its components, and the enumeration fields of the
  responses hold values that the API document declares.
\<close>

section \<open>The limits of the configuration\<close>

text \<open>What a session manager, a lockout, a limiter and the recovery tokens with given limits do.\<close>

definition caps_sessions :: "'w env \<Rightarrow> 'w Manager \<Rightarrow> ('w \<Rightarrow> Time) \<Rightarrow> ('w \<Rightarrow> keyspace) \<Rightarrow> Duration \<Rightarrow> Duration \<Rightarrow> bool" where
  "caps_sessions E m now kv idle life \<longleftrightarrow>
     (\<forall>I w sid uid c sess w'. session_reach E m now kv I w \<longrightarrow> I sid = Some (uid, c) \<longrightarrow>
        GetSession E m sid w = (Inr sess, w') \<longrightarrow> s_CreatedAt sess = c \<and> now w \<le> c + life) \<and>
     (\<forall>ident w s w' w2 x w3. CreateSession E m ident w = (Inr s, w') \<longrightarrow> utf8_text (i_UserID ident) \<longrightarrow>
        utf8_text (i_Username ident) \<longrightarrow> utf8_text (i_Role ident) \<longrightarrow> elapses now kv w' w2 \<longrightarrow>
        GetSession E m (s_ID s) w2 = (x, w3) \<longrightarrow> now w + px idle \<le> now w2 \<longrightarrow> (\<forall>y. x \<noteq> Inr y))"

definition locks_names :: "'w Lockout \<Rightarrow> ('w \<Rightarrow> Time) \<Rightarrow> ('w \<Rightarrow> keyspace) \<Rightarrow> int \<Rightarrow> Duration \<Rightarrow> Duration \<Rightarrow> bool" where
  "locks_names l now kv maxAttempts window lockTTL \<longleftrightarrow>
     (\<forall>u n w w1 ip w3 ip'. failures l now kv u n w w1 \<longrightarrow> kv w (failUser u) = None \<longrightarrow> kv w (lockUser u) = None \<longrightarrow>
        now w1 < now w + px window \<longrightarrow> int n + 1 < 2 ^ 63 \<longrightarrow> elapses now kv (RecordFailure l u ip w1) w3 \<longrightarrow>
        now w3 < now w1 + px lockTTL \<longrightarrow> kv w3 (lockIP ip') = None \<longrightarrow> u \<noteq> [] \<longrightarrow>
        (fst (fst (Locked l u ip' w3)) \<longleftrightarrow> maxAttempts \<le> int n + 1))"

definition admits_requests :: "'w Limiter \<Rightarrow> ('w \<Rightarrow> Time) \<Rightarrow> ('w \<Rightarrow> keyspace) \<Rightarrow> int \<Rightarrow> Duration \<Rightarrow> bool" where
  "admits_requests l now kv limit window \<longleftrightarrow>
     (\<forall>scope n w w1 r w2. requests l now kv scope n w w1 \<longrightarrow>
        kv w (limitKey (l_name l) scope (time_Truncate (now w) window)) = None \<longrightarrow>
        time_Truncate (now w1) window = time_Truncate (now w) window \<longrightarrow> int n + 1 < 2 ^ 63 \<longrightarrow>
        Allow l scope w1 = (r, w2) \<longrightarrow> (r_Allowed r \<longleftrightarrow> int n + 1 \<le> limit))"

definition expires_tokens :: "'w env \<Rightarrow> 'w Recovery \<Rightarrow> ('w \<Rightarrow> Time) \<Rightarrow> ('w \<Rightarrow> keyspace) \<Rightarrow> Duration \<Rightarrow> bool" where
  "expires_tokens E r now kv ttl \<longleftrightarrow>
     (\<forall>uid w tok w1 w2 x w3. CreateResetToken E r uid w = (Inr tok, w1) \<longrightarrow> elapses now kv w1 w2 \<longrightarrow>
        ConsumeResetToken r tok w2 = (x, w3) \<longrightarrow>
        x = (if now w2 < now w + px ttl then Inr uid else Inl (Leaf ErrResetTokenInvalid)))"

text \<open>
  The granularity that Redis needs and that \<^verbatim>\<open>Validate\<close> does not check, and the ranges of the Go
  types (an absolute lifetime of exactly the largest duration is left out).
\<close>

definition whole_times :: "Config \<Rightarrow> bool" where
  "whole_times c \<longleftrightarrow> Millisecond dvd au_SessionAbsoluteTTL (c_Auth c) \<and> Millisecond \<le> au_LoginWindow (c_Auth c) \<and>
     Second dvd rl_Window (c_RateLimit c)"

definition go_sized :: "Config \<Rightarrow> bool" where
  "go_sized c \<longleftrightarrow> au_SessionAbsoluteTTL (c_Auth c) < 2 ^ 63 - 1 \<and> au_LoginMaxAttempts (c_Auth c) < 2 ^ 63 \<and>
     rl_Limit (c_RateLimit c) < 2 ^ 63 \<and> rl_Window (c_RateLimit c) < 2 ^ 63"

lemma sessions_capped:
  assumes "redis_sessions R E now kv idle life"
  shows "caps_sessions E (redis_Manager R now idle life) now kv idle life"
proof -
  note sm = redis_session_manager [OF assms]
  show ?thesis unfolding caps_sessions_def
    using session_manager.created_then_get(3) [OF sm]
    by (intro conjI allI impI) (erule (2) session_manager.issued_not_found_or_current(1,3) [OF sm], erule (2)
      session_manager.issued_not_found_or_current(3) [OF sm], metis)
qed

lemma names_locked:
  assumes "reliable_redis R now kv" "Millisecond \<le> window" "0 < lockTTL" "maxAttempts < 2 ^ 63"
  shows "locks_names (redis_Lockout R maxAttempts window lockTTL) now kv maxAttempts window lockTTL"
  unfolding locks_names_def
  using steady_lockout_store.lock_after_failures [OF reliable_redis.is_steady_lockout_store [OF assms(1)] _ _ _ assms(2,3) _ _ assms(4) refl]
  by blast

lemma requests_admitted_exactly:
  assumes "reliable_redis R now kv" "1 \<le> limit" "limit < 2 ^ 63" "Second dvd window" "0 < window" "window < 2 ^ 63"
  shows "admits_requests (redis_Limiter R now name limit window) now kv limit window"
  unfolding admits_requests_def
  using steady_counter_store.requests_admitted [OF reliable_redis.is_steady_counter_store [OF assms(1)] assms(2-6)]
  by (auto simp: NewLimiter_def)

lemma tokens_expire:
  assumes r: "reliable_redis R now kv" and e: "auth_env E now kv" and t: "0 < ttl"
  shows "expires_tokens E (NewRecovery (client_ResetStore R) IsMiss ttl) now kv ttl"
  unfolding expires_tokens_def
proof (intro allI impI)
  fix uid w tok w1 w2 x w3
  assume c: "CreateResetToken E (NewRecovery (client_ResetStore R) IsMiss ttl) uid w = (Inr tok, w1)"
    and el: "elapses now kv w1 w2" and u: "ConsumeResetToken (NewRecovery (client_ResetStore R) IsMiss ttl) tok w2 = (x, w3)"
  have "redis_service R now kv" using r by (simp add: reliable_redis_def)
  note m = reset_store.Create_ok [OF redis_service.is_reset_store [OF this] e c t]
  have "kv w2 (resetKey tok) = (if now w2 < now w + px ttl then Some (VStr uid, Some (now w + px ttl)) else None)"
    using el m by (simp add: elapses_def live_at_def)
  then show "x = (if now w2 < now w + px ttl then Inr uid else Inl (Leaf ErrResetTokenInvalid))"
    using reliable_redis.Consume_total [OF r m(3), of w2, where ttl = ttl] u by (simp split: if_splits)
qed

lemma run_api_limits:
  "sv_lockout (run_api R cfg db rdb dist' index swagger redoc tp) = Some (redis_Lockout (pr_redis R rdb)
     (au_LoginMaxAttempts (c_Auth cfg)) (au_LoginWindow (c_Auth cfg)) (au_LockTTL (c_Auth cfg)))"
  "sv_ratelimiter (run_api R cfg db rdb dist' index swagger redoc tp) = Some (limiter_rateLimiter (redis_Limiter (pr_redis R rdb)
     (pr_now R) ''ratelimit'' (rl_Limit (c_RateLimit cfg)) (rl_Window (c_RateLimit cfg))))"
  "sv_recovery (run_api R cfg db rdb dist' index swagger redoc tp) =
     Some (NewRecovery (client_ResetStore (pr_redis R rdb)) IsMiss (au_ResetTokenTTL (c_Auth cfg)))"
  by (simp_all add: run_api_def NewServer_def WithSPA_def WithDocs_def WithBuildInfo_def WithReadinessCheck_def
    WithStartupCheck_def WithRequestTimeout_def WithTrustedProxies_def WithAuth_def WithPasswordRecovery_def
    WithLoginLockout_def WithRateLimiter_def set_check_def zero_Server_def Let_def)



section \<open>Enumerations of the API document\<close>

text \<open>
  In Go an enumeration is a string type, so a field can hold a string that the API document does not
  list. The responses with such fields: the scheme in the responses of the scheme and echo
  endpoints, the status of the service and of each dependency in the probes, and the role of a user in
  the list of users, after a registration, a login and a password change, and for the current session.
\<close>

definition schemes_declared :: "Ctx \<Rightarrow> 'w \<Rightarrow> bool" where
  "schemes_declared ctx x \<longleftrightarrow>
     (case fst (GetScheme ctx x) of
        Inr (GetScheme200JSONResponse b) \<Rightarrow> SchemeResponseScheme_Valid (SchemeResponse_Scheme b) | Inl _ \<Rightarrow> False) \<and>
     (case fst (GetEcho ctx x) of
        Inr (GetEcho200JSONResponse b) \<Rightarrow> EchoResponseScheme_Valid (EchoResponse_Scheme b) | Inl _ \<Rightarrow> False) \<and>
     (\<forall>body.
       (case fst (PostEcho ctx body x) of
          Inr (PostEcho200JSONResponse b) \<Rightarrow> EchoResponseScheme_Valid (EchoResponse_Scheme b)
        | Inr (PostEcho413JSONResponse _) \<Rightarrow> True | Inl _ \<Rightarrow> False) \<and>
       (case fst (PutEcho ctx body x) of
          Inr (PutEcho200JSONResponse b) \<Rightarrow> EchoResponseScheme_Valid (EchoResponse_Scheme b)
        | Inr (PutEcho413JSONResponse _) \<Rightarrow> True | Inl _ \<Rightarrow> False) \<and>
       (case fst (PatchEcho ctx body x) of
          Inr (PatchEcho200JSONResponse b) \<Rightarrow> EchoResponseScheme_Valid (EchoResponse_Scheme b)
        | Inr (PatchEcho413JSONResponse _) \<Rightarrow> True | Inl _ \<Rightarrow> False) \<and>
       (case fst (DeleteEcho ctx body x) of
          Inr (DeleteEcho200JSONResponse b) \<Rightarrow> EchoResponseScheme_Valid (EchoResponse_Scheme b)
        | Inr (DeleteEcho413JSONResponse _) \<Rightarrow> True | Inl _ \<Rightarrow> False))"

definition checks_declared :: "(string \<rightharpoonup> DependencyCheck) \<Rightarrow> bool" where
  "checks_declared m \<longleftrightarrow> (\<forall>c \<in> ran m. DependencyCheckStatus_Valid (DependencyCheck_Status c))"

definition probes_declared :: "'w Server \<Rightarrow> 'w \<Rightarrow> bool" where
  "probes_declared s x \<longleftrightarrow>
     (case fst (GetLivez x) of
        Inr (GetLivez200JSONResponse b) \<Rightarrow> LivezResponseStatus_Valid (LivezResponse_Status b) | Inl _ \<Rightarrow> False) \<and>
     (case fst (GetReadyz s x) of
        Inr (GetReadyz200JSONResponse b) \<Rightarrow> ReadyzResponseStatus_Valid (ReadyzResponse_Status b) \<and> checks_declared (ReadyzResponse_Checks b)
      | Inr (GetReadyz503JSONResponse b) \<Rightarrow> ReadyzResponseStatus_Valid (ReadyzResponse_Status b) \<and> checks_declared (ReadyzResponse_Checks b)
      | Inl _ \<Rightarrow> False) \<and>
     (case fst (GetStartupz s x) of
        Inr (GetStartupz200JSONResponse b) \<Rightarrow> StartupzResponseStatus_Valid (StartupzResponse_Status b) \<and> checks_declared (StartupzResponse_Checks b)
      | Inr (GetStartupz503JSONResponse b) \<Rightarrow> StartupzResponseStatus_Valid (StartupzResponse_Status b) \<and> checks_declared (StartupzResponse_Checks b)
      | Inl _ \<Rightarrow> False)"

text \<open>
  The role that \<^verbatim>\<open>GetAuthMe\<close> reports is that of the session. A session gets the role of the user it is
  started for, so the last conjunct is what makes its premise hold.
\<close>

definition roles_declared :: "'w pkgs \<Rightarrow> 'w Server \<Rightarrow> Ctx \<Rightarrow> 'w \<Rightarrow> bool" where
  "roles_declared K s ctx x \<longleftrightarrow>
     (\<forall>b x'. GetAdminUsers K s x = (Inr (GetAdminUsers200JSONResponse b), x') \<longrightarrow>
        list_all (\<lambda>u. AdminUserRole_Valid (AdminUser_Role u)) (UserListResponse_Users b)) \<and>
     (\<forall>b resp x'. PostAuthRegister K s ctx b x = (Inr (PostAuthRegister_authSuccessResponse resp), x') \<longrightarrow>
        UserResponseRole_Valid (UserResponse_Role (as_body resp))) \<and>
     (\<forall>b resp x'. PostAuthLogin K s ctx b x = (Inr (PostAuthLogin_authSuccessResponse resp), x') \<longrightarrow>
        UserResponseRole_Valid (UserResponse_Role (as_body resp))) \<and>
     (\<forall>sess b resp x'. PostAuthPasswordChange K s (withSession ctx sess) b x =
          (Inr (PostAuthPasswordChange_passwordChangeResponse resp), x') \<longrightarrow>
        UserResponseRole_Valid (UserResponse_Role (as_body resp))) \<and>
     (\<forall>sess b x'. GetAuthMe K (withSession ctx sess) x = (Inr (GetAuthMe200JSONResponse b), x') \<longrightarrow>
        UserResponseRole_Valid (s_Role sess) \<longrightarrow> UserResponseRole_Valid (UserResponse_Role b)) \<and>
     (\<forall>user code resp sess x'. startSession K s ctx user code x = (Inr (resp, sess), x') \<longrightarrow>
        UserResponseRole_Valid (Role user) \<longrightarrow> UserResponseRole_Valid (s_Role sess))"

lemma proto_entries_declared: "proto_entries es = Some (Some v) \<Longrightarrow> v = ''http'' \<or> v = ''https''"
  by (induction es) (auto simp: Let_def split: if_splits)

lemma forwardedProto_declared: "forwardedProto hs = Some v \<Longrightarrow> v = ''http'' \<or> v = ''https''"
  by (induction hs) (auto split: option.splits dest: proto_entries_declared)

lemma trustedProxy_scheme:
  assumes "schemeFrom (Context r0) = None"
    and "\<And>r. (\<And>v. schemeFrom (Context r) = Some v \<Longrightarrow> v = ''http'' \<or> v = ''https'') \<Longrightarrow> P r"
  shows "trustedProxy trusted P r0"
  unfolding trustedProxy_def Let_def
  by (auto split: option.split intro!: assms(2) simp: assms(1) dest: forwardedProto_declared)

lemma PingCheck_declared: "DependencyCheckStatus_Valid (DependencyCheck_Status (fst (PingCheck ping t w)))"
  by (simp add: PingCheck_def DependencyCheckStatus_Valid_def split: prod.split sum.split)

lemma runChecks_loop_declared:
  "list_all (\<lambda>(n, c). \<forall>w. DependencyCheckStatus_Valid (DependencyCheck_Status (fst (c w)))) cs \<Longrightarrow>
   checks_declared m \<Longrightarrow> checks_declared (fst (fst (runChecks_loop cs m healthy w)))"
proof (induction cs m healthy w rule: runChecks_loop.induct)
  case (2 name check cs results healthy w)
  obtain r w1 where c: "check w = (r, w1)" by fastforce
  then have "DependencyCheckStatus_Valid (DependencyCheck_Status r)" using 2(2) by (auto dest: spec [of _ w])
  then have "checks_declared (results(name \<mapsto> r))" using 2(3) by (auto simp: checks_declared_def ran_def)
  then show ?case using 2(1) [OF c [symmetric]] 2(2) c by (simp del: fun_upd_apply)
qed simp

lemma runChecks_declared:
  "list_all (\<lambda>(n, c). \<forall>w. DependencyCheckStatus_Valid (DependencyCheck_Status (fst (c w)))) cs \<Longrightarrow>
   runChecks cs w = ((m, healthy), w') \<Longrightarrow> checks_declared m"
  using runChecks_loop_declared [of cs Map.empty True w] by (auto simp: runChecks_def checks_declared_def)

lemma run_api_checks:
  "list_all (\<lambda>(n, c). \<forall>w. DependencyCheckStatus_Valid (DependencyCheck_Status (fst (c w))))
     (sv_readyChecks (run_api R cfg db rdb distFS index swagger redoc tp))"
  "list_all (\<lambda>(n, c). \<forall>w. DependencyCheckStatus_Valid (DependencyCheck_Status (fst (c w))))
     (sv_startupChecks (run_api R cfg db rdb distFS index swagger redoc tp))"
  by (simp_all add: run_api_def NewServer_def WithSPA_def WithDocs_def WithBuildInfo_def WithReadinessCheck_def
    WithStartupCheck_def WithRequestTimeout_def WithTrustedProxies_def WithAuth_def WithPasswordRecovery_def
    WithLoginLockout_def WithRateLimiter_def set_check_def zero_Server_def Let_def PingCheck_declared)

text \<open>The scheme of a request behind the middlewares.\<close>

lemma schemes_declared_if:
  assumes "requestScheme (requestFrom ctx) \<in> {''http'', ''https''}" and "requestFrom ctx \<noteq> None"
  shows "schemes_declared ctx x"
proof -
  have "SchemeResponseScheme_Valid (requestScheme (requestFrom ctx))"
      "\<And>body. EchoResponseScheme_Valid (EchoResponse_Scheme (echoResponse ctx body))"
    using assms by (auto simp: SchemeResponseScheme_Valid_def SchemeResponseSchemeHttp_def SchemeResponseSchemeHttps_def
      EchoResponseScheme_Valid_def EchoResponseSchemeHttp_def EchoResponseSchemeHttps_def echoResponse_def)
  then show ?thesis
    by (auto simp: schemes_declared_def GetScheme_def GetEcho_def PostEcho_def PutEcho_def PatchEcho_def DeleteEcho_def
      echoWithBody_def)
qed

lemma probes_declared_if:
  assumes "list_all (\<lambda>(n, c). \<forall>w. DependencyCheckStatus_Valid (DependencyCheck_Status (fst (c w)))) (sv_readyChecks s)"
    and "list_all (\<lambda>(n, c). \<forall>w. DependencyCheckStatus_Valid (DependencyCheck_Status (fst (c w)))) (sv_startupChecks s)"
  shows "probes_declared s x"
  using runChecks_declared [OF assms(1), of x] runChecks_declared [OF assms(2), of x]
  by (auto simp: probes_declared_def GetLivez_def GetReadyz_def GetStartupz_def
    LivezResponseStatus_Valid_def ReadyzResponseStatus_Valid_def StartupzResponseStatus_Valid_def split: prod.split)

text \<open>Roles: those of the table, which its constraint keeps within the two that are declared.\<close>

lemma role_valid: "UserResponseRole_Valid r \<longleftrightarrow> r \<in> {''user'', ''admin''}" "AdminUserRole_Valid r \<longleftrightarrow> r \<in> {''user'', ''admin''}"
  by (auto simp: UserResponseRole_Valid_def UserResponseRoleAdmin_def UserResponseRoleUser_def
    AdminUserRole_Valid_def AdminUserRoleAdmin_def AdminUserRoleUser_def)

lemma startSession_roles:
  assumes "startSession K s ctx user code x = (Inr (resp, sess), x')"
  shows "UserResponse_Role (as_body resp) = Role user" "s_Role sess = Role user"
  using assms
  by (auto simp: startSession_def with_sessions_def CreateSession_def userResponse_def Let_def nil_panic_def
    split: option.splits sum.splits prod.splits)

lemma convert_all_list_all:
  "convert_all f xs acc = Inr out \<Longrightarrow> list_all P acc \<Longrightarrow> (\<And>x y. x \<in> set xs \<Longrightarrow> f x = Inr y \<Longrightarrow> P y) \<Longrightarrow> list_all P out"
  by (induction f xs acc rule: convert_all.induct) (auto split: sum.splits)

context pg_service
begin

lemma stored_roles: "db_wf (pg_db P w) \<Longrightarrow> row \<in> set (users (pg_db P w)) \<Longrightarrow> u_Role row \<in> {''user'', ''admin''}"
  by (auto simp: db_wf_def user_ok_def)

lemma ListUsers_roles:
  assumes "ListUsers P w = (Inr rows, w')" "db_wf (pg_db P w)" "r \<in> set rows"
  shows "au_Role r \<in> {''user'', ''admin''}"
proof -
  obtain qs where q: "pool_query P (ListUsers_query P) w = (Inr qs, w')" and r: "au_Role r \<in> lu_Role ` set qs"
    using assms(1,3) by (auto simp: ListUsers_def split: prod.splits sum.splits)
  from pool_read(2) [OF q read_only_queries(7) refl] obtain w1 where "ListUsers_query P (pg_db P w, w) = (Inr qs, pg_db P w, w1)" by blast
  then have "lu_Role ` set qs \<subseteq> u_Role ` set (users (pg_db P w))"
    by (auto simp: ListUsers_query_def sent_def split: prod.splits option.splits)
  with r obtain row where "row \<in> set (users (pg_db P w))" "u_Role row = au_Role r" by (metis image_iff subsetD)
  with stored_roles [OF assms(2)] show ?thesis by metis
qed

lemma RegisterUser_role: "RegisterUser P params w = (Inr u, w') \<Longrightarrow> Role u = nu_Role params"
proof -
  assume "RegisterUser P params w = (Inr u, w')"
  then obtain row where tx: "WithTx P (register_tx P params) w = (Inr row, w')" and u: "Role u = cr_Role row"
    by (auto simp: RegisterUser_def split: prod.splits sum.splits)
  from tx obtain w1 d' w2 where "register_tx P params (pg_db P w, w1) = (Inr row, d', w2)" by (rule WithTx_ok)
  then have "cr_Role row = nu_Role params"
    by (auto simp: register_tx_def CreateUser_def sent_def Let_def split: prod.splits sum.splits option.splits if_splits)
  with u show ?thesis by simp
qed

lemma looked_up_role:
  "UserByUsername P n w = (Inr u, w') \<Longrightarrow> db_wf (pg_db P w) \<Longrightarrow> Role u \<in> {''user'', ''admin''}"
  "UserByID P i w = (Inr u, w') \<Longrightarrow> db_wf (pg_db P w) \<Longrightarrow> Role u \<in> {''user'', ''admin''}"
  using UserByUsername_db(2) [of n w "Inr u" w' u] UserByID_db(2) [of i w "Inr u" w' u] stored_roles
  by (force simp: with_hash_def)+

end

lemma PostAuthRegister_run:
  assumes "PostAuthRegister K s ctx b x = (Inr (PostAuthRegister_authSuccessResponse resp), x')" and "sv_users s = Some U"
  obtains n h x1 user x2 sess where
    "us_RegisterUser U \<lparr>nu_Username = n, nu_PasswordHash = h, nu_Role = defaultUserRole\<rparr> x1 = (Inr user, x2)"
    "startSession K s ctx user 201 x2 = (Inr (resp, sess), x')"
  using assms by (auto simp: PostAuthRegister_def with_users_def Let_def split: option.splits if_splits prod.splits sum.splits)

lemma roles_declared_if:
  assumes pg: "pg_service P" and u: "sv_users s = Some (store_userStore P T)" and wf: "db_wf (pg_db P x)"
    and frame: "\<And>n ip. pg_db P (snd (locked_out s n ip x)) = pg_db P x"
  shows "roles_declared K s ctx x"
  unfolding roles_declared_def role_valid
proof (intro conjI allI impI)
  fix b x' assume "GetAdminUsers K s x = (Inr (GetAdminUsers200JSONResponse b), x')"
  then obtain rows where l: "ListUsers P x = (Inr rows, x')" and c: "convert_all (user_of K) rows [] = Inr (UserListResponse_Users b)"
    using u by (auto simp: GetAdminUsers_def with_users_def store_userStore_def split: prod.splits sum.splits)
  show "list_all (\<lambda>u. AdminUser_Role u \<in> {''user'', ''admin''}) (UserListResponse_Users b)"
    by (rule convert_all_list_all [OF c])
      (use pg_service.ListUsers_roles [OF pg l wf] in \<open>fastforce simp: user_of_def split: sum.splits\<close>)+
next
  fix b resp x' assume "PostAuthRegister K s ctx b x = (Inr (PostAuthRegister_authSuccessResponse resp), x')"
  from PostAuthRegister_run [OF this u] obtain n h x1 user x2 sess
    where "us_RegisterUser (store_userStore P T) \<lparr>nu_Username = n, nu_PasswordHash = h, nu_Role = defaultUserRole\<rparr> x1 = (Inr user, x2)"
      "startSession K s ctx user 201 x2 = (Inr (resp, sess), x')" .
  moreover from this(1) have "RegisterUser P \<lparr>nu_Username = n, nu_PasswordHash = h, nu_Role = defaultUserRole\<rparr> x1 = (Inr user, x2)"
    by (simp add: store_userStore_def)
  ultimately show "UserResponse_Role (as_body resp) \<in> {''user'', ''admin''}"
    using pg_service.RegisterUser_role [OF pg] startSession_roles(1) by (fastforce simp: defaultUserRole_def)
next
  fix b resp x' assume l: "PostAuthLogin K s ctx b x = (Inr (PostAuthLogin_authSuccessResponse resp), x')"
  then obtain b' where b: "b = Some b'" by (auto simp: PostAuthLogin_def split: option.splits)
  obtain d w1 user w2 w3 sess where
    "locked_out s (TrimSpace (LoginRequest_Username b')) (originIP (requestFrom ctx)) x = ((False, d), w1)"
    and "us_UserByUsername (store_userStore P T) (TrimSpace (LoginRequest_Username b')) w1 = (Inr user, w2)"
    and st: "startSession K s ctx (User.truncate user) 200 w3 = (Inr (resp, sess), x')"
    by (rule PostAuthLogin_run [OF l [unfolded b] u])
  then have "Role user \<in> {''user'', ''admin''}"
    using pg_service.looked_up_role(1) [OF pg] wf frame [of "TrimSpace (LoginRequest_Username b')" "originIP (requestFrom ctx)"]
    by (auto simp: store_userStore_def)
  with startSession_roles(1) [OF st] show "UserResponse_Role (as_body resp) \<in> {''user'', ''admin''}" by (simp add: User.truncate_def)
next
  fix sess b resp x'
  assume "PostAuthPasswordChange K s (withSession ctx sess) b x = (Inr (PostAuthPasswordChange_passwordChangeResponse resp), x')"
  then obtain user w1 w3 new w4 where "UserByID P (s_UserID sess) x = (Inr user, w1)"
    and st: "startSession K s (withSession ctx sess) (User.truncate user) 200 w3 = (Inr (resp, new), w4)"
    using u by (auto simp: PostAuthPasswordChange_def with_users_def store_userStore_def Let_def withSession_def
      split: option.splits if_splits prod.splits sum.splits)
  then have "Role user \<in> {''user'', ''admin''}" using pg_service.looked_up_role(2) [OF pg] wf by blast
  with startSession_roles(1) [OF st] show "UserResponse_Role (as_body resp) \<in> {''user'', ''admin''}" by (simp add: User.truncate_def)
next
  fix sess b x' assume "GetAuthMe K (withSession ctx sess) x = (Inr (GetAuthMe200JSONResponse b), x')"
    "s_Role sess \<in> {''user'', ''admin''}"
  then show "UserResponse_Role b \<in> {''user'', ''admin''}"
    by (auto simp: GetAuthMe_def userResponse_def withSession_def split: option.splits sum.splits)
next
  fix user code resp sess x' assume "startSession K s ctx user code x = (Inr (resp, sess), x')" "Role user \<in> {''user'', ''admin''}"
  then show "s_Role sess \<in> {''user'', ''admin''}" using startSession_roles(2) by fastforce
qed

text \<open>
  C40: every enumeration field of a response holds a value that the API document declares. Behind the
  middlewares that resolve the client, for whatever a client or a proxy puts into the forwarding
  headers, the scheme that is reported by the scheme and the five echo operations is one of the two
  schemes; the probes report a declared status of the service and of every dependency; and when the
  tables satisfy the schema, the roles in the list of users and in the responses to a registration, a login, a
  password change and, for a session that was started with a declared role, the request for the current user
  are declared roles. (That the calls to Redis before the lookup of a login leave the tables alone is a premise.)
\<close>

theorem enum_fields_are_declared:
  assumes "schemeFrom (Context r0) = None" and "s = run_api R cfg db rdb distFS index swagger redoc tp"
    and "pg_service (pr_pg R db)" and "db_wf (pg_db (pr_pg R db) x)"
    and "\<And>n ip. pg_db (pr_pg R db) (snd (locked_out s n ip x)) = pg_db (pr_pg R db) x"
  shows "trustedProxy (sv_trustedProxies s) (withRequest (\<lambda>r.
    schemes_declared (Context r) x \<and> probes_declared s x \<and> roles_declared K s (Context r) x)) r0"
proof (rule trustedProxy_scheme [OF assms(1)])
  fix r :: Request assume "\<And>v. schemeFrom (Context r) = Some v \<Longrightarrow> v = ''http'' \<or> v = ''https''"
  then have "schemes_declared (WithValue (requestCtx r) (Context r)) x"
    by (intro schemes_declared_if) (auto simp: requestScheme_def split: option.splits)
  moreover have "probes_declared s x" using run_api_checks by (intro probes_declared_if) (auto simp: assms(2))
  moreover have "roles_declared K s ctx x" for ctx
    using roles_declared_if [OF assms(3) _ assms(4,5)] by (simp add: assms(2))
  ultimately show "withRequest (\<lambda>r. schemes_declared (Context r) x \<and> probes_declared s x \<and> roles_declared K s (Context r) x) r"
    by (simp add: withRequest_def)
qed

text \<open>A world with one user, and a request that a trusted proxy forwarded from HTTPS.\<close>

definition proc_alice :: procmem where
  "proc_alice = snd (RegisterUser mem_pg new_alice proc_start)"

definition proc_uuids :: "procmem pkgs" where
  "proc_uuids = proc_pkgs\<lparr>uuid_Parse := (\<lambda>s. case scan_uuid s of Inl e \<Rightarrow> Inl e | Inr u \<Rightarrow> Inr (u_Bytes u))\<rparr>"

abbreviation edge :: "Prefix list" where
  "edge \<equiv> (case ParsePrefix ''192.0.2.0/24'' of Some p \<Rightarrow> [p] | None \<Rightarrow> [])"

abbreviation forwarded :: Request where
  "forwarded \<equiv> app_request ''GET'' (basePath @ ''/scheme'') [(''X-Forwarded-Proto'', ''https'')]"

abbreviation edge_server :: "procmem Server" where
  "edge_server \<equiv> run_api example_proc default_Config 0 1 Map.empty [] Map.empty Map.empty edge"

lemma Locked_loop_keeps:
  assumes "\<And>k w. f (snd (ls_Get (lo_store l) k w)) = f w" "\<And>k w. f (snd (ls_TTL (lo_store l) k w)) = f w"
  shows "f (snd (Locked_loop l ks b d w)) = f w"
proof (induction ks arbitrary: b d w)
  case (Cons k ks)
  then show ?case using assms(1) [of k w] assms(2) [of k "snd (ls_Get (lo_store l) k w)"] by (auto split: prod.splits sum.splits)
qed simp

lemma mem_lockout_keeps_tables:
  fixes w :: procmem
  shows "mem_db (snd (Locked (redis_Lockout mem_redis n win ttl) u ip w)) = mem_db w"
proof -
  let ?l = "redis_Lockout mem_redis n win ttl :: procmem Lockout"
  have "mem_db (snd (ls_Get (lo_store ?l) k w)) = mem_db w" "mem_db (snd (ls_TTL (lo_store ?l) k w)) = mem_db w" for k and w :: procmem
    by (simp_all add: NewLockout_def wires Client_Get_def Client_TTL_def rdb_do_def mem_redis_def split: prod.split sum.split)
  then have "mem_db (snd (Locked_loop ?l ks b d w)) = mem_db w" for ks b d by (rule Locked_loop_keeps)
  then show ?thesis by (simp add: Locked_def split_beta split: option.split)
qed

theorem enum_fields_are_declared_witness:
  "trustedProxy edge (withRequest (\<lambda>r. schemes_declared (Context r) proc_alice \<and> probes_declared edge_server proc_alice \<and>
      roles_declared proc_uuids edge_server (Context r) proc_alice)) forwarded \<and>
   trustedProxy edge (withRequest (\<lambda>r. requestScheme (requestFrom (Context r)))) forwarded = ''https'' \<and>
   (case fst (GetAdminUsers proc_uuids edge_server proc_alice) of
      Inr (GetAdminUsers200JSONResponse b) \<Rightarrow> map AdminUser_Role (UserListResponse_Users b) = [''user''] | _ \<Rightarrow> False)"
proof -
  have "schemeFrom (Context forwarded) = None" by (simp add: app_request_def)
  moreover have "pg_service (pr_pg example_proc 0)" by (simp add: example_proc_def mem_pg.pg_service_axioms)
  moreover have "db_wf (pg_db mem_pg proc_alice)" by code_simp
  then have "db_wf (pg_db (pr_pg example_proc 0) proc_alice)" by (simp add: example_proc_def)
  moreover have "pg_db (pr_pg example_proc 0) (snd (locked_out edge_server n ip proc_alice)) = pg_db (pr_pg example_proc 0) proc_alice" for n ip
    by (simp add: locked_out_def run_api_limits example_proc_def mem_pg_def mem_lockout_keeps_tables)
  ultimately have "trustedProxy (sv_trustedProxies edge_server) (withRequest (\<lambda>r. schemes_declared (Context r) proc_alice \<and>
      probes_declared edge_server proc_alice \<and> roles_declared proc_uuids edge_server (Context r) proc_alice)) forwarded"
    by (rule enum_fields_are_declared [OF _ refl])
  moreover have "trustedProxy edge (withRequest (\<lambda>r. requestScheme (requestFrom (Context r)))) forwarded = ''https''" by code_simp
  moreover have "(case fst (GetAdminUsers proc_uuids (zero_Server\<lparr>sv_users := Some (store_userStore mem_pg proc_rt)\<rparr>) proc_alice) of
      Inr (GetAdminUsers200JSONResponse b) \<Rightarrow> map AdminUser_Role (UserListResponse_Users b) = [''user''] | _ \<Rightarrow> False)" by code_simp
  then have "(case fst (GetAdminUsers proc_uuids edge_server proc_alice) of
      Inr (GetAdminUsers200JSONResponse b) \<Rightarrow> map AdminUser_Role (UserListResponse_Users b) = [''user''] | _ \<Rightarrow> False)"
    by (simp add: GetAdminUsers_def with_users_def example_proc_def)
  ultimately show ?thesis by simp
qed

end
