(* ===== verification/Spec2Isabelle.thy ===== *)
theory Spec2Isabelle
  imports Config Store_Locks Api_Inspect Api_Accounts Api_Sessions Api_Lockout Service_Contracts
begin

text \<open>
  A verification library for devopsbin, an HTTP service in Go. The service keeps cookie sessions,
  login lockout, password-reset tokens and rate-limit counters in Redis, users, accounts and a
  ledger of transfers in PostgreSQL, and offers diagnostic endpoints (probes, echo, status, delay)
  behind optional reverse proxies, next to a console and the pages of its API document.
  \<^verbatim>\<open>devopsbin run\<close> (\<^verbatim>\<open>internal/cli\<close>) loads the configuration, connects to both services, builds the
  server and serves its handler until a signal arrives. A request passes the middlewares of the router
  (\<^verbatim>\<open>internal/httpapi/router.go\<close>: security headers, the client address of \<^verbatim>\<open>proxy.go\<close>, the request
  context of \<^verbatim>\<open>reqcontext.go\<close>), is bound and dispatched by the generated \<^verbatim>\<open>openapi.gen.go\<close>, passes the
  authentication middleware (\<^verbatim>\<open>authmw.go\<close>) and reaches a handler of \<^verbatim>\<open>internal/httpapi\<close>, which calls the
  session manager, lockout and recovery of \<^verbatim>\<open>internal/auth\<close>, the limiter of \<^verbatim>\<open>internal/ratelimit\<close> (all
  over the client of \<^verbatim>\<open>internal/cache\<close>) and the store of \<^verbatim>\<open>internal/store\<close> (over the queries of
  \<^verbatim>\<open>internal/store/sqlc\<close>).

  \<^bold>\<open>Conventions.\<close> A Go string is its bytes. A fallible function returns \<open>goerr + 'a\<close>; errors form
  trees as \<^verbatim>\<open>fmt.Errorf("%w")\<close> builds them, searched by \<open>errors_is\<close>. An operation with effects is a
  function \<open>'w \<Rightarrow> 'a res \<times> 'w\<close> on a world \<open>'w\<close> that is a parameter throughout: what Redis, PostgreSQL,
  the clock and the random source do is given by records of functions (\<open>redis\<close>, \<open>pg\<close>, \<open>env\<close>, \<open>rt\<close>,
  \<open>pkgs\<close>, \<open>host\<close>, \<open>web\<close>, \<open>bindings\<close>, \<open>chi\<close>, \<open>yaml\<close>, \<open>drivers\<close>, \<open>proc\<close>), their documented behaviour by locales. Integers are \<open>int\<close> with \<open>wrap64\<close> and
  \<open>wrap32\<close> where the code's arithmetic can leave the range. A log call has no effect; a nil
  interface that is called is a panic (\<open>nil_panic\<close>).

  \<^bold>\<open>Theories.\<close>
  \<^item> \<open>Prelude\<close>: errors, machine integers, instants and durations, strings, shared lemmas.
  \<^item> \<open>Cache\<close>: \<^verbatim>\<open>internal/cache/redis.go\<close>; locale \<open>redis_service\<close> (every command may fail, before or after
    it took effect; what it does is the documented key and expiry semantics) and \<open>reliable_redis\<close>,
    interpreted on an in-memory server.
  \<^item> \<open>Auth_Session\<close>: \<^verbatim>\<open>internal/auth/auth.go\<close>; the step relation \<open>session_step\<close> of everything that touches
    sessions, \<open>session_reach\<close> its reachable states with the sessions issued so far.
  \<^item> \<open>Auth_Lockout\<close>, \<open>Auth_Recovery\<close>: \<^verbatim>\<open>lockout.go\<close> and \<^verbatim>\<open>recovery.go\<close>; runs of failures and of token uses.
  \<^item> \<open>RateLimit\<close>: \<^verbatim>\<open>internal/ratelimit/ratelimit.go\<close>; runs of requests in a window.
  \<^item> \<open>Store\<close>: tables with the constraints of \<^verbatim>\<open>migrations/*.sql\<close>, the query set as functions on them,
    \<^verbatim>\<open>users.go\<close>, \<^verbatim>\<open>admin.go\<close>, \<^verbatim>\<open>WithTx\<close>; locale \<open>pg_service\<close>.
  \<^item> \<open>Store_Transfer\<close>: \<^verbatim>\<open>transfer.go\<close>; the transaction, the retry loop and its backoff. \<open>Store_Locks\<close>: the
    attempts of concurrent callers, interleaved at the row locks of \<^verbatim>\<open>GetAccountsForUpdate\<close>; \<open>interleaved\<close> are
    the states reached by any schedule.
  \<^item> \<open>GoNet\<close>, \<open>Http\<close>: the parts of \<^verbatim>\<open>net/netip\<close>, \<^verbatim>\<open>net\<close> and \<^verbatim>\<open>net/http\<close> that the code uses, and
    \<^verbatim>\<open>reqcontext.go\<close>.
  \<^item> \<open>Proxy\<close>: \<^verbatim>\<open>proxy.go\<close>, and \<^verbatim>\<open>originIP\<close>, \<^verbatim>\<open>requestScheme\<close> of \<^verbatim>\<open>inspect.go\<close>.
  \<^item> \<open>Config\<close>: \<^verbatim>\<open>internal/config/config.go\<close> and \<^verbatim>\<open>New\<close> of \<^verbatim>\<open>redis.go\<close>.
  \<^item> \<open>Api_Types\<close>, \<open>Api_Responses\<close>: the types and response objects of \<^verbatim>\<open>openapi.gen.go\<close>, with what each
    response writes.
  \<^item> \<open>Api_Server\<close>: \<^verbatim>\<open>server.go\<close>, \<^verbatim>\<open>checks.go\<close>; \<open>Api_Inspect\<close>: \<^verbatim>\<open>inspect.go\<close>, \<^verbatim>\<open>status.go\<close>, \<^verbatim>\<open>delay.go\<close>,
    \<^verbatim>\<open>ratelimit.go\<close>; \<open>Api_Auth\<close>: \<^verbatim>\<open>auth.go\<close>, \<^verbatim>\<open>auth_password.go\<close>, \<^verbatim>\<open>authmw.go\<close>; \<open>Api_Accounts\<close>:
    \<^verbatim>\<open>transfer.go\<close>, \<^verbatim>\<open>admin.go\<close> (all in \<^verbatim>\<open>internal/httpapi\<close>).
  \<^item> \<open>Api_World\<close>: a world with Redis and PostgreSQL side by side; that the calls of one leave the other
    alone is the locale \<open>calm_store\<close>.
  \<^item> \<open>Session_Progress\<close>, \<open>Api_Sessions\<close>, \<open>Api_Lockout\<close>: the session manager and the lockout behind the
    endpoints, in the locales \<open>session_api\<close>, \<open>steady_api\<close> and \<open>login_api\<close>.
  \<^item> \<open>Api_Strict\<close>, \<open>Api_Wrapper\<close>: the strict handlers, the binding of parameters and the routes of
    \<^verbatim>\<open>openapi.gen.go\<close>; \<open>Api_Router\<close>: \<^verbatim>\<open>router.go\<close>, \<^verbatim>\<open>spa.go\<close>, \<^verbatim>\<open>docs.go\<close>; \<open>Api_Access\<close>: requests through
    the whole stack.
  \<^item> \<open>Lifecycle\<close>: opening and closing of the connections, \<^verbatim>\<open>internal/migrate\<close>, \<^verbatim>\<open>internal/logging\<close>; the
    locale \<open>opened_and_closed\<close> is their contract, \<open>driver_laws\<close> what the drivers promise.
  \<^item> \<open>Cli\<close>: the commands of \<^verbatim>\<open>internal/cli\<close>, \<^verbatim>\<open>web/web.go\<close>, \<^verbatim>\<open>api/spec.go\<close>; \<open>Cli_Service\<close>: what they
    guarantee; \<open>Service_Contracts\<close>: what the configuration and the API document promise of the server that
    \<^verbatim>\<open>run\<close> builds. This theory: the service as it is run.

  \<^bold>\<open>What the lemmas show.\<close>
  \<^item> Sessions: round trip of create and lookup (\<open>Session_Progress\<close>), the absolute lifetime as an invariant of all reachable
    states, revocation of all sessions of a user and of nothing else.
  \<^item> Lockout, recovery, limiter: the exact threshold and duration of a lock, single use and lifetime of
    a token, exactly \<open>limit\<close> admitted requests per window; independence of scopes; overflow corners.
  \<^item> Store: registration and transfers are atomic also when the reply to the commit is lost, the schema
    is an invariant, money is conserved and the ledger explains the balances, the transfer implements
    an abstract verdict, the retry loop ends; concurrent transfers have the effect of a serial order
    and do not deadlock, because every transaction locks its rows in ascending order.
  \<^item> Edge: the client address is the rightmost untrusted hop and cannot be chosen by a client; a
    configuration that is printed hides exactly the password of the user part of the database URL.
  \<^item> API: the middleware fails closed, probes report every check, the transfer endpoint answers with
    the documented status; the cookies of a login authenticate the next requests, a password change or
    reset signs out the other devices, guessing is locked out; every response carries the security
    headers.
  \<^item> Process: every command closes what it opened, what is served is what was configured, the limits of
    a configuration that loads are enforced, protected
    routes are guarded in the service that \<^verbatim>\<open>run\<close> serves, the health check passes on a live server,
    every enumeration field of a response holds a declared value.

  \<^bold>\<open>Loops.\<close> Every loop is structural recursion over the list it ranges over; the retry loop counts the
  attempts that are left, so no fuel is chosen anywhere.

  \<^bold>\<open>Not modelled.\<close> The code of third parties is a parameter: Redis and PostgreSQL with their drivers,
  \<^verbatim>\<open>chi\<close> (matching of paths, request ids, recovery, the timeout of a request), the binding functions of
  \<^verbatim>\<open>oapi-codegen/runtime\<close>, \<^verbatim>\<open>urfave/cli\<close>, \<^verbatim>\<open>goose\<close>, the YAML and JSON codecs. A response carries the body
  value, not its encoding. Log records are not kept. Of \<^verbatim>\<open>openapi.gen.go\<close> the stubs of
  \<^verbatim>\<open>Unimplemented\<close>, the convenience constructors and the compressed copy of the API document are left
  out: nothing in the service uses them. Handlers run one after another in a world that may change
  between calls of the services; concurrency inside PostgreSQL is modelled for transfers, at the
  granularity of a row lock, the statements that follow the locks and the commit, with the row locks
  of \<^verbatim>\<open>FOR UPDATE\<close> as documented; snapshots of the stricter isolation levels appear there only as
  transactions that are rolled back. Idealisations of the hypotheses: the tables do not change while the
  retry loop of a single transfer waits (\<open>retry_service\<close>); a Redis command runs at most once per call and Redis
  and the service share one clock (\<open>redis_service\<close>); the lookup and the touch of a session in the
  middleware are one step of \<open>session_reach\<close> (what a touch after a revocation does is proved separately);
  \<^verbatim>\<open>chi\<close>'s middlewares pass the request on (\<open>chi_transparent\<close>), so the responses to a panic or a deadline
  are left out. The contents of the embedded files are not modelled, nor is the JavaScript of the console.
\<close>

section \<open>The service as it is run\<close>

lemma served_handler:
  assumes "served_as_configured R cfg db rdb srv"
  obtains now s where "api_as_configured R cfg db rdb s"
    "hs_Handler srv = Handler (pr_chi R) (pr_web R) (pr_bindings R) (pr_yaml R) (pr_rt R) (pr_toDuration R) now s"
  using assms unfolding served_as_configured_def by blast

lemma served_routes_guarded:
  assumes "served_as_configured R cfg db rdb srv" and "chi_transparent (pr_chi R)" "chi_sound (pr_chi R)" "reads_body (pr_web R) Q"
    and "chi_match (pr_chi R) (route_keys (hs_Handler srv)) r = Matched i" "route_keys (hs_Handler srv) ! i \<in> set protected_routes"
    and "Cookie r (au_SessionCookieName (c_Auth cfg)) \<in> {None, Some []}" "wr_status wr = None"
  shows "refused Q x (ServeHTTP (pr_chi R) (hs_Handler srv) wr r x)"
proof -
  obtain now s where h: "hs_Handler srv = Handler (pr_chi R) (pr_web R) (pr_bindings R) (pr_yaml R) (pr_rt R) (pr_toDuration R) now s"
    and s: "api_as_configured R cfg db rdb s"
    using assms(1) by (rule served_handler)
  have "no_session_cookie s r" using s assms(7) by (auto simp: api_as_configured_def no_session_cookie_def)
  moreover obtain m where "sv_sessions s = Some m" using s by (simp add: api_as_configured_def)
  ultimately show ?thesis
    using protected_routes_need_a_session [OF assms(2,3) _ _ assms(5,6) [unfolded h] assms(8,4)] by (simp add: h)
qed

text \<open>
  C3: no protected operation without a session, in the service as \<^verbatim>\<open>devopsbin run\<close> serves it. Under any
  configuration that loads, the handler that is served answers 400 or 401 to every request that comes
  without the configured session cookie to a route whose operation is protected, whatever its
  parameters and its body are, and changes nothing but by reading the body: neither the operation nor
  a call to Redis or the database has run.
\<close>

theorem service_guards_protected_routes:
  assumes "Load (pr_host R) = Inr cfg" and "pr_dist R ''dist/index.html'' = Some indexHTML"
    and "chi_transparent (pr_chi R)" "chi_sound (pr_chi R)" "reads_body (pr_web R) Q"
  shows "\<exists>srv. run_connected R cfg db rdb w = run_serve R cfg srv w \<and> served_as_configured R cfg db rdb srv \<and>
    (\<forall>i r wr x. chi_match (pr_chi R) (route_keys (hs_Handler srv)) r = Matched i \<longrightarrow>
       route_keys (hs_Handler srv) ! i \<in> set protected_routes \<longrightarrow>
       Cookie r (au_SessionCookieName (c_Auth cfg)) \<in> {None, Some []} \<longrightarrow> wr_status wr = None \<longrightarrow>
       refused Q x (ServeHTTP (pr_chi R) (hs_Handler srv) wr r x))"
  using run_connected_serves [OF assms(1,2)] served_routes_guarded [OF _ assms(3-5)] by meson

theorem service_guards_protected_routes_witness:
  "\<exists>srv. run_connected example_proc default_Config 0 1 proc_start = run_serve example_proc default_Config srv proc_start \<and>
    refused (=) proc_start (ServeHTTP app_chi (hs_Handler srv) fresh_writer
      (app_request ''POST'' (basePath @ ''/transfer'') []) proc_start)"
proof -
  let ?r = "app_request ''POST'' (basePath @ ''/transfer'') []"
  have l: "Load (pr_host example_proc) = Inr default_Config" by (rule example_proc_loads)
  have p: "pr_dist example_proc ''dist/index.html'' = Some ''<!doctype html>''" by (simp add: example_proc_def)
  have c: "chi_transparent (pr_chi example_proc)" "chi_sound (pr_chi example_proc)" "reads_body (pr_web example_proc) (=)"
    by (simp_all add: example_proc_def app_chi_ok reads_body_def app_web_def Let_def)
  obtain srv where srv: "run_connected example_proc default_Config 0 1 proc_start = run_serve example_proc default_Config srv proc_start"
      "served_as_configured example_proc default_Config 0 1 srv"
    and g: "\<forall>i r wr x. chi_match (pr_chi example_proc) (route_keys (hs_Handler srv)) r = Matched i \<longrightarrow>
       route_keys (hs_Handler srv) ! i \<in> set protected_routes \<longrightarrow>
       Cookie r (au_SessionCookieName (c_Auth default_Config)) \<in> {None, Some []} \<longrightarrow> wr_status wr = None \<longrightarrow>
       refused (=) x (ServeHTTP (pr_chi example_proc) (hs_Handler srv) wr r x)"
    using service_guards_protected_routes [OF l p c, of 0 1 proc_start] by (elim exE conjE)
  have r: "Method ?r = ''POST''" "URL_Path ?r = basePath @ ''/transfer''" by (simp_all add: app_request_def)
  have "Cookie ?r (au_SessionCookieName (c_Auth default_Config)) = None" by code_simp
  moreover have "pr_chi example_proc = app_chi" by (simp add: example_proc_def)
  moreover obtain W B Y T d now s where "hs_Handler srv = Handler app_chi W B Y T d now s"
    by (metis served_handler [OF srv(2)] calculation(2))
  moreover have "wr_status fresh_writer = None" by (simp add: fresh_writer_def)
  ultimately have "refused (=) proc_start (ServeHTTP app_chi (hs_Handler srv) fresh_writer ?r proc_start)"
    using g [rule_format, of ?r 27 fresh_writer proc_start] by (simp add: plain_match_api [OF r])
  then show ?thesis using srv(1) by blast
qed

end
